(* ===== verification/Cpp_Prelude.thy ===== *)
theory Cpp_Prelude
  imports Main "HOL-Library.Word" "HOL-Library.State_Monad"
begin

text \<open>
  What the components share: the fixed-width types of the C++ sources, the outcomes a C++
  function can have beside returning (an exception, undefined behaviour), the string operations
  of the standard library that the address code uses (\<open>rfind\<close>, \<open>find_last_of\<close>, \<open>substr\<close>,
  \<open>std::to_string\<close>, \<open>std::stoi\<close>, \<open>strtol\<close>), and the lemmas on them.  The collection
  \<open>exec\<close> holds the equations that run a monadic definition, \<open>casts\<close> those that evaluate
  a \<open>static_cast\<close>.
\<close>

unbundle bit_operations_syntax

named_theorems exec \<open>equations that execute the state monad operations of the model\<close>
named_theorems casts \<open>equations for the integer and enumeration casts\<close>

section \<open>Types\<close>

type_synonym byte = "8 word"
type_synonym u16 = "16 word"
type_synonym u32 = "32 word"
type_synonym u64 = "64 word"

text \<open>What can go wrong in C++ without the language reporting it.\<close>

datatype fault =
    Inactive_Union_Member   \<comment> \<open>reading the member of a union that is not active\<close>
  | Empty_Pop_Back          \<comment> \<open>\<open>std::string::pop_back\<close> on an empty string\<close>
  | Null_Deref
  | Null_Function_Call
  | Null_Threadpool_Io      \<comment> \<open>a thread pool call on a \<open>PTP_IO\<close> that is \<open>nullptr\<close>\<close>
  | Use_After_Free
  | Double_Free
  | Buffer_Overflow
  | Bad_Expected_Access     \<comment> \<open>\<open>error()\<close> of a \<open>std::expected\<close> that holds a value, or the reverse\<close>

datatype exn = invalid_argument | out_of_range

datatype 'a cpp = Ret 'a | Throws exn | Undefined fault

fun bind_cpp :: "'a cpp \<Rightarrow> ('a \<Rightarrow> 'b cpp) \<Rightarrow> 'b cpp" where
  "bind_cpp (Ret x) f = f x"
| "bind_cpp (Throws e) f = Throws e"
| "bind_cpp (Undefined u) f = Undefined u"

text \<open>Conversions to \<open>int\<close> (32 bits, two's complement).\<close>

definition to_int32 :: "int \<Rightarrow> int" where
  "to_int32 i = signed_take_bit 31 i"

definition int32_range :: "int \<Rightarrow> bool" where
  "int32_range i \<longleftrightarrow> - (2 ^ 31) \<le> i \<and> i < 2 ^ 31"

section \<open>Strings\<close>

definition npos :: nat where
  "npos = 2 ^ 64 - 1"

text \<open>
  \<open>find_idx_last c s\<close> is the last position of \<open>c\<close> in \<open>s\<close>; \<open>rfind\<close> and, for a single
  character, \<open>find_last_of\<close> return it, or \<open>npos\<close>.
\<close>

fun find_idx_last :: "char \<Rightarrow> string \<Rightarrow> nat option" where
  "find_idx_last c [] = None"
| "find_idx_last c (x # xs) =
     (case find_idx_last c xs of
        Some i \<Rightarrow> Some (Suc i)
      | None \<Rightarrow> if x = c then Some 0 else None)"

definition rfind :: "string \<Rightarrow> char \<Rightarrow> nat" where
  "rfind s c = (case find_idx_last c s of Some i \<Rightarrow> i | None \<Rightarrow> npos)"

abbreviation (input) find_last_of :: "string \<Rightarrow> char \<Rightarrow> nat" where
  "find_last_of \<equiv> rfind"

text \<open>The C string that starts at \<open>data()\<close>: the characters before the first NUL.\<close>

definition c_str :: "string \<Rightarrow> string" where
  "c_str s = takeWhile (\<lambda>c. c \<noteq> CHR 0x00) s"

definition is_space :: "char \<Rightarrow> bool" where
  "is_space c \<longleftrightarrow> of_char c = (32::nat) \<or> (9 \<le> (of_char c :: nat) \<and> of_char c \<le> (13::nat))"

definition is_digit :: "char \<Rightarrow> bool" where
  "is_digit c \<longleftrightarrow> 48 \<le> (of_char c :: nat) \<and> of_char c \<le> (57::nat)"

definition digit_value :: "char \<Rightarrow> nat" where
  "digit_value c = of_char c - 48"

definition digit_char :: "nat \<Rightarrow> char" where
  "digit_char d = char_of (48 + d)"

fun decimal :: "nat \<Rightarrow> string" where
  "decimal n = (if n < 10 then [digit_char n] else decimal (n div 10) @ [digit_char (n mod 10)])"

declare decimal.simps [simp del]

text \<open>\<open>std::to_string\<close> of an unsigned port, promoted to \<open>int\<close>.\<close>

definition to_string_u16 :: "u16 \<Rightarrow> string" where
  "to_string_u16 p = decimal (unat p)"

definition dec_value :: "string \<Rightarrow> nat" where
  "dec_value s = foldl (\<lambda>v c. 10 * v + digit_value c) 0 s"

text \<open>
  The number \<open>strtol\<close> reads in base 10: white space, an optional sign, then the longest run of
  digits; \<open>None\<close> when there is no digit.
\<close>

definition read_signed :: "string \<Rightarrow> int option" where
  "read_signed s =
     (let t = dropWhile is_space s;
          neg = (t \<noteq> [] \<and> hd t = CHR ''-'');
          u = (if t \<noteq> [] \<and> (hd t = CHR ''-'' \<or> hd t = CHR ''+'') then tl t else t);
          ds = takeWhile is_digit u
      in if ds = [] then None
         else Some (if neg then - int (dec_value ds) else int (dec_value ds)))"

text \<open>\<open>std::stoi\<close>: \<open>int\<close> has 32 bits.\<close>

definition stoi :: "string \<Rightarrow> int cpp" where
  "stoi s =
     (case read_signed (c_str s) of
        None \<Rightarrow> Throws invalid_argument
      | Some i \<Rightarrow> if int32_range i then Ret i else Throws out_of_range)"

text \<open>\<open>strtol\<close> with base 10: \<open>long\<close> has 32 bits on Windows, the result saturates.\<close>

definition LONG_MAX :: int where "LONG_MAX = 2147483647"
definition LONG_MIN :: int where "LONG_MIN = - 2147483648"

definition strtol10 :: "string \<Rightarrow> int" where
  "strtol10 s =
     (case read_signed (c_str s) of
        None \<Rightarrow> 0
      | Some i \<Rightarrow> if i < LONG_MIN then LONG_MIN else if LONG_MAX < i then LONG_MAX else i)"

section \<open>Lemmas\<close>

subsection \<open>Outcomes\<close>

lemma bind_cpp_Ret_iff: "bind_cpp m f = Ret y \<longleftrightarrow> (\<exists>x. m = Ret x \<and> f x = Ret y)"
  by (cases m) auto

lemma bind_cpp_Undefined_iff:
  "bind_cpp m f = Undefined u \<longleftrightarrow> m = Undefined u \<or> (\<exists>x. m = Ret x \<and> f x = Undefined u)"
  by (cases m) auto

lemma bind_cpp_assoc: "bind_cpp (bind_cpp m f) g = bind_cpp m (\<lambda>x. bind_cpp (f x) g)"
  by (cases m) auto

subsection \<open>Casts\<close>

lemma to_int32_id [casts]: "int32_range i \<Longrightarrow> to_int32 i = i"
  by (simp add: to_int32_def int32_range_def signed_take_bit_int_eq_self)

lemma to_int32_zero_iff: "0 \<le> i \<Longrightarrow> i < 2 ^ 32 \<Longrightarrow> to_int32 i = 0 \<longleftrightarrow> i = 0"
proof -
  assume i: "0 \<le> i" "i < 2 ^ 32"
  have "to_int32 i = 0 \<longleftrightarrow> signed_take_bit 31 i = signed_take_bit 31 0"
    by (simp add: to_int32_def)
  also have "\<dots> \<longleftrightarrow> take_bit 32 i = take_bit 32 0"
    by (subst signed_take_bit_eq_iff_take_bit_eq) simp
  also have "\<dots> \<longleftrightarrow> i = 0" using i by (simp add: take_bit_int_eq_self)
  finally show ?thesis .
qed

subsection \<open>Searching\<close>

lemma find_idx_last_None: "find_idx_last c s = None \<longleftrightarrow> c \<notin> set s"
  by (induction s) (auto split: option.splits)

lemma find_idx_last_notin [simp]: "c \<notin> set s \<Longrightarrow> find_idx_last c s = None"
  by (simp add: find_idx_last_None)

lemma find_idx_last_append:
  "find_idx_last c (xs @ ys) =
     (case find_idx_last c ys of
        Some i \<Rightarrow> Some (length xs + i)
      | None \<Rightarrow> find_idx_last c xs)"
  by (induction xs) (auto split: option.splits)

lemma find_idx_last_bound: "find_idx_last c s = Some i \<Longrightarrow> i < length s"
  by (induction s arbitrary: i) (auto split: option.splits if_splits)

lemma rfind_split: "c \<notin> set ys \<Longrightarrow> rfind (xs @ c # ys) c = length xs"
  by (simp add: rfind_def find_idx_last_append split: option.splits)

lemma rfind_not_found [simp]: "c \<notin> set s \<Longrightarrow> rfind s c = npos"
  by (simp add: rfind_def)

lemma rfind_found: "c \<in> set s \<Longrightarrow> rfind s c < length s"
  using find_idx_last_None [of c s]
  by (auto simp: rfind_def dest: find_idx_last_bound split: option.splits)

lemma rfind_append_notin: "c \<notin> set ys \<Longrightarrow> rfind (xs @ ys) c = rfind xs c"
  by (simp add: rfind_def find_idx_last_append split: option.splits)

lemma c_str_no_nul [simp]: "CHR 0x00 \<notin> set s \<Longrightarrow> c_str s = s"
  by (auto simp: c_str_def takeWhile_eq_all_conv)

subsection \<open>Decimal numbers\<close>

lemma of_char_digit_char: "d < 10 \<Longrightarrow> of_char (digit_char d) = (48 + d :: nat)"
  by (simp add: digit_char_def)

lemma is_digit_digit_char [simp]: "d < 10 \<Longrightarrow> is_digit (digit_char d)"
  by (simp add: is_digit_def of_char_digit_char)

lemma digit_value_digit_char [simp]: "d < 10 \<Longrightarrow> digit_value (digit_char d) = d"
  by (simp add: digit_value_def of_char_digit_char)

lemma decimal_digits: "\<forall>c \<in> set (decimal n). is_digit c"
  by (induction n rule: decimal.induct) (subst decimal.simps, auto)

lemma decimal_not_Nil [simp]: "decimal n \<noteq> []"
  by (subst decimal.simps) simp

lemma dec_value_snoc [simp]: "dec_value (s @ [c]) = 10 * dec_value s + digit_value c"
  by (simp add: dec_value_def)

lemma dec_value_decimal [simp]: "dec_value (decimal n) = n"
proof (induction n rule: decimal.induct)
  case (1 n)
  show ?case
  proof (cases "n < 10")
    case True
    then show ?thesis by (simp add: decimal.simps [of n] dec_value_def)
  next
    case False
    with 1 show ?thesis by (simp add: decimal.simps [of n])
  qed
qed

lemma is_digit_neq: "is_digit c \<Longrightarrow> c \<noteq> CHR ''-'' \<and> c \<noteq> CHR ''+'' \<and> c \<noteq> CHR '':'' \<and>
    c \<noteq> CHR '']'' \<and> c \<noteq> CHR ''.'' \<and> c \<noteq> CHR 0x00 \<and> \<not> is_space c"
  by (auto simp: is_digit_def is_space_def)

lemma read_signed_digits:
  assumes "\<forall>c \<in> set s. is_digit c" and "s \<noteq> []"
  shows "read_signed s = Some (int (dec_value s))"
proof -
  from assms obtain c cs where s: "s = c # cs" and c: "is_digit c" by (cases s) auto
  have "takeWhile is_digit s = s" using assms(1) by (simp add: takeWhile_eq_all_conv)
  then show ?thesis using s is_digit_neq [OF c] by (simp add: read_signed_def Let_def)
qed

lemma stoi_digits:
  assumes "\<forall>c \<in> set s. is_digit c" and "s \<noteq> []" and "dec_value s < 2 ^ 31"
  shows "stoi s = Ret (int (dec_value s))"
proof -
  have "CHR 0x00 \<notin> set s" using assms(1) is_digit_neq by blast
  then show ?thesis
    using assms by (simp add: stoi_def read_signed_digits int32_range_def)
qed

lemma to_string_u16_digits: "c \<in> set (to_string_u16 p) \<Longrightarrow> is_digit c"
  using decimal_digits by (auto simp: to_string_u16_def)

lemma to_string_u16_not_Nil [simp]: "to_string_u16 p \<noteq> []"
  by (simp add: to_string_u16_def)

lemma unat_u16_less: "unat (p :: u16) < 65536"
  using unsigned_less [of p] by simp

lemma uint_u16_of_int: "0 \<le> i \<Longrightarrow> i \<le> 65535 \<Longrightarrow> uint (word_of_int i :: u16) = i"
  by (rule word_of_int_inverse [OF refl]) simp_all

lemma stoi_to_string: "stoi (to_string_u16 p) = Ret (int (unat p))"
proof -
  have "unat p < 2 ^ 31" using unat_u16_less [of p] by simp
  then show ?thesis
    using stoi_digits [of "decimal (unat p)"] decimal_digits by (simp add: to_string_u16_def)
qed

lemma strtol_digits:
  assumes "\<forall>c \<in> set s. is_digit c" and "s \<noteq> []" and "dec_value s < 2 ^ 31"
  shows "strtol10 s = int (dec_value s)"
proof -
  have "CHR 0x00 \<notin> set s" using assms(1) is_digit_neq by blast
  then show ?thesis
    using assms by (simp add: strtol10_def read_signed_digits LONG_MIN_def LONG_MAX_def)
qed

subsection \<open>Running the state monad\<close>

lemma run_state_if [simp, exec]:
  "run_state (if b then m else n) s = (if b then run_state m s else run_state n s)"
  by simp

lemma run_state_bind_exec [exec]:
  "run_state (State_Monad.bind m f) s = (case run_state m s of (a, s') \<Rightarrow> run_state (f a) s')"
  by simp

lemma run_state_return_exec [exec]: "run_state (State_Monad.return x) s = (x, s)"
  by simp

text \<open>Programs that go on alike after every result that can occur are equal.\<close>

lemma bind_same:
  assumes "\<And>w. f (fst (run_state m w)) = g (fst (run_state m w))"
  shows "State_Monad.bind m f = State_Monad.bind m g"
  using assms by (intro state.expand ext) (simp add: State_Monad.bind_def split_beta)

end
