(* ===== verification/Run_Stop.thy ===== *)
theory Run_Stop
  imports Cpp_Prelude
begin

text \<open>
  \<open>WinIOCore::run\<close> and \<open>WinIOCore::stop\<close> as programs of concurrent threads, with
  \<open>Socket::stop_io_context\<close>, which calls \<open>stop\<close>.  A thread is the point it has reached; the shared
  state is the stop flag, the owner of the lock \<open>srw_run_\<close> and, implicitly in the points, the
  threads asleep on the condition variable \<open>cv_run_\<close>.  A step is one system call of one thread, in
  any interleaving; the system may also wake a sleeping thread for no reason.  The theorems show
  that no wake-up is lost and that every \<open>run\<close> returns after a \<open>stop\<close>.
\<close>

section \<open>Threads\<close>

datatype pc =
    Run_Acquire        \<comment> \<open>\<open>run\<close>: before \<open>AcquireSRWLockExclusive\<close>\<close>
  | Run_Test           \<comment> \<open>before the test of \<open>stop_requested_\<close>\<close>
  | Run_Sleep          \<comment> \<open>before \<open>SleepConditionVariableSRW\<close>\<close>
  | Run_Asleep         \<comment> \<open>in it, the lock released\<close>
  | Run_Reacquire      \<comment> \<open>in it, woken, to take the lock again\<close>
  | Run_Release        \<comment> \<open>before \<open>ReleaseSRWLockExclusive\<close>\<close>
  | Ctx_Lock           \<comment> \<open>\<open>stop_io_context\<close>: before \<open>io_core_.lock()\<close>\<close>
  | Stop_Set           \<comment> \<open>\<open>stop\<close>: before the flag is set\<close>
  | Stop_Acquire
  | Stop_Wake          \<comment> \<open>before \<open>WakeAllConditionVariable\<close>\<close>
  | Stop_Release
  | Done

record rs =
  core_alive :: bool
  stop_requested :: int
  owner :: "nat option"
  pcs :: "pc list"

definition goto :: "nat \<Rightarrow> pc \<Rightarrow> rs \<Rightarrow> rs" where
  "goto t p s = s\<lparr>pcs := (pcs s)[t := p]\<rparr>"

text \<open>A thread waits, \<open>None\<close>, while the lock it wants is taken.\<close>

definition acquire :: "nat \<Rightarrow> rs \<Rightarrow> rs option" where
  "acquire t s = (if owner s = None then Some (s\<lparr>owner := Some t\<rparr>) else None)"

definition release_lock :: "rs \<Rightarrow> rs" where
  "release_lock s = s\<lparr>owner := None\<rparr>"

definition wake_all :: "rs \<Rightarrow> rs" where
  "wake_all s = s\<lparr>pcs := map (\<lambda>p. if p = Run_Asleep then Run_Reacquire else p) (pcs s)\<rparr>"

fun run_step :: "pc \<Rightarrow> nat \<Rightarrow> rs \<Rightarrow> rs option" where
  "run_step Run_Acquire t s = map_option (goto t Run_Test) (acquire t s)"
| "run_step Run_Test t s = Some (goto t (if stop_requested s = 0 then Run_Sleep else Run_Release) s)"
| "run_step Run_Sleep t s = Some (goto t Run_Asleep (release_lock s))"
| "run_step Run_Reacquire t s = map_option (goto t Run_Test) (acquire t s)"
| "run_step Run_Release t s = Some (goto t Done (release_lock s))"
| "run_step _ t s = None"

fun stop_step :: "pc \<Rightarrow> nat \<Rightarrow> rs \<Rightarrow> rs option" where
  "stop_step Stop_Set t s = Some (goto t Stop_Acquire (s\<lparr>stop_requested := 1\<rparr>))"
| "stop_step Stop_Acquire t s = map_option (goto t Stop_Wake) (acquire t s)"
| "stop_step Stop_Wake t s = Some (goto t Stop_Release (wake_all s))"
| "stop_step Stop_Release t s = Some (goto t Done (release_lock s))"
| "stop_step _ t s = None"

fun stop_io_context_step :: "pc \<Rightarrow> nat \<Rightarrow> rs \<Rightarrow> rs option" where
  "stop_io_context_step Ctx_Lock t s = Some (goto t (if core_alive s then Stop_Set else Done) s)"
| "stop_io_context_step _ t s = None"

definition thread_step :: "nat \<Rightarrow> rs \<Rightarrow> rs option" where
  "thread_step t s =
     (if t < length (pcs s) then
        (case run_step (pcs s ! t) t s of
           Some s' \<Rightarrow> Some s'
         | None \<Rightarrow> (case stop_step (pcs s ! t) t s of
             Some s' \<Rightarrow> Some s'
           | None \<Rightarrow> stop_io_context_step (pcs s ! t) t s))
      else None)"

inductive step :: "rs \<Rightarrow> rs \<Rightarrow> bool" where
  thread: "thread_step t s = Some s' \<Longrightarrow> step s s'"
| spurious: "t < length (pcs s) \<Longrightarrow> pcs s ! t = Run_Asleep \<Longrightarrow> step s (goto t Run_Reacquire s)"

text \<open>The threads have called \<open>run\<close>, \<open>stop\<close> or \<open>stop_io_context\<close>, after \<open>initialize\<close> cleared the flag.\<close>

definition initial :: "rs \<Rightarrow> bool" where
  "initial s \<longleftrightarrow> stop_requested s = 0 \<and> owner s = None \<and> set (pcs s) \<subseteq> {Run_Acquire, Stop_Set, Ctx_Lock}"

inductive reachable :: "rs \<Rightarrow> bool" where
  init: "initial s \<Longrightarrow> reachable s"
| step: "reachable s \<Longrightarrow> step s s' \<Longrightarrow> reachable s'"

section \<open>Invariant\<close>

definition holds_lock :: "pc \<Rightarrow> bool" where
  "holds_lock p \<longleftrightarrow> p \<in> {Run_Test, Run_Sleep, Run_Release, Stop_Wake, Stop_Release}"

text \<open>The lock has at most one owner, and it is the thread whose point says so.\<close>

definition lock_inv :: "rs \<Rightarrow> bool" where
  "lock_inv s \<longleftrightarrow> (\<forall>t < length (pcs s). holds_lock (pcs s ! t) \<longleftrightarrow> owner s = Some t) \<and>
     (\<forall>t. owner s = Some t \<longrightarrow> t < length (pcs s))"

text \<open>A thread that sleeps, or is about to, after the flag was set, has a waker to come.\<close>

definition wake_inv :: "rs \<Rightarrow> bool" where
  "wake_inv s \<longleftrightarrow>
     (stop_requested s \<noteq> 0 \<and> (\<exists>t < length (pcs s). pcs s ! t \<in> {Run_Sleep, Run_Asleep}) \<longrightarrow>
        (\<exists>u < length (pcs s). pcs s ! u \<in> {Stop_Acquire, Stop_Wake}))"

text \<open>The flag is set when a thread has left the loop of \<open>run\<close> or passed the first line of \<open>stop\<close>.\<close>

definition flag_inv :: "rs \<Rightarrow> bool" where
  "flag_inv s \<longleftrightarrow> stop_requested s \<in> {0, 1} \<and>
     ((\<exists>t < length (pcs s). pcs s ! t \<in> {Run_Release, Stop_Acquire, Stop_Wake, Stop_Release}) \<longrightarrow> stop_requested s = 1)"

lemmas step_defs = thread_step_def goto_def acquire_def release_lock_def

text \<open>The steps, by the point of the thread that takes one.\<close>

lemma thread_stepE [consumes 1, case_names acquire sleep test release ctx set wake]:
  assumes "thread_step t s = Some s'"
  obtains (acquire) p' where "t < length (pcs s)" "owner s = None" "(pcs s ! t, p') \<in> {(Run_Acquire, Run_Test),
      (Run_Reacquire, Run_Test), (Stop_Acquire, Stop_Wake)}" "s' = goto t p' (s\<lparr>owner := Some t\<rparr>)"
  | (sleep) "t < length (pcs s)" "pcs s ! t = Run_Sleep" "s' = goto t Run_Asleep (s\<lparr>owner := None\<rparr>)"
  | (test) "t < length (pcs s)" "pcs s ! t = Run_Test"
      "s' = goto t (if stop_requested s = 0 then Run_Sleep else Run_Release) s"
  | (release) "t < length (pcs s)" "pcs s ! t \<in> {Run_Release, Stop_Release}" "s' = goto t Done (s\<lparr>owner := None\<rparr>)"
  | (ctx) "t < length (pcs s)" "pcs s ! t = Ctx_Lock" "s' = goto t (if core_alive s then Stop_Set else Done) s"
  | (set) "t < length (pcs s)" "pcs s ! t = Stop_Set" "s' = goto t Stop_Acquire (s\<lparr>stop_requested := 1\<rparr>)"
  | (wake) "t < length (pcs s)" "pcs s ! t = Stop_Wake" "s' = goto t Stop_Release (wake_all s)"
  using assms by (cases "pcs s ! t") (auto simp: step_defs split: if_splits)

lemma pcs_goto [simp]: "pcs (goto t p s) = (pcs s)[t := p]" "owner (goto t p s) = owner s"
  "stop_requested (goto t p s) = stop_requested s" "core_alive (goto t p s) = core_alive s"
  by (simp_all add: goto_def)

lemma wake_all_simps [simp]: "length (pcs (wake_all s)) = length (pcs s)" "owner (wake_all s) = owner s"
  "stop_requested (wake_all s) = stop_requested s"
  "t < length (pcs s) \<Longrightarrow> pcs (wake_all s) ! t = (if pcs s ! t = Run_Asleep then Run_Reacquire else pcs s ! t)"
  by (simp_all add: wake_all_def)

lemma wake_all_holds [simp]: "t < length (pcs s) \<Longrightarrow> holds_lock (pcs (wake_all s) ! t) \<longleftrightarrow> holds_lock (pcs s ! t)"
  by (simp add: holds_lock_def)

lemma holds_lock_simps [simp]:
  "holds_lock Run_Test" "holds_lock Run_Sleep" "holds_lock Run_Release" "holds_lock Stop_Wake" "holds_lock Stop_Release"
  "\<not> holds_lock Run_Acquire" "\<not> holds_lock Run_Asleep" "\<not> holds_lock Run_Reacquire" "\<not> holds_lock Ctx_Lock"
  "\<not> holds_lock Stop_Set" "\<not> holds_lock Stop_Acquire" "\<not> holds_lock Done"
  by (simp_all add: holds_lock_def)

text \<open>A thread moves, taking or giving up the lock as its new point says.\<close>

lemma lock_inv_move:
  assumes "lock_inv s" and "t < length (pcs s)" and "pcs s' = (pcs s)[t := p]"
    and "owner s' = (if holds_lock p then Some t else if holds_lock (pcs s ! t) then None else owner s)"
    and "holds_lock p \<Longrightarrow> owner s = None \<or> owner s = Some t"
  shows "lock_inv s'"
  unfolding lock_inv_def
proof (intro conjI allI impI)
  fix u assume u: "u < length (pcs s')"
  have l: "holds_lock (pcs s ! u) \<longleftrightarrow> owner s = Some u" "holds_lock (pcs s ! t) \<longleftrightarrow> owner s = Some t"
    using assms(1,2,3) u by (auto simp: lock_inv_def)
  show "holds_lock (pcs s' ! u) \<longleftrightarrow> owner s' = Some u"
    by (cases "u = t") (use u l assms(2-5) in \<open>auto simp: nth_list_update\<close>)
next
  fix u assume "owner s' = Some u"
  then show "u < length (pcs s')" using assms(1-4) by (auto simp: lock_inv_def split: if_splits)
qed

lemma lock_inv_wake_all: "lock_inv s \<Longrightarrow> lock_inv (wake_all s)"
  by (auto simp: lock_inv_def)

lemma lock_invD: "lock_inv s \<Longrightarrow> t < length (pcs s) \<Longrightarrow> holds_lock (pcs s ! t) \<Longrightarrow> owner s = Some t"
  by (simp add: lock_inv_def)

lemma lock_inv_step:
  assumes "step s s'" and "lock_inv s"
  shows "lock_inv s'"
  using assms
proof (induction rule: step.induct)
  case (thread t s s')
  note own = lock_invD [OF thread(2), of t]
  from thread(1) show ?case
  proof (cases rule: thread_stepE)
    case (acquire p')
    then show ?thesis by (intro lock_inv_move [OF thread(2), of t _ p']) auto
  next
    case sleep
    then show ?thesis using own by (intro lock_inv_move [OF thread(2), of t _ Run_Asleep]) auto
  next
    case test
    then show ?thesis
      using own by (intro lock_inv_move [OF thread(2), of t _ "if stop_requested s = 0 then Run_Sleep else Run_Release"]) auto
  next
    case release
    then show ?thesis using own by (intro lock_inv_move [OF thread(2), of t _ Done]) auto
  next
    case ctx
    then show ?thesis using own
      by (intro lock_inv_move [OF thread(2), of t _ "if core_alive s then Stop_Set else Done"]) (auto split: if_splits)
  next
    case set
    then show ?thesis using own by (intro lock_inv_move [OF thread(2), of t _ Stop_Acquire]) auto
  next
    case wake
    then show ?thesis
      using own by (intro lock_inv_move [OF lock_inv_wake_all [OF thread(2)], of t _ Stop_Release]) auto
  qed
next
  case (spurious t s)
  then show ?case by (intro lock_inv_move [OF spurious(3), of t _ Run_Reacquire]) auto
qed

lemma flag_inv_step:
  assumes "step s s'" and "flag_inv s"
  shows "flag_inv s'"
  using assms
proof (induction rule: step.induct)
  case (thread t s s')
  from thread(1) show ?case
    by (cases rule: thread_stepE)
      (use thread(2) in \<open>auto simp: flag_inv_def nth_list_update split: if_splits\<close>)
next
  case (spurious t s)
  then show ?case by (auto simp: flag_inv_def nth_list_update split: if_splits)
qed

lemma wake_inv_move:
  assumes w: "wake_inv s" and t: "t < length (pcs s)" and s': "pcs s' = (pcs s)[t := p]" "stop_requested s' = stop_requested s"
    and sl: "p \<in> {Run_Sleep, Run_Asleep} \<Longrightarrow> pcs s ! t \<in> {Run_Sleep, Run_Asleep}"
    and wk: "pcs s ! t \<in> {Stop_Acquire, Stop_Wake} \<Longrightarrow> p \<in> {Stop_Acquire, Stop_Wake}"
  shows "wake_inv s'"
  unfolding wake_inv_def
proof (intro impI, elim conjE exE)
  fix u assume "stop_requested s' \<noteq> 0" and u: "u < length (pcs s')" "pcs s' ! u \<in> {Run_Sleep, Run_Asleep}"
  moreover have "pcs s ! u \<in> {Run_Sleep, Run_Asleep}"
    using u sl t s'(1) by (cases "u = t") (auto simp: nth_list_update)
  ultimately obtain v where v: "v < length (pcs s)" "pcs s ! v \<in> {Stop_Acquire, Stop_Wake}"
    using w s' unfolding wake_inv_def by auto
  then have "pcs s' ! v \<in> {Stop_Acquire, Stop_Wake}"
    using wk t s'(1) by (cases "v = t") (auto simp: nth_list_update)
  with v(1) s'(1) show "\<exists>v < length (pcs s'). pcs s' ! v \<in> {Stop_Acquire, Stop_Wake}" by auto
qed

lemma wake_inv_step:
  assumes "step s s'" and "lock_inv s" and "wake_inv s"
  shows "wake_inv s'"
  using assms
proof (induction rule: step.induct)
  case (thread t s s')
  from thread(1) show ?case
  proof (cases rule: thread_stepE)
    case (acquire p')
    then show ?thesis by (intro wake_inv_move [OF thread(3), of t _ p']) auto
  next
    case sleep
    then show ?thesis by (intro wake_inv_move [OF thread(3), of t _ Run_Asleep]) auto
  next
    case test
    show ?thesis
    proof (cases "stop_requested s = 0")
      case True
      then show ?thesis using test by (simp add: wake_inv_def)
    next
      case False
      then show ?thesis using test by (intro wake_inv_move [OF thread(3), of t _ Run_Release]) auto
    qed
  next
    case release
    then show ?thesis by (intro wake_inv_move [OF thread(3), of t _ Done]) auto
  next
    case ctx
    then show ?thesis
      by (intro wake_inv_move [OF thread(3), of t _ "if core_alive s then Stop_Set else Done"]) (auto split: if_splits)
  next
    case set
    then show ?thesis by (auto simp: wake_inv_def intro!: exI [of _ t])
  next
    case wake
    have "owner s = Some t" using thread(2) wake by (intro lock_invD) simp_all
    then have "pcs s ! u \<noteq> Run_Sleep" if "u < length (pcs s)" for u
      using lock_invD [OF thread(2) that] wake by (cases "u = t") auto
    then show ?thesis using wake by (auto simp: wake_inv_def nth_list_update split: if_splits)
  qed
next
  case (spurious t s)
  then show ?case by (intro wake_inv_move [OF spurious(4), of t _ Run_Reacquire]) auto
qed

lemma reachable_inv:
  assumes "reachable s"
  shows "lock_inv s \<and> flag_inv s \<and> wake_inv s"
  using assms
proof (induction rule: reachable.induct)
  case (init s)
  then have "pcs s ! t \<in> {Run_Acquire, Stop_Set, Ctx_Lock}" if "t < length (pcs s)" for t
    using that nth_mem by (fastforce simp: initial_def)
  with init show ?case by (fastforce simp: initial_def lock_inv_def flag_inv_def wake_inv_def holds_lock_def)
next
  case (step s s')
  then show ?case using lock_inv_step flag_inv_step wake_inv_step by blast
qed

section \<open>Progress\<close>

text \<open>How many steps a thread has left at most, once the flag is set.\<close>

fun weight :: "pc \<Rightarrow> nat" where
  "weight Run_Acquire = 3"
| "weight Run_Test = 2"
| "weight Run_Sleep = 5"
| "weight Run_Asleep = 4"
| "weight Run_Reacquire = 3"
| "weight Run_Release = 1"
| "weight Ctx_Lock = 5"
| "weight Stop_Set = 4"
| "weight Stop_Acquire = 3"
| "weight Stop_Wake = 2"
| "weight Stop_Release = 1"
| "weight Done = 0"

definition steps_left :: "rs \<Rightarrow> nat" where
  "steps_left s = sum_list (map weight (pcs s))"

lemma steps_left_goto:
  assumes "t < length ps" and "weight p < weight (ps ! t)"
  shows "sum_list (map weight (ps[t := p])) < sum_list (map weight ps)"
  using assms
proof (induction ps arbitrary: t)
  case (Cons q ps)
  then show ?case by (cases t) auto
qed simp

lemma steps_left_wake_all: "steps_left (wake_all s) \<le> steps_left s"
  unfolding steps_left_def wake_all_def by (simp add: sum_list_mono comp_def)

lemma step_decreases:
  assumes "step s s'" and "stop_requested s \<noteq> 0"
  shows "steps_left s' < steps_left s \<and> stop_requested s' \<noteq> 0"
  using assms
proof (induction rule: step.induct)
  case (thread t s s')
  have m: "steps_left (goto t p s0) < steps_left s0" if "t < length (pcs s0)" "weight p < weight (pcs s0 ! t)" for p s0
    using steps_left_goto [OF that] by (simp add: steps_left_def)
  from thread(1) show ?case
  proof (cases rule: thread_stepE)
    case (acquire p')
    then have "steps_left (goto t p' (s\<lparr>owner := Some t\<rparr>)) < steps_left (s\<lparr>owner := Some t\<rparr>)" by (intro m) auto
    then show ?thesis using acquire thread(2) by (simp add: steps_left_def)
  next
    case sleep
    then have "steps_left (goto t Run_Asleep (s\<lparr>owner := None\<rparr>)) < steps_left (s\<lparr>owner := None\<rparr>)" by (intro m) auto
    then show ?thesis using sleep thread(2) by (simp add: steps_left_def)
  next
    case test
    then show ?thesis using thread(2) by (auto intro: m)
  next
    case release
    then have "steps_left (goto t Done (s\<lparr>owner := None\<rparr>)) < steps_left (s\<lparr>owner := None\<rparr>)" by (intro m) auto
    then show ?thesis using release thread(2) by (simp add: steps_left_def)
  next
    case ctx
    then show ?thesis using thread(2) by (auto intro: m)
  next
    case set
    then have "steps_left (goto t Stop_Acquire (s\<lparr>stop_requested := 1\<rparr>)) < steps_left (s\<lparr>stop_requested := 1\<rparr>)"
      by (intro m) auto
    then show ?thesis using set by (simp add: steps_left_def)
  next
    case wake
    then have "steps_left (goto t Stop_Release (wake_all s)) < steps_left (wake_all s)" by (intro m) auto
    then show ?thesis using wake thread(2) steps_left_wake_all [of s] by simp
  qed
next
  case (spurious t s)
  then show ?case using steps_left_goto [of t "pcs s" Run_Reacquire] by (simp add: steps_left_def)
qed

lemma steps_bounded:
  assumes "(step ^^ n) s s'" and "stop_requested s \<noteq> 0"
  shows "n + steps_left s' \<le> steps_left s \<and> stop_requested s' \<noteq> 0"
  using assms
proof (induction n arbitrary: s')
  case (Suc n)
  then obtain s1 where "(step ^^ n) s s1" "step s1 s'" by auto
  with Suc step_decreases [of s1 s'] show ?case by fastforce
qed simp

text \<open>With the flag set some thread can move until all are done.\<close>

lemma enabled:
  assumes "reachable s" and "stop_requested s \<noteq> 0" and "\<And>s'. \<not> step s s'"
  shows "set (pcs s) \<subseteq> {Done}"
proof -
  have inv: "lock_inv s" "wake_inv s" using reachable_inv [OF assms(1)] by simp_all
  have stuck: "thread_step t s = None" for t
    using assms(3) step.thread by (metis not_None_eq)
  have free: "owner s = None"
  proof (rule ccontr)
    assume "owner s \<noteq> None"
    then obtain t where "t < length (pcs s)" "holds_lock (pcs s ! t)" using inv(1) by (auto simp: lock_inv_def)
    then show False using stuck [of t] by (auto simp: thread_step_def holds_lock_def split: if_splits)
  qed
  have ends: "pcs s ! t \<in> {Done, Run_Asleep}" if "t < length (pcs s)" for t
    using stuck [of t] free that by (cases "pcs s ! t") (auto simp: thread_step_def acquire_def)
  then have "pcs s ! t \<noteq> Run_Asleep" if "t < length (pcs s)" for t
    using inv(2) assms(2) that unfolding wake_inv_def by fastforce
  with ends show ?thesis by (fastforce simp: in_set_conv_nth)
qed

lemma reachable_steps:
  assumes "step\<^sup>*\<^sup>* s s'" and "reachable s"
  shows "reachable s'"
  using assms by (induction rule: rtranclp_induct) (auto intro: reachable.step)

section \<open>Properties\<close>

text \<open>C5. No wake-up is lost: whenever the stop flag is set while a thread of \<open>run\<close> sleeps on the condition
  variable, or has found the flag clear and is about to, some \<open>stop\<close> has its \<open>WakeAllConditionVariable\<close>
  still to come; and at most one thread is ever past the lock.\<close>

theorem no_lost_wakeup:
  assumes "reachable s" and "stop_requested s \<noteq> 0" and "t < length (pcs s)"
    and "pcs s ! t = Run_Asleep \<or> pcs s ! t = Run_Sleep"
  shows "(\<exists>u < length (pcs s). pcs s ! u = Stop_Acquire \<or> pcs s ! u = Stop_Wake) \<and>
    (\<forall>u v. u < length (pcs s) \<longrightarrow> v < length (pcs s) \<longrightarrow> holds_lock (pcs s ! u) \<longrightarrow> holds_lock (pcs s ! v) \<longrightarrow> u = v)"
proof
  have "lock_inv s" "wake_inv s" using reachable_inv [OF assms(1)] by simp_all
  then show "\<exists>u < length (pcs s). pcs s ! u = Stop_Acquire \<or> pcs s ! u = Stop_Wake"
    using assms(2-4) unfolding wake_inv_def by blast
  show "\<forall>u v. u < length (pcs s) \<longrightarrow> v < length (pcs s) \<longrightarrow> holds_lock (pcs s ! u) \<longrightarrow> holds_lock (pcs s ! v) \<longrightarrow> u = v"
    using lock_invD [OF \<open>lock_inv s\<close>] by (metis option.inject)
qed

text \<open>One thread in \<open>run\<close>, asleep, and one in \<open>stop\<close> that has set the flag.\<close>

definition two_threads :: rs where
  "two_threads = \<lparr>core_alive = True, stop_requested = 0, owner = None, pcs = [Run_Acquire, Stop_Set]\<rparr>"

definition sleeping :: rs where
  "sleeping = two_threads\<lparr>stop_requested := 1, pcs := [Run_Asleep, Stop_Acquire]\<rparr>"

lemma reachable_thread: "reachable s \<Longrightarrow> thread_step t s = Some s' \<Longrightarrow> reachable s'"
  by (rule reachable.step [OF _ step.thread])

lemma sleeping_reachable: "reachable sleeping"
proof -
  have "reachable two_threads" by (rule reachable.init) (simp add: initial_def two_threads_def)
  then have "reachable (two_threads\<lparr>owner := Some 0, pcs := [Run_Test, Stop_Set]\<rparr>)"
    by (rule reachable_thread [of _ 0]) (simp add: step_defs two_threads_def)
  then have "reachable (two_threads\<lparr>owner := Some 0, pcs := [Run_Sleep, Stop_Set]\<rparr>)"
    by (rule reachable_thread [of _ 0]) (simp add: step_defs two_threads_def)
  then have "reachable (two_threads\<lparr>pcs := [Run_Asleep, Stop_Set]\<rparr>)"
    by (rule reachable_thread [of _ 0]) (simp add: step_defs two_threads_def)
  then show ?thesis
    by (rule reachable_thread [of _ 1]) (simp add: step_defs sleeping_def two_threads_def)
qed

theorem no_lost_wakeup_witness:
  "\<exists>u < length (pcs sleeping). pcs sleeping ! u = Stop_Acquire \<or> pcs sleeping ! u = Stop_Wake"
  using no_lost_wakeup [OF sleeping_reachable, of 0] by (simp add: sleeping_def)

text \<open>C4. Every \<open>run\<close> returns after a \<open>stop\<close>: once the flag is set, every interleaving of the threads, spurious
  wake-ups included, ends after a bounded number of steps, and it ends only when every thread has
  returned from its call.\<close>

theorem run_returns_after_stop:
  assumes "reachable s" and "stop_requested s \<noteq> 0"
  shows "(\<forall>n s'. (step ^^ n) s s' \<longrightarrow> n \<le> steps_left s) \<and>
    (\<forall>s'. step\<^sup>*\<^sup>* s s' \<longrightarrow> (\<exists>s''. step s' s'') \<or> set (pcs s') \<subseteq> {Done})"
proof (intro conjI allI impI)
  fix n s' assume "(step ^^ n) s s'"
  then show "n \<le> steps_left s" using steps_bounded assms(2) by fastforce
next
  fix s' assume st: "step\<^sup>*\<^sup>* s s'"
  then obtain n where "(step ^^ n) s s'" by (auto simp: rtranclp_power)
  then have "stop_requested s' \<noteq> 0" using steps_bounded assms(2) by blast
  then show "(\<exists>s''. step s' s'') \<or> set (pcs s') \<subseteq> {Done}"
    using enabled [OF reachable_steps [OF st assms(1)]] by blast
qed

theorem run_returns_after_stop_witness:
  "{n. \<exists>s'. (step ^^ n) sleeping s'} \<subseteq> {..7}"
  using run_returns_after_stop [OF sleeping_reachable] by (auto simp: sleeping_def steps_left_def)

text \<open>\<open>run\<close> does not return early: a thread that has left the loop of \<open>run\<close> has seen the flag, which only
  a \<open>stop\<close> sets.\<close>

theorem run_leaves_only_after_stop:
  assumes "reachable s" and "t < length (pcs s)" and "pcs s ! t = Run_Release"
  shows "stop_requested s = 1"
  using reachable_inv [OF assms(1)] assms(2,3) unfolding flag_inv_def by blast

definition leaving :: rs where
  "leaving = \<lparr>core_alive = True, stop_requested = 1, owner = Some 0, pcs = [Run_Release, Stop_Acquire]\<rparr>"

theorem run_leaves_only_after_stop_witness: "stop_requested leaving = 1"
proof -
  have "reachable two_threads" by (rule reachable.init) (simp add: initial_def two_threads_def)
  then have "reachable (two_threads\<lparr>stop_requested := 1, pcs := [Run_Acquire, Stop_Acquire]\<rparr>)"
    by (rule reachable_thread [of _ 1]) (simp add: step_defs two_threads_def)
  then have "reachable (leaving\<lparr>pcs := [Run_Test, Stop_Acquire]\<rparr>)"
    by (rule reachable_thread [of _ 0]) (simp add: step_defs two_threads_def leaving_def)
  then have "reachable leaving"
    by (rule reachable_thread [of _ 0]) (simp add: step_defs leaving_def)
  then show ?thesis by (rule run_leaves_only_after_stop [of _ 0]) (simp_all add: leaving_def)
qed

end
