(* ===== verification/Fl_Types.thy ===== *)
theory Fl_Types
  imports Cpp_Prelude
begin

text \<open>
  The enumerations of \<open>types.hpp\<close>, \<open>error_codes.hpp\<close> and \<open>options.hpp\<close>.  Every one is an
  \<open>enum class : int\<close>, whose values are all the values of \<open>int\<close>, and the code casts system
  results into them; each datatype therefore has the named enumerators and one constructor for
  the unnamed values, and the two \<open>static_cast\<close>s are functions.  The numbers are those the
  Windows SDK headers give the macros.  The lemmas show the casts to be inverse on the values
  of \<open>int\<close>, so that no system error is lost or turned into \<open>Success\<close>.
\<close>

section \<open>types.hpp\<close>

type_synonym NativeHandle = u64   \<comment> \<open>\<open>SOCKET\<close>, an unsigned pointer-sized integer\<close>

abbreviation INVALID_SOCKET :: NativeHandle where
  "INVALID_SOCKET \<equiv> - 1"

datatype Operation =
    Op_Unknown | Op_Accept | Op_Connect | Op_Recv | Op_RecvFrom | Op_Send | Op_SendTo | Op_Disconnect

datatype AddressFamily =
    AF_NotSupported | AF_Unspecified | AF_IPv4 | AF_IPv6 | AF_Other int

datatype SocketType =
    ST_NotSupported | ST_Stream | ST_Datagram | ST_Other int

datatype Protocol =
    Pr_NotSupported | Pr_Tcp | Pr_Udp | Pr_Other int

datatype ShutdownHow =
    Sd_NotSupported | Sd_Read | Sd_Write | Sd_Both | Sd_Other int

definition AF_INET :: int where "AF_INET = 2"
definition AF_INET6 :: int where "AF_INET6 = 23"

fun af_to_int :: "AddressFamily \<Rightarrow> int" where
  "af_to_int AF_NotSupported = -1"
| "af_to_int AF_Unspecified = 0"
| "af_to_int AF_IPv4 = AF_INET"
| "af_to_int AF_IPv6 = AF_INET6"
| "af_to_int (AF_Other i) = i"

definition af_of_int :: "int \<Rightarrow> AddressFamily" where
  "af_of_int i =
     (if i = -1 then AF_NotSupported else if i = 0 then AF_Unspecified
      else if i = AF_INET then AF_IPv4 else if i = AF_INET6 then AF_IPv6 else AF_Other i)"

fun st_to_int :: "SocketType \<Rightarrow> int" where
  "st_to_int ST_NotSupported = -1"
| "st_to_int ST_Stream = 1"
| "st_to_int ST_Datagram = 2"
| "st_to_int (ST_Other i) = i"

definition st_of_int :: "int \<Rightarrow> SocketType" where
  "st_of_int i =
     (if i = -1 then ST_NotSupported else if i = 1 then ST_Stream
      else if i = 2 then ST_Datagram else ST_Other i)"

fun pr_to_int :: "Protocol \<Rightarrow> int" where
  "pr_to_int Pr_NotSupported = -1"
| "pr_to_int Pr_Tcp = 6"
| "pr_to_int Pr_Udp = 17"
| "pr_to_int (Pr_Other i) = i"

definition pr_of_int :: "int \<Rightarrow> Protocol" where
  "pr_of_int i =
     (if i = -1 then Pr_NotSupported else if i = 6 then Pr_Tcp
      else if i = 17 then Pr_Udp else Pr_Other i)"

fun sd_to_int :: "ShutdownHow \<Rightarrow> int" where
  "sd_to_int Sd_NotSupported = -1"
| "sd_to_int Sd_Read = 0"
| "sd_to_int Sd_Write = 1"
| "sd_to_int Sd_Both = 2"
| "sd_to_int (Sd_Other i) = i"

section \<open>error\_codes.hpp\<close>

datatype ErrorCode =
    SystemError | PlatformNotSupported
  | Success | NotInitialized | NotSupported | ProcLimitReached
  | WouldBlock | InProgress | AlreadyInProgress
  | NotASocket | DestinationAddressRequired | MessageTooLong | WrongProtocol
  | ProtocolOptionUnavailable | ProtocolNotSupported | SocketTypeNotSupported
  | OperationNotSupported | AddressFamilyNotSupported
  | AddressInUse | AddressNotAvailable
  | NetworkDown | NetworkUnreachable | NetworkReset | ConnectionAborted | ConnectionReset
  | NoBufferSpace
  | AlreadyConnected | NotConnected | SocketShutdown
  | TimedOut | ConnectionRefused
  | HostNotFound | HostDown | HostUnreachable
  | InvalidArgument
  | OtherError int

fun ec_to_int :: "ErrorCode \<Rightarrow> int" where
  "ec_to_int SystemError = -1"
| "ec_to_int PlatformNotSupported = -2"
| "ec_to_int Success = 0"
| "ec_to_int NotInitialized = 10093"
| "ec_to_int NotSupported = 10092"
| "ec_to_int ProcLimitReached = 10067"
| "ec_to_int WouldBlock = 10035"
| "ec_to_int InProgress = 10036"
| "ec_to_int AlreadyInProgress = 10037"
| "ec_to_int NotASocket = 10038"
| "ec_to_int DestinationAddressRequired = 10039"
| "ec_to_int MessageTooLong = 10040"
| "ec_to_int WrongProtocol = 10041"
| "ec_to_int ProtocolOptionUnavailable = 10042"
| "ec_to_int ProtocolNotSupported = 10043"
| "ec_to_int SocketTypeNotSupported = 10044"
| "ec_to_int OperationNotSupported = 10045"
| "ec_to_int AddressFamilyNotSupported = 10047"
| "ec_to_int AddressInUse = 10048"
| "ec_to_int AddressNotAvailable = 10049"
| "ec_to_int NetworkDown = 10050"
| "ec_to_int NetworkUnreachable = 10051"
| "ec_to_int NetworkReset = 10052"
| "ec_to_int ConnectionAborted = 10053"
| "ec_to_int ConnectionReset = 10054"
| "ec_to_int NoBufferSpace = 10055"
| "ec_to_int AlreadyConnected = 10056"
| "ec_to_int NotConnected = 10057"
| "ec_to_int SocketShutdown = 10058"
| "ec_to_int TimedOut = 10060"
| "ec_to_int ConnectionRefused = 10061"
| "ec_to_int HostNotFound = 11001"
| "ec_to_int HostDown = 10064"
| "ec_to_int HostUnreachable = 10065"
| "ec_to_int InvalidArgument = 10022"
| "ec_to_int (OtherError i) = i"

definition named_errors :: "ErrorCode list" where
  "named_errors =
     [SystemError, PlatformNotSupported, Success, NotInitialized, NotSupported, ProcLimitReached,
      WouldBlock, InProgress, AlreadyInProgress, NotASocket, DestinationAddressRequired,
      MessageTooLong, WrongProtocol, ProtocolOptionUnavailable, ProtocolNotSupported,
      SocketTypeNotSupported, OperationNotSupported, AddressFamilyNotSupported, AddressInUse,
      AddressNotAvailable, NetworkDown, NetworkUnreachable, NetworkReset, ConnectionAborted,
      ConnectionReset, NoBufferSpace, AlreadyConnected, NotConnected, SocketShutdown, TimedOut,
      ConnectionRefused, HostNotFound, HostDown, HostUnreachable, InvalidArgument]"

text \<open>\<open>static_cast<ErrorCode>(i)\<close>.\<close>

definition ec_of_int :: "int \<Rightarrow> ErrorCode" where
  "ec_of_int i = (case find (\<lambda>e. ec_to_int e = i) named_errors of Some e \<Rightarrow> e | None \<Rightarrow> OtherError i)"

definition wf_error :: "ErrorCode \<Rightarrow> bool" where
  "wf_error e \<longleftrightarrow> (case e of OtherError i \<Rightarrow> i \<notin> ec_to_int ` set named_errors | _ \<Rightarrow> True)"

section \<open>options.hpp\<close>

datatype SocketOptionLevel =
    Lv_Socket | Lv_Ip | Lv_Ipv6 | Lv_Tcp | Lv_Udp | Lv_Other int

datatype SocketOption =
    ReuseAddress | KeepAlive | ReceiveBuffer | SendBuffer | Broadcast | Linger
  | NoDelay | DontLinger | UpdateAcceptContext | UpdateConnectContext | So_Other int

fun lv_to_int :: "SocketOptionLevel \<Rightarrow> int" where
  "lv_to_int Lv_Socket = 0xFFFF"
| "lv_to_int Lv_Ip = 0"
| "lv_to_int Lv_Ipv6 = 41"
| "lv_to_int Lv_Tcp = 6"
| "lv_to_int Lv_Udp = 17"
| "lv_to_int (Lv_Other i) = i"

fun so_to_int :: "SocketOption \<Rightarrow> int" where
  "so_to_int ReuseAddress = 0x0004"
| "so_to_int KeepAlive = 0x0008"
| "so_to_int ReceiveBuffer = 0x1002"
| "so_to_int SendBuffer = 0x1001"
| "so_to_int Broadcast = 0x0020"
| "so_to_int Linger = 0x0080"
| "so_to_int NoDelay = 0x0001"
| "so_to_int DontLinger = - 129"
| "so_to_int UpdateAcceptContext = 0x700B"
| "so_to_int UpdateConnectContext = 0x7010"
| "so_to_int (So_Other i) = i"

section \<open>Lemmas\<close>

lemma AF_consts [simp]: "AF_INET \<noteq> AF_INET6" "AF_INET6 \<noteq> AF_INET" "AF_INET \<noteq> 0" "AF_INET6 \<noteq> 0"
  "AF_INET \<noteq> -1" "AF_INET6 \<noteq> -1"
  by (simp_all add: AF_INET_def AF_INET6_def)

lemma af_to_of_int [simp, casts]: "af_to_int (af_of_int i) = i"
  by (simp add: af_of_int_def)

lemma st_to_of_int [simp, casts]: "st_to_int (st_of_int i) = i"
  by (simp add: st_of_int_def)

lemma pr_to_of_int [simp, casts]: "pr_to_int (pr_of_int i) = i"
  by (simp add: pr_of_int_def)

lemma ec_to_of_int [simp, casts]: "ec_to_int (ec_of_int i) = i"
  by (auto simp: ec_of_int_def find_Some_iff split: option.splits)

lemma named_errors_distinct: "distinct (map ec_to_int named_errors)"
  by (simp add: named_errors_def)

lemma named_error_mem: "(\<forall>i. e \<noteq> OtherError i) \<Longrightarrow> e \<in> set named_errors"
  by (cases e) (simp_all add: named_errors_def)

lemma ec_of_int_named: "e \<in> set named_errors \<Longrightarrow> ec_of_int (ec_to_int e) = e"
proof -
  assume e: "e \<in> set named_errors"
  then have "find (\<lambda>e'. ec_to_int e' = ec_to_int e) named_errors \<noteq> None"
    by (auto simp: find_None_iff)
  then obtain e' where e': "find (\<lambda>e'. ec_to_int e' = ec_to_int e) named_errors = Some e'" by blast
  then have "e' \<in> set named_errors" and "ec_to_int e' = ec_to_int e"
    by (auto simp: find_Some_iff)
  with e named_errors_distinct have "e' = e" by (auto simp: distinct_map inj_on_def)
  with e' show ?thesis by (simp add: ec_of_int_def)
qed

lemma ec_of_to_int: "wf_error e \<Longrightarrow> ec_of_int (ec_to_int e) = e"
proof (cases "\<exists>i. e = OtherError i")
  case True
  then obtain i where e: "e = OtherError i" by blast
  assume "wf_error e"
  with e have "find (\<lambda>e. ec_to_int e = i) named_errors = None"
    by (auto simp: wf_error_def find_None_iff)
  with e show ?thesis by (simp add: ec_of_int_def)
next
  case False
  then show ?thesis using named_error_mem ec_of_int_named by blast
qed

lemma named_errors_wf: "e \<in> set named_errors \<Longrightarrow> wf_error e"
  by (cases e) (simp_all add: wf_error_def named_errors_def)

lemma wf_ec_of_int [simp]: "wf_error (ec_of_int i)"
proof (cases "find (\<lambda>e. ec_to_int e = i) named_errors")
  case None
  then have "i \<notin> ec_to_int ` set named_errors" by (auto simp: find_None_iff)
  with None show ?thesis by (simp add: ec_of_int_def wf_error_def)
next
  case (Some e)
  then have "e \<in> set named_errors" by (auto simp: find_Some_iff)
  with Some show ?thesis by (simp add: ec_of_int_def named_errors_wf)
qed

lemma ec_of_int_Success [simp]: "ec_of_int i = Success \<longleftrightarrow> i = 0"
proof
  assume "ec_of_int i = Success"
  then have "ec_to_int (ec_of_int i) = 0" by simp
  then show "i = 0" by simp
next
  assume "i = 0"
  then show "ec_of_int i = Success" by (simp add: ec_of_int_def named_errors_def)
qed

lemma ec_of_int_Success' [simp]: "Success = ec_of_int i \<longleftrightarrow> i = 0"
  using ec_of_int_Success [of i] by metis

end
