(* ===== verification/Fl_Endpoint.thy ===== *)
theory Fl_Endpoint
  imports Fl_Types
begin

text \<open>
  \<open>endpoint.hpp\<close> and \<open>endpoint.cpp\<close>: the address structures, the \<open>Endpoint\<close> union, and the
  conversions to and from text.  The system's \<open>::inet_ntop\<close> and \<open>::inet_pton\<close> are parameters
  (\<open>sys_ntop\<close>, \<open>sys_pton\<close>).  An \<open>Endpoint\<close> records which member of the union is active;
  reading the other one is undefined behaviour.  The functions that can throw
  (\<open>std::stoi\<close>) or run into undefined behaviour have a result in \<open>cpp\<close>.
\<close>

section \<open>Addresses\<close>

record IPv4Address =
  v4_bytes :: "byte list"
  v4_port :: u16

record IPv6Address =
  v6_bytes :: "byte list"
  v6_port :: u16

definition IPv4Address_default :: IPv4Address where
  "IPv4Address_default = \<lparr>v4_bytes = replicate 4 0, v4_port = 0\<rparr>"

definition IPv4Address_any :: "u16 \<Rightarrow> IPv4Address" where
  "IPv4Address_any p = \<lparr>v4_bytes = [0, 0, 0, 0], v4_port = p\<rparr>"

definition IPv4Address_loopback :: "u16 \<Rightarrow> IPv4Address" where
  "IPv4Address_loopback p = \<lparr>v4_bytes = [127, 0, 0, 1], v4_port = p\<rparr>"

definition IPv6Address_default :: IPv6Address where
  "IPv6Address_default = \<lparr>v6_bytes = replicate 16 0, v6_port = 0\<rparr>"

definition IPv6Address_any :: "u16 \<Rightarrow> IPv6Address" where
  "IPv6Address_any p = \<lparr>v6_bytes = [0,0,0,0,0,0,0,0,0,0,0,0,0,0,0,0], v6_port = p\<rparr>"

definition IPv6Address_loopback :: "u16 \<Rightarrow> IPv6Address" where
  "IPv6Address_loopback p = \<lparr>v6_bytes = [0,0,0,0,0,0,0,0,0,0,0,0,0,0,0,1], v6_port = p\<rparr>"

text \<open>\<open>Endpoint()\<close> leaves the union without an active member.\<close>

datatype Endpoint = Ep_Uninit | Ep_V4 IPv4Address | Ep_V6 IPv6Address

definition ipv4 :: "Endpoint \<Rightarrow> IPv4Address cpp" where
  "ipv4 ep = (case ep of Ep_V4 a \<Rightarrow> Ret a | _ \<Rightarrow> Undefined Inactive_Union_Member)"

definition ipv6 :: "Endpoint \<Rightarrow> IPv6Address cpp" where
  "ipv6 ep = (case ep of Ep_V6 a \<Rightarrow> Ret a | _ \<Rightarrow> Undefined Inactive_Union_Member)"

text \<open>A \<open>std::array\<close> has its length in its type.\<close>

definition wf_v4 :: "IPv4Address \<Rightarrow> bool" where
  "wf_v4 a \<longleftrightarrow> length (v4_bytes a) = 4"

definition wf_v6 :: "IPv6Address \<Rightarrow> bool" where
  "wf_v6 a \<longleftrightarrow> length (v6_bytes a) = 16"

fun wf_endpoint :: "Endpoint \<Rightarrow> bool" where
  "wf_endpoint Ep_Uninit = True"
| "wf_endpoint (Ep_V4 a) = wf_v4 a"
| "wf_endpoint (Ep_V6 a) = wf_v6 a"

text \<open>The member a family selects is the active one.\<close>

fun matches_family :: "AddressFamily \<Rightarrow> Endpoint \<Rightarrow> bool" where
  "matches_family AF_IPv4 ep = (case ep of Ep_V4 _ \<Rightarrow> True | _ \<Rightarrow> False)"
| "matches_family AF_IPv6 ep = (case ep of Ep_V6 _ \<Rightarrow> True | _ \<Rightarrow> False)"
| "matches_family _ ep = False"

section \<open>inet\_ntop\<close>

definition INET_ADDRSTRLEN :: nat where "INET_ADDRSTRLEN = 22"
definition INET6_ADDRSTRLEN :: nat where "INET6_ADDRSTRLEN = 65"

type_synonym ntop_fn = "int \<Rightarrow> byte list \<Rightarrow> nat \<Rightarrow> string option"
type_synonym pton_fn = "int \<Rightarrow> string \<Rightarrow> byte list \<Rightarrow> int \<times> byte list"

definition inet_ntop4 :: "ntop_fn \<Rightarrow> IPv4Address \<Rightarrow> string" where
  "inet_ntop4 sys_ntop addr =
     (case sys_ntop AF_INET (v4_bytes addr) INET_ADDRSTRLEN of
        None \<Rightarrow> []
      | Some buf \<Rightarrow> c_str buf @ '':'' @ to_string_u16 (v4_port addr))"

definition inet_ntop6 :: "ntop_fn \<Rightarrow> IPv6Address \<Rightarrow> string" where
  "inet_ntop6 sys_ntop addr =
     (case sys_ntop AF_INET6 (v6_bytes addr) INET6_ADDRSTRLEN of
        None \<Rightarrow> []
      | Some buf \<Rightarrow> ''['' @ c_str buf @ '']'' @ '':'' @ to_string_u16 (v6_port addr))"

definition inet_ntop :: "ntop_fn \<Rightarrow> AddressFamily \<Rightarrow> Endpoint \<Rightarrow> string cpp" where
  "inet_ntop sys_ntop family endpoint =
     (if family = AF_IPv4 then bind_cpp (ipv4 endpoint) (\<lambda>a. Ret (inet_ntop4 sys_ntop a))
      else if family = AF_IPv6 then bind_cpp (ipv6 endpoint) (\<lambda>a. Ret (inet_ntop6 sys_ntop a))
      else Ret [])"

section \<open>inet\_pton\<close>

text \<open>
  \<open>sys_pton family text buffer\<close> is the result of \<open>::inet_pton\<close> and the content of the
  destination afterwards.  The reference parameter \<open>out\<close> is returned with its new value.
\<close>

definition pton4_addr :: "pton_fn \<Rightarrow> string \<Rightarrow> IPv4Address \<Rightarrow> (ErrorCode \<times> IPv4Address) cpp" where
  "pton4_addr sys_pton trimmed_addr out =
     (let (res, bs) = sys_pton AF_INET (c_str trimmed_addr) (v4_bytes out);
          out' = out\<lparr>v4_bytes := bs\<rparr>
      in if res \<noteq> 1 then Ret (SystemError, out') else Ret (Success, out'))"

definition inet_pton4 :: "pton_fn \<Rightarrow> string \<Rightarrow> IPv4Address \<Rightarrow> (ErrorCode \<times> IPv4Address) cpp" where
  "inet_pton4 sys_pton str out =
     (let pos = rfind str CHR '':''
      in if pos \<noteq> npos \<and> pos > find_last_of str CHR ''.'' then
           (let trimmed_addr = take pos str;
                trimmed_port = drop (pos + 1) str
            in bind_cpp (stoi trimmed_port) (\<lambda>v.
                 pton4_addr sys_pton trimmed_addr (out\<lparr>v4_port := word_of_int v\<rparr>)))
         else pton4_addr sys_pton str out)"

definition pton6_addr :: "pton_fn \<Rightarrow> string \<Rightarrow> IPv6Address \<Rightarrow> (ErrorCode \<times> IPv6Address) cpp" where
  "pton6_addr sys_pton trimmed_addr out =
     (let (res, bs) = sys_pton AF_INET6 (c_str trimmed_addr) (replicate 16 0)
      in if res \<noteq> 1 then Ret (SystemError, out) else Ret (Success, out\<lparr>v6_bytes := bs\<rparr>))"

definition pop_back :: "string \<Rightarrow> string cpp" where
  "pop_back s = (if s = [] then Undefined Empty_Pop_Back else Ret (butlast s))"

definition inet_pton6 :: "pton_fn \<Rightarrow> string \<Rightarrow> IPv6Address \<Rightarrow> (ErrorCode \<times> IPv6Address) cpp" where
  "inet_pton6 sys_pton str out =
     (let pos = rfind str CHR '':''
      in if pos \<noteq> npos \<and> pos > rfind str CHR '']'' then
           (let trimmed_addr = drop 1 (take pos str);
                trimmed_port = drop (pos + 1) str
            in bind_cpp (pop_back trimmed_addr) (\<lambda>trimmed_addr.
               bind_cpp (stoi trimmed_port) (\<lambda>v.
                 pton6_addr sys_pton trimmed_addr (out\<lparr>v6_port := word_of_int v\<rparr>))))
         else pton6_addr sys_pton str out)"

definition inet_pton :: "pton_fn \<Rightarrow> AddressFamily \<Rightarrow> string \<Rightarrow> Endpoint \<Rightarrow> (ErrorCode \<times> Endpoint) cpp" where
  "inet_pton sys_pton family str out =
     (if family = AF_IPv4 then
        bind_cpp (inet_pton4 sys_pton str IPv4Address_default) (\<lambda>(result, addr).
          Ret (result, if result = Success then Ep_V4 addr else out))
      else if family = AF_IPv6 then
        bind_cpp (inet_pton6 sys_pton str IPv6Address_default) (\<lambda>(result, addr).
          Ret (result, if result = Success then Ep_V6 addr else out))
      else Ret (AddressFamilyNotSupported, out))"

section \<open>Lemmas\<close>

lemmas endpoint_defs = inet_ntop4_def inet_ntop6_def inet_ntop_def inet_pton4_def inet_pton6_def
  inet_pton_def pton4_addr_def pton6_addr_def

lemma wf_addresses [simp]:
  "wf_v4 IPv4Address_default" "wf_v4 (IPv4Address_any p)" "wf_v4 (IPv4Address_loopback p)"
  "wf_v6 IPv6Address_default" "wf_v6 (IPv6Address_any p)" "wf_v6 (IPv6Address_loopback p)"
  by (simp_all add: wf_v4_def wf_v6_def IPv4Address_default_def IPv4Address_any_def
      IPv4Address_loopback_def IPv6Address_default_def IPv6Address_any_def IPv6Address_loopback_def)

lemma ipv4_V4 [simp]: "ipv4 (Ep_V4 a) = Ret a"
  by (simp add: ipv4_def)

lemma ipv6_V6 [simp]: "ipv6 (Ep_V6 a) = Ret a"
  by (simp add: ipv6_def)

lemma matches_IPv4: "matches_family AF_IPv4 ep \<Longrightarrow> \<exists>a. ep = Ep_V4 a"
  by (cases ep) auto

lemma matches_IPv6: "matches_family AF_IPv6 ep \<Longrightarrow> \<exists>a. ep = Ep_V6 a"
  by (cases ep) auto

lemma port_digits_notin:
  "CHR '':'' \<notin> set (to_string_u16 p)" "CHR ''.'' \<notin> set (to_string_u16 p)"
  "CHR '']'' \<notin> set (to_string_u16 p)"
  using to_string_u16_digits is_digit_neq by blast+

text \<open>Where the text splits: the last colon, when it comes after the last dot or bracket.\<close>

lemma pton4_split:
  assumes "CHR '':'' \<notin> set port" and "CHR ''.'' \<notin> set port" and "CHR ''.'' \<in> set addr"
    and "length addr < npos"
  shows "inet_pton4 sys_pton (addr @ '':'' @ port) out =
    bind_cpp (stoi port) (\<lambda>v. pton4_addr sys_pton addr (out\<lparr>v4_port := word_of_int v\<rparr>))"
proof -
  let ?s = "addr @ CHR '':'' # port"
  have pos: "rfind ?s CHR '':'' = length addr" using assms(1) by (rule rfind_split)
  have "rfind ?s CHR ''.'' = rfind addr CHR ''.''"
    using assms(2) by (intro rfind_append_notin) simp
  then have "rfind ?s CHR ''.'' < length addr" using rfind_found [OF assms(3)] by simp
  with pos assms(4) show ?thesis by (simp add: inet_pton4_def Let_def)
qed

lemma pton4_no_port:
  assumes "CHR '':'' \<notin> set str"
  shows "inet_pton4 sys_pton str out = pton4_addr sys_pton str out"
  using assms by (simp add: inet_pton4_def)

lemma pton6_split:
  assumes "CHR '':'' \<notin> set port" and "CHR '']'' \<notin> set port" and "length addr + 2 < npos"
  shows "inet_pton6 sys_pton (''['' @ addr @ '']'' @ '':'' @ port) out =
    bind_cpp (stoi port) (\<lambda>v. pton6_addr sys_pton addr (out\<lparr>v6_port := word_of_int v\<rparr>))"
proof -
  let ?pre = "CHR ''['' # addr @ [CHR '']'']"
  let ?s = "?pre @ CHR '':'' # port"
  have pos: "rfind ?s CHR '':'' = length addr + 2" using rfind_split [OF assms(1), of ?pre] by simp
  have "rfind ((CHR ''['' # addr) @ CHR '']'' # (CHR '':'' # port)) CHR '']'' = length addr + 1"
    using assms(2) by (subst rfind_split) simp_all
  then have br: "rfind ?s CHR '']'' = length addr + 1" by simp
  have tk: "drop 1 (take (length addr + 2) ?s) = addr @ [CHR '']'']" by simp
  have dr: "drop (length addr + 2 + 1) ?s = port" by simp
  show ?thesis
    using assms(3) pos br tk dr by (simp add: inet_pton6_def Let_def pop_back_def del: drop_Suc_Cons take_Suc_Cons)
qed

lemma pton6_no_port:
  assumes "CHR '']'' \<notin> set str" and "length str \<le> npos"
  shows "inet_pton6 sys_pton str out = pton6_addr sys_pton str out"
proof -
  have "rfind str CHR '':'' \<le> npos"
    using assms(2) rfind_found [of "CHR '':''" str] by (cases "CHR '':'' \<in> set str") auto
  then show ?thesis using assms(1) by (simp add: inet_pton6_def)
qed

lemma rfind_eq_split:
  assumes "rfind s c = i" and "i \<noteq> npos"
  shows "\<exists>xs ys. s = xs @ c # ys \<and> length xs = i \<and> c \<notin> set ys"
proof -
  have "c \<in> set s" using assms rfind_not_found by metis
  then obtain xs ys where "s = xs @ c # ys" and "c \<notin> set ys"
    using split_list_last by metis
  with assms show ?thesis using rfind_split by metis
qed

lemma stoi_defined [simp]: "stoi s \<noteq> Undefined u"
  by (simp add: stoi_def split: option.splits)

lemma pton6_addr_defined [simp]: "pton6_addr sys_pton s out \<noteq> Undefined u"
  by (simp add: pton6_addr_def split: prod.splits)

lemma pton6_undefined_conv:
  "(\<exists>u. inet_pton6 sys_pton str out = Undefined u) \<longleftrightarrow>
     rfind str CHR '':'' \<noteq> npos \<and> rfind str CHR '']'' < rfind str CHR '':'' \<and>
     drop 1 (take (rfind str CHR '':'') str) = []"
  by (auto simp: inet_pton6_def Let_def bind_cpp_Undefined_iff pop_back_def)

lemma pton6_undefined_iff:
  assumes "length str < npos"
  shows "(\<exists>u. inet_pton6 sys_pton str out = Undefined u) \<longleftrightarrow>
    (\<exists>port. str = '']:'' @ port \<and> CHR '':'' \<notin> set port \<and> CHR '']'' \<notin> set port)"
    (is "?L \<longleftrightarrow> ?R")
proof
  assume ?L
  then have p: "rfind str CHR '':'' \<noteq> npos" "rfind str CHR '']'' < rfind str CHR '':''"
      "drop 1 (take (rfind str CHR '':'') str) = []"
    unfolding pton6_undefined_conv by blast+
  obtain xs ys where s: "str = xs @ CHR '':'' # ys" and xs: "length xs = rfind str CHR '':''"
    and ys: "CHR '':'' \<notin> set ys"
    using rfind_eq_split [OF refl p(1)] by metis
  from p(3) s xs have "length xs \<le> 1" by simp
  moreover from s assms have "length xs < npos" by simp
  with p(2) xs have br: "CHR '']'' \<in> set str" using rfind_not_found by fastforce
  moreover have "rfind str CHR '']'' = 0" using p(2) xs \<open>length xs \<le> 1\<close> by linarith
  ultimately obtain us vs where u: "str = us @ CHR '']'' # vs" "length us = 0" "CHR '']'' \<notin> set vs"
    using rfind_eq_split [of str "CHR '']''" 0] by (auto simp: npos_def)
  have "xs = [CHR '']'']"
    using s u \<open>length xs \<le> 1\<close> by (cases xs; cases "tl xs") auto
  with s u ys show ?R by auto
next
  assume ?R
  then obtain port where s: "str = '']:'' @ port" and n: "CHR '':'' \<notin> set port" "CHR '']'' \<notin> set port"
    by blast
  have "rfind str CHR '':'' = 1" using rfind_split [OF n(1), of "'']''"] s by simp
  moreover have "rfind str CHR '']'' = 0"
    using rfind_split [of "CHR '']''" "CHR '':'' # port" "[]"] n(2) s by simp
  ultimately show ?L unfolding pton6_undefined_conv using s by (simp add: npos_def)
qed

text \<open>A successful parse stores what the system's parser stored.\<close>

lemma pton4_addr_Success:
  "pton4_addr sys_pton s out = Ret (Success, a) \<Longrightarrow>
     sys_pton AF_INET (c_str s) (v4_bytes out) = (1, v4_bytes a)"
  by (cases "sys_pton AF_INET (c_str s) (v4_bytes out)") (auto simp: pton4_addr_def Let_def split: if_splits)

lemma pton6_addr_Success:
  "pton6_addr sys_pton s out = Ret (Success, a) \<Longrightarrow>
     sys_pton AF_INET6 (c_str s) (replicate 16 0) = (1, v6_bytes a)"
  by (cases "sys_pton AF_INET6 (c_str s) (replicate 16 0)") (auto simp: pton6_addr_def split: if_splits)

lemma pton4_Success:
  "inet_pton4 sys_pton str out = Ret (Success, a) \<Longrightarrow> \<exists>t buf. sys_pton AF_INET t buf = (1, v4_bytes a)"
  by (auto simp: inet_pton4_def Let_def bind_cpp_Ret_iff split: if_splits dest: pton4_addr_Success)

lemma pton6_Success:
  "inet_pton6 sys_pton str out = Ret (Success, a) \<Longrightarrow> \<exists>t buf. sys_pton AF_INET6 t buf = (1, v6_bytes a)"
  by (auto simp: inet_pton6_def Let_def bind_cpp_Ret_iff split: if_splits dest: pton6_addr_Success)

section \<open>Properties\<close>

text \<open>C24. Text round trip, IPv4: for an address whose system text is a dotted decimal that the
  system reads back, parsing the text \<open>inet_ntop\<close> prints (address, colon, port) succeeds and
  restores the endpoint, port included.\<close>

theorem endpoint_text_roundtrip_v4:
  assumes ntop: "sys_ntop AF_INET (v4_bytes a) INET_ADDRSTRLEN = Some s"
    and chars: "\<forall>c \<in> set s. is_digit c \<or> c = CHR ''.''" and dot: "CHR ''.'' \<in> set s"
    and len: "length s < INET_ADDRSTRLEN"
    and pton: "\<And>buf. sys_pton AF_INET s buf = (1, v4_bytes a)"
  shows "bind_cpp (inet_ntop sys_ntop AF_IPv4 (Ep_V4 a)) (\<lambda>t. inet_pton sys_pton AF_IPv4 t out) =
    Ret (Success, Ep_V4 a)"
proof -
  have "c \<noteq> CHR 0x00" if "c \<in> set s" for c using chars that is_digit_neq by fastforce
  then have cs: "c_str s = s" by (intro c_str_no_nul) auto
  have lt: "length s < npos" using len by (simp add: INET_ADDRSTRLEN_def npos_def)
  have "inet_pton4 sys_pton (s @ '':'' @ to_string_u16 (v4_port a)) IPv4Address_default =
      Ret (Success, a)"
    by (subst pton4_split [OF port_digits_notin(1,2) dot lt])
      (simp add: stoi_to_string pton4_addr_def cs pton IPv4Address_default_def)
  then show ?thesis by (simp add: inet_ntop_def inet_ntop4_def ntop cs inet_pton_def)
qed

text \<open>A system that knows the loopback address satisfies the hypotheses.\<close>

definition ntop_loopback :: ntop_fn where
  "ntop_loopback fam bs n =
     (if fam = AF_INET \<and> bs = [127, 0, 0, 1] then Some ''127.0.0.1''
      else if fam = AF_INET6 \<and> bs = v6_bytes (IPv6Address_loopback 0) then Some ''::1'' else None)"

definition pton_loopback :: pton_fn where
  "pton_loopback fam s buf =
     (if fam = AF_INET \<and> s = ''127.0.0.1'' then (1, [127, 0, 0, 1])
      else if fam = AF_INET6 \<and> s = ''::1'' then (1, v6_bytes (IPv6Address_loopback 0)) else (0, buf))"

theorem endpoint_text_roundtrip_v4_witness:
  "bind_cpp (inet_ntop ntop_loopback AF_IPv4 (Ep_V4 (IPv4Address_loopback 63000)))
     (\<lambda>t. inet_pton pton_loopback AF_IPv4 t Ep_Uninit) = Ret (Success, Ep_V4 (IPv4Address_loopback 63000))"
  by (rule endpoint_text_roundtrip_v4 [where s = "''127.0.0.1''"])
    (simp_all add: ntop_loopback_def pton_loopback_def IPv4Address_loopback_def is_digit_def
      INET_ADDRSTRLEN_def)

text \<open>C25. Text round trip, IPv6: parsing the bracketed text \<open>inet_ntop\<close> prints succeeds and
  restores the endpoint, port included, for an address the system prints without NUL and reads
  back.\<close>

theorem endpoint_text_roundtrip_v6:
  assumes ntop: "sys_ntop AF_INET6 (v6_bytes a) INET6_ADDRSTRLEN = Some s"
    and nul: "CHR 0x00 \<notin> set s" and len: "length s < INET6_ADDRSTRLEN"
    and pton: "sys_pton AF_INET6 s (replicate 16 0) = (1, v6_bytes a)"
  shows "bind_cpp (inet_ntop sys_ntop AF_IPv6 (Ep_V6 a)) (\<lambda>t. inet_pton sys_pton AF_IPv6 t out) =
    Ret (Success, Ep_V6 a)"
proof -
  have lt: "length s + 2 < npos" using len by (simp add: INET6_ADDRSTRLEN_def npos_def)
  have "inet_pton6 sys_pton (''['' @ s @ '']'' @ '':'' @ to_string_u16 (v6_port a)) IPv6Address_default =
      Ret (Success, a)"
    by (subst pton6_split [OF port_digits_notin(1,3) lt])
      (simp add: stoi_to_string pton6_addr_def nul pton IPv6Address_default_def)
  then show ?thesis by (simp add: inet_ntop_def inet_ntop6_def ntop nul inet_pton_def)
qed

theorem endpoint_text_roundtrip_v6_witness:
  "bind_cpp (inet_ntop ntop_loopback AF_IPv6 (Ep_V6 (IPv6Address_loopback 80)))
     (\<lambda>t. inet_pton pton_loopback AF_IPv6 t Ep_Uninit) = Ret (Success, Ep_V6 (IPv6Address_loopback 80))"
  by (rule endpoint_text_roundtrip_v6 [where s = "''::1''"])
    (simp_all add: ntop_loopback_def pton_loopback_def IPv6Address_loopback_def
      INET6_ADDRSTRLEN_def)

text \<open>C36. Parsing commits its result only on success: an error of any kind leaves the caller's
  endpoint as it was, and success activates the member of the family that was asked for, with an
  address of that family's length.\<close>

theorem inet_pton_commit:
  assumes "inet_pton sys_pton family str out = Ret (err, out')"
    and "\<And>t buf bs. sys_pton AF_INET t buf = (1, bs) \<Longrightarrow> length bs = 4"
    and "\<And>t buf bs. sys_pton AF_INET6 t buf = (1, bs) \<Longrightarrow> length bs = 16"
  shows "if err = Success then matches_family family out' \<and> wf_endpoint out' else out' = out"
  using assms
  by (auto simp: inet_pton_def bind_cpp_Ret_iff wf_v4_def wf_v6_def split: if_splits
      dest!: pton4_Success pton6_Success)

theorem inet_pton_commit_witness:
  "inet_pton pton_loopback AF_IPv4 ''127.0.0.1:80'' Ep_Uninit = Ret (Success, Ep_V4 (IPv4Address_loopback 80))
   \<and> matches_family AF_IPv4 (Ep_V4 (IPv4Address_loopback 80))"
proof -
  have run: "inet_pton pton_loopback AF_IPv4 ''127.0.0.1:80'' Ep_Uninit =
      Ret (Success, Ep_V4 (IPv4Address_loopback 80))"
    using pton4_split [of "''80''" "''127.0.0.1''" pton_loopback IPv4Address_default]
    by (simp add: inet_pton_def npos_def stoi_def read_signed_def is_space_def is_digit_def
        dec_value_def digit_value_def int32_range_def pton4_addr_def pton_loopback_def c_str_def
        IPv4Address_default_def IPv4Address_loopback_def)
  show ?thesis
    using inet_pton_commit [OF run] run
    by (simp add: pton_loopback_def IPv6Address_loopback_def split: if_splits)
qed

text \<open>C37. What a port suffix means: with a dotted address, no number after the last colon makes
  the parser throw \<open>std::invalid_argument\<close>, a number outside \<open>int\<close> makes it throw
  \<open>std::out_of_range\<close>, and any other number is stored modulo \<open>2 ^ 16\<close>, whatever follows
  it.\<close>

theorem inet_pton4_port:
  assumes "CHR '':'' \<notin> set port" and "CHR ''.'' \<notin> set port" and "CHR ''.'' \<in> set addr"
    and "length addr < npos"
  shows "inet_pton4 sys_pton (addr @ '':'' @ port) out =
    (case read_signed (c_str port) of
       None \<Rightarrow> Throws invalid_argument
     | Some i \<Rightarrow>
         if - (2 ^ 31) \<le> i \<and> i < 2 ^ 31
         then pton4_addr sys_pton addr (out\<lparr>v4_port := word_of_int (i mod 2 ^ 16)\<rparr>)
         else Throws out_of_range)"
proof -
  have "word_of_int (i mod 2 ^ 16) = (word_of_int i :: u16)" for i :: int
    by (simp add: word_of_int_eq_iff take_bit_eq_mod)
  then show ?thesis
    by (subst pton4_split [OF assms])
      (simp add: stoi_def int32_range_def split: option.splits)
qed

theorem inet_pton4_port_witness:
  "inet_pton4 pton_loopback (''127.0.0.1'' @ '':'' @ []) IPv4Address_default = Throws invalid_argument
   \<and> inet_pton4 pton_loopback (''127.0.0.1'' @ '':'' @ ''65537x'') IPv4Address_default =
       Ret (Success, IPv4Address_loopback 1)"
  using inet_pton4_port [of "[]" "''127.0.0.1''" pton_loopback IPv4Address_default]
    inet_pton4_port [of "''65537x''" "''127.0.0.1''" pton_loopback IPv4Address_default]
  by (simp add: npos_def read_signed_def is_space_def is_digit_def dec_value_def digit_value_def
      pton4_addr_def pton_loopback_def c_str_def IPv4Address_default_def IPv4Address_loopback_def)

text \<open>C38. The IPv6 parser runs into undefined behaviour (\<open>pop_back\<close> on an empty string) on
  exactly the texts that start with \<open>]:\<close> and have no further colon or bracket.\<close>

theorem inet_pton6_undefined_iff:
  assumes "length str < npos"
  shows "(\<exists>u. inet_pton6 sys_pton str out = Undefined u) \<longleftrightarrow>
    (\<exists>port. str = '']:'' @ port \<and> CHR '':'' \<notin> set port \<and> CHR '']'' \<notin> set port)"
  using assms by (rule pton6_undefined_iff)

theorem inet_pton6_undefined_iff_witness:
  "\<exists>u. inet_pton6 pton_loopback '']:80'' IPv6Address_default = Undefined u"
  using inet_pton6_undefined_iff [of "'']:80''" pton_loopback IPv6Address_default]
  by (simp add: npos_def)

end
