(* ===== verification/Win_Sockaddr.thy ===== *)
theory Win_Sockaddr
  imports Fl_Endpoint
begin

text \<open>
  The socket address helpers of \<open>win_socket.cpp\<close>, on the bytes of the structures:
  \<open>SOCKADDR_STORAGE\<close> is 128 bytes, of which \<open>sockaddr_in\<close> uses the family (offset 0), the
  port (2) and the address (4), and \<open>sockaddr_in6\<close> the family (0), the port (2), the flow
  information (4), the address (8) and the scope (24).  The host is little endian, so an integer
  member is stored low byte first, and \<open>htons\<close>, \<open>ntohs\<close> swap the bytes of a port.
  \<open>InetNtopA\<close>, \<open>InetPtonA\<close>, \<open>WSAGetLastError\<close> and the SDK's mapping of an IPv4 address into
  IPv6 are parameters.
\<close>

section \<open>Bytes\<close>

type_synonym SOCKADDR_STORAGE = "byte list"

definition sockaddr_size :: nat where "sockaddr_size = 128"

definition zero_storage :: SOCKADDR_STORAGE where
  "zero_storage = replicate sockaddr_size 0"

definition put :: "nat \<Rightarrow> byte list \<Rightarrow> byte list \<Rightarrow> byte list" where
  "put off xs bs = take off bs @ xs @ drop (off + length xs) bs"

definition get_bytes :: "nat \<Rightarrow> nat \<Rightarrow> byte list \<Rightarrow> byte list" where
  "get_bytes off n bs = take n (drop off bs)"

definition le16 :: "byte \<Rightarrow> byte \<Rightarrow> u16" where
  "le16 b0 b1 = ucast b0 OR push_bit 8 (ucast b1)"

definition bytes_of_u16 :: "u16 \<Rightarrow> byte list" where
  "bytes_of_u16 w = [ucast w, ucast (drop_bit 8 w)]"

definition read_u16 :: "nat \<Rightarrow> byte list \<Rightarrow> u16" where
  "read_u16 off bs = le16 (bs ! off) (bs ! (off + 1))"

definition le32 :: "byte \<Rightarrow> byte \<Rightarrow> byte \<Rightarrow> byte \<Rightarrow> u32" where
  "le32 b0 b1 b2 b3 = ucast b0 OR push_bit 8 (ucast b1) OR push_bit 16 (ucast b2) OR push_bit 24 (ucast b3)"

definition read_u32 :: "nat \<Rightarrow> byte list \<Rightarrow> u32" where
  "read_u32 off bs = le32 (bs ! off) (bs ! (off + 1)) (bs ! (off + 2)) (bs ! (off + 3))"

definition htons :: "u16 \<Rightarrow> u16" where
  "htons w = push_bit 8 w OR drop_bit 8 w"

abbreviation (input) ntohs :: "u16 \<Rightarrow> u16" where
  "ntohs \<equiv> htons"

definition ss_family :: "SOCKADDR_STORAGE \<Rightarrow> int" where
  "ss_family addr = uint (read_u16 0 addr)"

section \<open>Conversions\<close>

definition endpoint_to_sockaddr :: "AddressFamily \<Rightarrow> Endpoint \<Rightarrow> (ErrorCode \<times> SOCKADDR_STORAGE) cpp" where
  "endpoint_to_sockaddr family endpoint =
     (let addr = zero_storage in
      if family = AF_IPv4 then
        bind_cpp (ipv4 endpoint) (\<lambda>a.
          let addr = put 0 (bytes_of_u16 (word_of_int (af_to_int family))) addr;
              addr = put 2 (bytes_of_u16 (htons (v4_port a))) addr;
              addr = put 4 (v4_bytes a) addr
          in Ret (Success, addr))
      else if family = AF_IPv6 then
        bind_cpp (ipv6 endpoint) (\<lambda>a.
          let addr = put 0 (bytes_of_u16 (word_of_int (af_to_int family))) addr;
              addr = put 8 (v6_bytes a) addr;
              addr = put 2 (bytes_of_u16 (htons (v6_port a))) addr
          in Ret (Success, addr))
      else Ret (AddressFamilyNotSupported, addr))"

definition shift_byte :: "nat \<Rightarrow> u32 \<Rightarrow> byte" where
  "shift_byte n x = ucast (signed_drop_bit n x AND 0xFF)"   \<comment> \<open>\<open>(*p >> n) & 0XFF\<close> on a signed integer\<close>

definition sockaddr_to_endpoint :: "SOCKADDR_STORAGE \<Rightarrow> Endpoint \<Rightarrow> ErrorCode \<times> Endpoint" where
  "sockaddr_to_endpoint addr endpoint =
     (if ss_family addr = AF_INET then
        (let p = ntohs (read_u16 2 addr);
             x = read_u32 4 addr
         in (Success, Ep_V4 \<lparr>v4_bytes = [shift_byte 0 x, shift_byte 8 x, shift_byte 16 x, shift_byte 24 x],
                             v4_port = p\<rparr>))
      else if ss_family addr = AF_INET6 then
        (let p = ntohs (read_u16 2 addr)
         in (Success, Ep_V6 \<lparr>v6_bytes = get_bytes 8 16 addr, v6_port = p\<rparr>))
      else (AddressFamilyNotSupported, endpoint))"

section \<open>Text helpers\<close>

text \<open>A null pointer argument is \<open>None\<close>.\<close>

definition addr_to_str :: "ntop_fn \<Rightarrow> SOCKADDR_STORAGE option \<Rightarrow> string" where
  "addr_to_str InetNtopA addr =
     (case addr of
        None \<Rightarrow> []
      | Some a \<Rightarrow>
          (let res = (if ss_family a = AF_INET then InetNtopA AF_INET (get_bytes 4 4 a) INET6_ADDRSTRLEN
                      else if ss_family a = AF_INET6 then InetNtopA AF_INET6 (get_bytes 8 16 a) INET6_ADDRSTRLEN
                      else None)
           in case res of None \<Rightarrow> [] | Some s \<Rightarrow> c_str s))"

text \<open>\<open>sprintf_s\<close> with the format \<open>%u\<close>: negative when the buffer is too small.\<close>

definition sprintf_u :: "nat \<Rightarrow> u16 \<Rightarrow> string option" where
  "sprintf_u n v = (let s = decimal (unat v) in if length s < n then Some s else None)"

definition port_to_str :: "u16 \<Rightarrow> string" where
  "port_to_str port = (case sprintf_u 10 (ntohs port) of None \<Rightarrow> [] | Some s \<Rightarrow> s)"

definition addr_and_port_to_str ::
    "ntop_fn \<Rightarrow> int \<Rightarrow> SOCKADDR_STORAGE option \<Rightarrow> string \<Rightarrow> string \<Rightarrow> ErrorCode \<times> string \<times> string" where
  "addr_and_port_to_str InetNtopA wsa_error addr addr_str port_str =
     (case addr of
        None \<Rightarrow> (InvalidArgument, addr_str, port_str)
      | Some a \<Rightarrow>
          (if ss_family a = AF_INET \<or> ss_family a = AF_INET6 then
             (case (if ss_family a = AF_INET then InetNtopA AF_INET (get_bytes 4 4 a) INET6_ADDRSTRLEN
                    else InetNtopA AF_INET6 (get_bytes 8 16 a) INET6_ADDRSTRLEN) of
                None \<Rightarrow> (ec_of_int wsa_error, addr_str, port_str)
              | Some s \<Rightarrow>
                  (case sprintf_u 10 (ntohs (read_u16 2 a)) of
                     None \<Rightarrow> (SystemError, addr_str, port_str)
                   | Some p \<Rightarrow> (Success, c_str s, p)))
           else (AddressFamilyNotSupported, addr_str, port_str)))"

text \<open>
  The texts are \<open>string_view\<close>s whose \<open>data()\<close> is read up to a zero byte; they are taken to end with one.
\<close>

definition USHRT_MAX :: int where "USHRT_MAX = 65535"

definition str_to_addr4 ::
    "pton_fn \<Rightarrow> int \<Rightarrow> string \<Rightarrow> string \<Rightarrow> byte list option \<Rightarrow> ErrorCode \<times> byte list option" where
  "str_to_addr4 InetPtonA wsa_error addr_str port_str addr =
     (case addr of
        None \<Rightarrow> (InvalidArgument, None)
      | Some a \<Rightarrow>
          (let (res, bs) = InetPtonA AF_INET (c_str addr_str) (get_bytes 4 4 a);
               a = put 4 bs a
           in if res = 1 then
                (let port64 = strtol10 port_str in
                 if port64 > USHRT_MAX \<or> port64 < 0 then (InvalidArgument, Some a)
                 else if port64 = 0 \<and> c_str port_str \<noteq> ''0'' then (SystemError, Some a)
                 else
                   (let a = put 2 (bytes_of_u16 (htons (word_of_int port64))) a;
                        a = put 0 (bytes_of_u16 (word_of_int AF_INET)) a
                    in (Success, Some a)))
              else if res = 0 then (InvalidArgument, Some a)
              else (ec_of_int wsa_error, Some a)))"

text \<open>
  \<open>setv4mapped dst v4 scope port\<close> is the SDK's \<open>IN6ADDR_SETV4MAPPED\<close> on the 28 bytes of
  \<open>dst\<close>, \<open>scope_id\<close> its \<open>INETADDR_SCOPE_ID\<close>.
\<close>

definition str_to_addr6 ::
    "pton_fn \<Rightarrow> int \<Rightarrow> (byte list \<Rightarrow> byte list \<Rightarrow> u32 \<Rightarrow> u16 \<Rightarrow> byte list) \<Rightarrow> (byte list \<Rightarrow> u32) \<Rightarrow>
     AddressFamily \<Rightarrow> string \<Rightarrow> string \<Rightarrow> byte list option \<Rightarrow> ErrorCode \<times> byte list option" where
  "str_to_addr6 InetPtonA wsa_error setv4mapped scope_id src_addr_family src_addr_str src_port_str dst_addr =
     (case dst_addr of
        None \<Rightarrow> (InvalidArgument, None)
      | Some d \<Rightarrow>
          if src_addr_family = AF_IPv4 then
            (case str_to_addr4 InetPtonA wsa_error src_addr_str src_port_str (Some (replicate 16 0)) of
               (err, Some tmp) \<Rightarrow>
                 if err \<noteq> Success then (err, Some d)
                 else (Success, Some (setv4mapped d (get_bytes 4 4 tmp) (scope_id tmp) (read_u16 2 tmp)))
             | (err, None) \<Rightarrow> (err, Some d))
          else
            (let (res, bs) = InetPtonA AF_INET6 (c_str src_addr_str) (get_bytes 8 16 d);
                 d = put 8 bs d
             in if res = 1 then
                  (let port64 = strtol10 src_port_str in
                   if port64 > USHRT_MAX \<or> port64 < 0 then (InvalidArgument, Some d)
                   else if port64 = 0 \<and> c_str src_port_str \<noteq> ''0'' then (SystemError, Some d)
                   else
                     (let d = put 2 (bytes_of_u16 (htons (word_of_int port64))) d;
                          d = put 0 (bytes_of_u16 (word_of_int AF_INET6)) d
                      in (Success, Some d)))
                else if res = 0 then (InvalidArgument, Some d)
                else (SystemError, Some d)))"

section \<open>Lemmas\<close>

subsection \<open>Words and bytes\<close>

lemma le16_bytes: "le16 (ucast w) (ucast (drop_bit 8 w)) = w"
  by (rule bit_word_eqI) (auto simp: le16_def bit_simps)

lemma htons_htons [simp]: "htons (htons w) = w"
  by (rule bit_word_eqI) (auto simp: htons_def bit_simps)

lemma htons_bytes: "bytes_of_u16 (htons w) = rev (bytes_of_u16 w)"
  by (auto simp: bytes_of_u16_def htons_def bit_simps intro!: bit_word_eqI)

lemma shift_byte_bit: "bit (shift_byte n x) k \<longleftrightarrow> k < 8 \<and> bit (signed_drop_bit n x) k"
proof -
  have "(0xFF :: u32) = mask 8" by (simp add: mask_eq_exp_minus_1)
  then have "shift_byte n x = ucast (signed_drop_bit n x AND mask 8)"
    by (simp only: shift_byte_def)
  then show ?thesis by (auto simp: bit_simps)
qed

lemma shift_byte_le32:
  "shift_byte 0 (le32 b0 b1 b2 b3) = b0" "shift_byte 8 (le32 b0 b1 b2 b3) = b1"
  "shift_byte 16 (le32 b0 b1 b2 b3) = b2" "shift_byte 24 (le32 b0 b1 b2 b3) = b3"
  by (rule bit_word_eqI; auto simp: shift_byte_bit le32_def bit_simps dest: bit_imp_le_length)+

subsection \<open>Reading back what was stored\<close>

lemma length_bytes_of_u16 [simp]: "length (bytes_of_u16 w) = 2"
  by (simp add: bytes_of_u16_def)

lemma length_zero_storage [simp]: "length zero_storage = 128"
  by (simp add: zero_storage_def sockaddr_size_def)

lemma length_put [simp]: "off + length xs \<le> length bs \<Longrightarrow> length (put off xs bs) = length bs"
  by (simp add: put_def)

lemma nth_put:
  "off + length xs \<le> length bs \<Longrightarrow> i < length bs \<Longrightarrow>
     put off xs bs ! i = (if off \<le> i \<and> i < off + length xs then xs ! (i - off) else bs ! i)"
  by (auto simp: put_def nth_append min_def)

lemma get_bytes_put_same [simp]:
  "off + length xs \<le> length bs \<Longrightarrow> n = length xs \<Longrightarrow> get_bytes off n (put off xs bs) = xs"
  by (simp add: get_bytes_def put_def)

lemma get_bytes_put_other:
  "off + length xs \<le> length bs \<Longrightarrow> off' + n \<le> length bs \<Longrightarrow> off' + n \<le> off \<or> off + length xs \<le> off' \<Longrightarrow>
     get_bytes off' n (put off xs bs) = get_bytes off' n bs"
  by (rule nth_equalityI) (auto simp: get_bytes_def nth_put)

lemma read_u16_put_same [simp]:
  "off + 2 \<le> length bs \<Longrightarrow> read_u16 off (put off (bytes_of_u16 w) bs) = w"
  by (simp add: read_u16_def nth_put) (simp add: bytes_of_u16_def le16_bytes)

lemma read_u16_put_other:
  "off + length xs \<le> length bs \<Longrightarrow> off' + 2 \<le> length bs \<Longrightarrow> off' + 2 \<le> off \<or> off + length xs \<le> off' \<Longrightarrow>
     read_u16 off' (put off xs bs) = read_u16 off' bs"
  by (auto simp: read_u16_def nth_put)

lemma read_u32_put_same:
  "off + 4 \<le> length bs \<Longrightarrow> length xs = 4 \<Longrightarrow>
     read_u32 off (put off xs bs) = le32 (xs ! 0) (xs ! 1) (xs ! 2) (xs ! 3)"
  by (simp add: read_u32_def nth_put)

lemma list4_nth: "length xs = 4 \<Longrightarrow> [xs ! 0, xs ! 1, xs ! 2, xs ! 3] = xs"
  by (auto simp: numeral_eq_Suc length_Suc_conv)

lemma family_codes [simp]: "uint (word_of_int AF_INET :: u16) = AF_INET"
  "uint (word_of_int AF_INET6 :: u16) = AF_INET6"
  by (simp_all add: AF_INET_def AF_INET6_def)

subsection \<open>The two encodings\<close>

lemma endpoint_to_sockaddr_v4:
  assumes "wf_v4 a"
  obtains sa where "endpoint_to_sockaddr AF_IPv4 (Ep_V4 a) = Ret (Success, sa)" and "length sa = 128"
    and "ss_family sa = AF_INET" and "get_bytes 2 2 sa = rev (bytes_of_u16 (v4_port a))"
    and "get_bytes 4 4 sa = v4_bytes a" and "sockaddr_to_endpoint sa out = (Success, Ep_V4 a)"
proof -
  let ?b = "v4_bytes a"
  let ?x = "put 2 (bytes_of_u16 (htons (v4_port a))) (put 0 (bytes_of_u16 (word_of_int AF_INET)) zero_storage)"
  let ?sa = "put 4 ?b ?x"
  from assms have l: "length ?b = 4" by (simp add: wf_v4_def)
  have f: "ss_family ?sa = AF_INET" using l by (simp add: ss_family_def read_u16_put_other)
  have p: "read_u16 2 ?sa = htons (v4_port a)" using l by (simp add: read_u16_put_other)
  have x: "read_u32 4 ?sa = le32 (?b ! 0) (?b ! 1) (?b ! 2) (?b ! 3)"
    using l by (simp add: read_u32_put_same)
  have "sockaddr_to_endpoint ?sa out = (Success, Ep_V4 a)"
    using list4_nth [OF l] by (simp add: sockaddr_to_endpoint_def f p x shift_byte_le32)
  moreover have "get_bytes 2 2 ?sa = rev (bytes_of_u16 (v4_port a))"
    using l by (simp add: get_bytes_put_other htons_bytes)
  ultimately show ?thesis
    using l f p by (intro that [of ?sa]) (simp_all add: endpoint_to_sockaddr_def Let_def)
qed

lemma endpoint_to_sockaddr_v6:
  assumes "wf_v6 a"
  obtains sa where "endpoint_to_sockaddr AF_IPv6 (Ep_V6 a) = Ret (Success, sa)" and "length sa = 128"
    and "ss_family sa = AF_INET6" and "get_bytes 2 2 sa = rev (bytes_of_u16 (v6_port a))"
    and "get_bytes 8 16 sa = v6_bytes a" and "sockaddr_to_endpoint sa out = (Success, Ep_V6 a)"
proof -
  let ?x = "put 8 (v6_bytes a) (put 0 (bytes_of_u16 (word_of_int AF_INET6)) zero_storage)"
  let ?sa = "put 2 (bytes_of_u16 (htons (v6_port a))) ?x"
  from assms have l: "length (v6_bytes a) = 16" by (simp add: wf_v6_def)
  have f: "ss_family ?sa = AF_INET6" using l by (simp add: ss_family_def read_u16_put_other)
  have b: "get_bytes 8 16 ?sa = v6_bytes a" using l by (simp add: get_bytes_put_other)
  have "sockaddr_to_endpoint ?sa out = (Success, Ep_V6 a)"
    using l by (simp add: sockaddr_to_endpoint_def f b)
  moreover have "get_bytes 2 2 ?sa = rev (bytes_of_u16 (v6_port a))"
    using l by (simp add: htons_bytes)
  ultimately show ?thesis
    using l f b by (intro that [of ?sa]) (simp_all add: endpoint_to_sockaddr_def Let_def)
qed

text \<open>
  The interface the socket operations rely on: an encoder for the endpoints of one family and a
  decoder that inverts it, whatever the endpoint variable held before.
\<close>

locale address_codec =
  fixes encode :: "'ep \<Rightarrow> (ErrorCode \<times> 'raw) cpp"
    and decode :: "'raw \<Rightarrow> 'ep \<Rightarrow> ErrorCode \<times> 'ep"
    and valid :: "'ep \<Rightarrow> bool"
  assumes encode_valid: "valid e \<Longrightarrow> \<exists>r. encode e = Ret (Success, r)"
    and decode_encode: "valid e \<Longrightarrow> encode e = Ret (c, r) \<Longrightarrow> decode r out = (Success, e)"
begin

lemma encode_inject:
  assumes "valid e" and "valid e'" and "encode e = encode e'"
  shows "e = e'"
proof -
  from encode_valid [OF assms(1)] obtain r where r: "encode e = Ret (Success, r)" by blast
  from decode_encode [OF assms(1) r] decode_encode [OF assms(2)] r assms(3) show ?thesis by fastforce
qed

lemma transport:
  assumes "valid e"
  shows "bind_cpp (encode e) (\<lambda>(c, r). Ret (decode r out)) = Ret (Success, e)"
  using encode_valid [OF assms] decode_encode [OF assms] by fastforce

end

interpretation v4_codec: address_codec "endpoint_to_sockaddr AF_IPv4" sockaddr_to_endpoint
  "\<lambda>e. matches_family AF_IPv4 e \<and> wf_endpoint e"
proof (unfold_locales, goal_cases)
  case (1 e)
  then obtain a where "e = Ep_V4 a" "wf_v4 a" by (cases e) auto
  then show ?case using endpoint_to_sockaddr_v4 by metis
next
  case (2 e c r out)
  then obtain a where "e = Ep_V4 a" "wf_v4 a" by (cases e) auto
  with 2(2) show ?case using endpoint_to_sockaddr_v4 [of a out] by fastforce
qed

interpretation v6_codec: address_codec "endpoint_to_sockaddr AF_IPv6" sockaddr_to_endpoint
  "\<lambda>e. matches_family AF_IPv6 e \<and> wf_endpoint e"
proof (unfold_locales, goal_cases)
  case (1 e)
  then obtain a where "e = Ep_V6 a" "wf_v6 a" by (cases e) auto
  then show ?case using endpoint_to_sockaddr_v6 by metis
next
  case (2 e c r out)
  then obtain a where "e = Ep_V6 a" "wf_v6 a" by (cases e) auto
  with 2(2) show ?case using endpoint_to_sockaddr_v6 [of a out] by fastforce
qed

lemma endpoint_to_sockaddr_mismatch:
  "family = AF_IPv4 \<or> family = AF_IPv6 \<Longrightarrow> \<not> matches_family family ep \<Longrightarrow>
     endpoint_to_sockaddr family ep = Undefined Inactive_Union_Member"
  by (cases family; cases ep) (simp_all add: endpoint_to_sockaddr_def ipv4_def ipv6_def)

lemma endpoint_to_sockaddr_unsupported:
  "family \<noteq> AF_IPv4 \<Longrightarrow> family \<noteq> AF_IPv6 \<Longrightarrow>
     endpoint_to_sockaddr family ep = Ret (AddressFamilyNotSupported, zero_storage)"
  by (simp add: endpoint_to_sockaddr_def)

lemma encode_length: "wf_endpoint ep \<Longrightarrow> endpoint_to_sockaddr family ep = Ret (Success, sa) \<Longrightarrow> length sa = 128"
  by (cases ep) (auto simp: endpoint_to_sockaddr_def ipv4_def ipv6_def Let_def wf_v4_def wf_v6_def split: if_splits)

text \<open>What a socket operation needs of an endpoint of its family.\<close>

lemma encode_matching:
  assumes "matches_family family ep" and "wf_endpoint ep"
  obtains sa where "endpoint_to_sockaddr family ep = Ret (Success, sa)" and "length sa = 128"
    and "\<And>out. sockaddr_to_endpoint sa out = (Success, ep)"
proof -
  consider "family = AF_IPv4" | "family = AF_IPv6" using assms(1) by (cases family) auto
  then obtain sa where "endpoint_to_sockaddr family ep = Ret (Success, sa)"
    and "\<And>out. sockaddr_to_endpoint sa out = (Success, ep)"
  proof cases
    case 1
    with assms v4_codec.encode_valid [of ep] v4_codec.decode_encode [of ep] that show ?thesis by blast
  next
    case 2
    with assms v6_codec.encode_valid [of ep] v6_codec.decode_encode [of ep] that show ?thesis by blast
  qed
  with that encode_length [OF assms(2)] show ?thesis by blast
qed

section \<open>A plain reading of the structure\<close>

text \<open>
  What the structure means, in numbers and without shifts: the family is stored low byte first,
  the port high byte first, and the address is copied.
\<close>

definition u16_at :: "byte \<Rightarrow> byte \<Rightarrow> nat" where
  "u16_at high low = 256 * unat high + unat low"

definition sockaddr_reading :: "SOCKADDR_STORAGE \<Rightarrow> Endpoint option" where
  "sockaddr_reading sa =
     (let family = u16_at (sa ! 1) (sa ! 0); port = of_nat (u16_at (sa ! 2) (sa ! 3)) in
      if family = 2 then Some (Ep_V4 \<lparr>v4_bytes = take 4 (drop 4 sa), v4_port = port\<rparr>)
      else if family = 23 then Some (Ep_V6 \<lparr>v6_bytes = take 16 (drop 8 sa), v6_port = port\<rparr>)
      else None)"

lemma uint_le16: "uint (le16 b0 b1) = int (u16_at b1 b0)"
proof -
  have "le16 b0 b1 = ucast b0 + push_bit 8 (ucast b1)"
    unfolding le16_def by (rule disjunctive_add [symmetric]) (auto simp: bit_simps dest: bit_imp_le_length)
  also have "\<dots> = of_nat (unat b0 + 256 * unat b1)"
    by (simp add: push_bit_eq_mult unsigned_ucast_eq) 
  finally have "le16 b0 b1 = of_nat (u16_at b1 b0)" by (simp add: u16_at_def add.commute)
  moreover have "u16_at b1 b0 < 2 ^ 16"
  proof -
    have "unat b0 < 2 ^ LENGTH(8)" "unat b1 < 2 ^ LENGTH(8)" by (rule unsigned_less)+
    then show ?thesis by (simp add: u16_at_def)
  qed
  ultimately show ?thesis by (simp add: take_bit_nat_eq_self unsigned_of_nat)
qed

lemma htons_le16: "htons (le16 b0 b1) = le16 b1 b0"
  by (rule bit_word_eqI) (auto simp: htons_def le16_def bit_simps dest: bit_imp_le_length)

lemma take4:
  assumes "8 \<le> length sa"
  shows "take 4 (drop 4 sa) = [sa ! 4, sa ! 5, sa ! 6, sa ! 7]"
proof -
  have "length (take 4 (drop 4 sa)) = 4" using assms by simp
  from list4_nth [OF this, symmetric] assms show ?thesis by simp
qed

section \<open>Properties\<close>

text \<open>C22. Address round trip: for both supported families, storing a well-formed endpoint of the
  family in a \<open>SOCKADDR_STORAGE\<close> and reading it back yields the endpoint, port and address bytes
  in order, whatever the target endpoint held.\<close>

theorem sockaddr_roundtrip:
  assumes "matches_family family ep" and "wf_endpoint ep"
  shows "bind_cpp (endpoint_to_sockaddr family ep) (\<lambda>(err, sa). Ret (sockaddr_to_endpoint sa out)) =
    Ret (Success, ep)"
  using assms v4_codec.transport [of ep out] v6_codec.transport [of ep out] by (cases family) auto

theorem sockaddr_roundtrip_witness:
  "bind_cpp (endpoint_to_sockaddr AF_IPv4 (Ep_V4 (IPv4Address_loopback 63000)))
     (\<lambda>(err, sa). Ret (sockaddr_to_endpoint sa Ep_Uninit)) =
   Ret (Success, Ep_V4 (IPv4Address_loopback 63000))"
  by (rule sockaddr_roundtrip) simp_all

text \<open>C23. \<open>sockaddr_to_endpoint\<close> reads a structure of the right size as the plain reading does, whatever its
  bytes: the arithmetic shifts of a signed integer and the swapped port yield the same endpoint,
  and every other family is rejected with the target left alone.\<close>

theorem sockaddr_reading_equiv:
  assumes "length sa = sockaddr_size"
  shows "sockaddr_to_endpoint sa ep =
    (case sockaddr_reading sa of Some e \<Rightarrow> (Success, e) | None \<Rightarrow> (AddressFamilyNotSupported, ep))"
proof -
  have "ss_family sa = int (u16_at (sa ! 1) (sa ! 0))" by (simp add: ss_family_def read_u16_def uint_le16)
  moreover have "htons (read_u16 2 sa) = of_nat (u16_at (sa ! 2) (sa ! 3))"
  proof -
    have "htons (read_u16 2 sa) = le16 (sa ! 3) (sa ! 2)" by (simp add: read_u16_def htons_le16)
    also have "\<dots> = word_of_int (uint (le16 (sa ! 3) (sa ! 2)))" by simp
    finally show ?thesis by (simp only: uint_le16 of_int_of_nat_eq)
  qed
  moreover have "[shift_byte 0 (read_u32 4 sa), shift_byte 8 (read_u32 4 sa), shift_byte 16 (read_u32 4 sa),
      shift_byte 24 (read_u32 4 sa)] = take 4 (drop 4 sa)"
    using assms by (simp add: read_u32_def shift_byte_le32 sockaddr_size_def take4)
  ultimately show ?thesis
    by (simp add: sockaddr_to_endpoint_def sockaddr_reading_def Let_def AF_INET_def AF_INET6_def get_bytes_def)
qed

theorem sockaddr_reading_equiv_witness:
  "sockaddr_to_endpoint (put 0 [2, 0, 246, 24, 192, 168, 0, 255] zero_storage) Ep_Uninit =
     (Success, Ep_V4 \<lparr>v4_bytes = [192, 168, 0, 255], v4_port = 63000\<rparr>)"
proof -
  let ?sa = "put 0 [2, 0, 246, 24, 192, 168, 0, 255] zero_storage"
  have "length ?sa = sockaddr_size" and "sockaddr_reading ?sa = Some (Ep_V4 \<lparr>v4_bytes = [192, 168, 0, 255], v4_port = 63000\<rparr>)"
    by (simp_all add: put_def sockaddr_reading_def u16_at_def sockaddr_size_def Let_def)
  with sockaddr_reading_equiv [of ?sa Ep_Uninit] show ?thesis by simp
qed

text \<open>C33. The outcome of \<open>endpoint_to_sockaddr\<close> on every input: the structure of the family with
  the port in network byte order when the endpoint holds that family, undefined behaviour when it
  holds another member of the union, \<open>AddressFamilyNotSupported\<close> for any other family.\<close>

theorem endpoint_to_sockaddr_outcome:
  assumes "wf_endpoint ep"
  shows "case endpoint_to_sockaddr family ep of
      Ret (err, sa) \<Rightarrow>
        (if err = Success then
           matches_family family ep \<and> length sa = 128 \<and> ss_family sa = af_to_int family \<and>
           (case ep of
              Ep_V4 a \<Rightarrow> get_bytes 2 2 sa = rev (bytes_of_u16 (v4_port a)) \<and> get_bytes 4 4 sa = v4_bytes a
            | Ep_V6 a \<Rightarrow> get_bytes 2 2 sa = rev (bytes_of_u16 (v6_port a)) \<and> get_bytes 8 16 sa = v6_bytes a
            | Ep_Uninit \<Rightarrow> False)
         else err = AddressFamilyNotSupported \<and> family \<noteq> AF_IPv4 \<and> family \<noteq> AF_IPv6)
    | Throws e \<Rightarrow> False
    | Undefined u \<Rightarrow> u = Inactive_Union_Member \<and> (family = AF_IPv4 \<or> family = AF_IPv6)
        \<and> \<not> matches_family family ep"
proof (cases "matches_family family ep")
  case True
  then consider a where "family = AF_IPv4" "ep = Ep_V4 a" | a where "family = AF_IPv6" "ep = Ep_V6 a"
    by (cases family; cases ep) auto
  then show ?thesis
  proof cases
    case (1 a)
    then show ?thesis using assms endpoint_to_sockaddr_v4 [of a] by fastforce
  next
    case (2 a)
    then show ?thesis using assms endpoint_to_sockaddr_v6 [of a] by fastforce
  qed
next
  case False
  then show ?thesis
    by (cases "family = AF_IPv4 \<or> family = AF_IPv6")
      (simp_all add: endpoint_to_sockaddr_mismatch endpoint_to_sockaddr_unsupported)
qed

theorem endpoint_to_sockaddr_outcome_witness:
  "\<exists>sa. endpoint_to_sockaddr AF_IPv6 (Ep_V6 (IPv6Address_loopback 80)) = Ret (Success, sa) \<and>
     get_bytes 8 16 sa = v6_bytes (IPv6Address_loopback 80)"
  using endpoint_to_sockaddr_outcome [of "Ep_V6 (IPv6Address_loopback 80)" AF_IPv6]
  by (auto split: cpp.splits if_splits)

text \<open>The address a successful \<open>str_to_addr4\<close> leaves, given what \<open>InetPtonA\<close> stored.\<close>

lemma str_to_addr4_stored:
  assumes len: "length a = 16" "length bs = 4"
    and run: "InetPtonA AF_INET (c_str addr) (get_bytes 4 4 a) = (1, bs)"
    and port: "0 \<le> strtol10 port" "strtol10 port \<le> USHRT_MAX"
      "strtol10 port = 0 \<Longrightarrow> c_str port = ''0''"
  obtains a' where "str_to_addr4 InetPtonA e addr port (Some a) = (Success, Some a')"
    and "ss_family a' = AF_INET" and "uint (ntohs (read_u16 2 a')) = strtol10 port"
    and "get_bytes 4 4 a' = bs"
proof -
  let ?a = "put 2 (bytes_of_u16 (htons (word_of_int (strtol10 port)))) (put 4 bs a)"
  let ?a' = "put 0 (bytes_of_u16 (word_of_int AF_INET)) ?a"
  have "str_to_addr4 InetPtonA e addr port (Some a) = (Success, Some ?a')"
    using run port by (auto simp: str_to_addr4_def Let_def not_less)
  moreover have "ss_family ?a' = AF_INET" using len by (simp add: ss_family_def)
  moreover have "uint (ntohs (read_u16 2 ?a')) = strtol10 port"
    using len port(1,2) by (subst read_u16_put_other) (simp_all add: USHRT_MAX_def uint_u16_of_int)
  moreover have "get_bytes 4 4 ?a' = bs" using len by (simp add: get_bytes_put_other)
  ultimately show ?thesis by (rule that)
qed

lemma decimal_length: "n < 10 ^ k \<Longrightarrow> 0 < k \<Longrightarrow> length (decimal n) \<le> k"
proof (induction n arbitrary: k rule: decimal.induct)
  case (1 n)
  show ?case
  proof (cases "n < 10")
    case True
    with "1.prems" show ?thesis by (simp add: decimal.simps [of n])
  next
    case False
    with "1.prems" have "k \<noteq> 1" by auto
    with "1.prems" obtain k' where k: "k = Suc k'" "0 < k'" by (cases k) auto
    with "1.prems" have "n div 10 < 10 ^ k'" by (simp add: less_mult_imp_div_less)
    with 1(1) False k have "length (decimal (n div 10)) \<le> k'" by blast
    with False k show ?thesis by (simp add: decimal.simps [of n])
  qed
qed

lemma sprintf_u_Some: "sprintf_u 10 p = Some (to_string_u16 p)"
proof -
  have "unat p < 10 ^ 9" using unat_u16_less [of p] by simp
  then have "length (decimal (unat p)) \<le> 9" by (rule decimal_length) simp
  then show ?thesis by (simp add: sprintf_u_def to_string_u16_def Let_def)
qed

lemma strtol_to_string: "strtol10 (to_string_u16 p) = uint p"
proof -
  have "unat p < 2 ^ 31" using unat_u16_less [of p] by simp
  then show ?thesis
    using strtol_digits [of "decimal (unat p)"] decimal_digits by (simp add: to_string_u16_def)
qed

lemma to_string_u16_0: "uint p = 0 \<Longrightarrow> to_string_u16 p = ''0''"
  by (simp add: uint_0_iff) (simp add: to_string_u16_def decimal.simps [of 0] digit_char_def char_of_def bit_0)

lemma c_str_to_string [simp]: "c_str (to_string_u16 p) = to_string_u16 p"
  using to_string_u16_digits is_digit_neq by (intro c_str_no_nul) blast

text \<open>C34. \<open>str_to_addr4\<close> checks the port it stores: it succeeds exactly when the address text is
  accepted and the port text reads as a number from 0 to 65535, with 0 only from the text
  \<open>0\<close>; then family, port (network byte order) and address are those given, not truncated.
  Every other input yields an error code.\<close>

theorem str_to_addr4_exact:
  assumes "length a = 16" and "wsa_error \<noteq> 0"
    and "InetPtonA AF_INET (c_str addr) (get_bytes 4 4 a) = (res, bs)" and "length bs = 4"
  shows "(fst (str_to_addr4 InetPtonA wsa_error addr port (Some a)) = Success \<longleftrightarrow>
      res = 1 \<and> 0 \<le> strtol10 port \<and> strtol10 port \<le> 65535 \<and> (strtol10 port = 0 \<longrightarrow> c_str port = ''0''))
    \<and> (\<forall>a'. str_to_addr4 InetPtonA wsa_error addr port (Some a) = (Success, Some a') \<longrightarrow>
         ss_family a' = AF_INET \<and> uint (ntohs (read_u16 2 a')) = strtol10 port \<and> get_bytes 4 4 a' = bs)"
    (is "(?S \<longleftrightarrow> ?ok) \<and> ?R")
proof -
  have iff: "?S \<longleftrightarrow> ?ok"
    using assms by (auto simp: str_to_addr4_def Let_def USHRT_MAX_def)
  moreover have ?R
  proof (intro allI impI)
    fix a' assume a': "str_to_addr4 InetPtonA wsa_error addr port (Some a) = (Success, Some a')"
    then have ok: ?ok using iff by simp
    show "ss_family a' = AF_INET \<and> uint (ntohs (read_u16 2 a')) = strtol10 port \<and> get_bytes 4 4 a' = bs"
      using str_to_addr4_stored [of a bs InetPtonA addr port wsa_error] assms ok a'
      by (simp add: USHRT_MAX_def) metis
  qed
  ultimately show ?thesis by blast
qed

theorem str_to_addr4_exact_witness:
  "fst (str_to_addr4 pton_loopback 10022 ''127.0.0.1'' ''63000'' (Some (replicate 16 0))) = Success
   \<and> fst (str_to_addr4 pton_loopback 10022 ''127.0.0.1'' ''65536'' (Some (replicate 16 0))) \<noteq> Success"
proof -
  have p: "strtol10 ''63000'' = 63000" "strtol10 ''65536'' = 65536"
    using strtol_digits [of "''63000''"] strtol_digits [of "''65536''"]
    by (simp_all add: is_digit_def dec_value_def digit_value_def)
  have r: "pton_loopback AF_INET (c_str ''127.0.0.1'') (get_bytes 4 4 (replicate 16 0)) = (1, [127, 0, 0, 1])"
    by (simp add: pton_loopback_def c_str_def)
  note ex = str_to_addr4_exact [of "replicate 16 0" 10022 pton_loopback "''127.0.0.1''",
      OF _ _ r, THEN conjunct1]
  show ?thesis using ex [of "''63000''"] ex [of "''65536''"] p by simp
qed

text \<open>C35. Host and port texts round trip: the two texts \<open>addr_and_port_to_str\<close> prints for an IPv4
  address parse back with \<open>str_to_addr4\<close> into the same family, port and address.\<close>

theorem addr_port_text_roundtrip:
  assumes fam: "ss_family a = AF_INET"
    and ntop: "InetNtopA AF_INET (get_bytes 4 4 a) INET6_ADDRSTRLEN = Some s"
    and nul: "CHR 0x00 \<notin> set s" and blen: "length (get_bytes 4 4 a) = 4"
    and pton: "\<And>buf. InetPtonA AF_INET s buf = (1, get_bytes 4 4 a)"
  shows "\<exists>host port a'. addr_and_port_to_str InetNtopA wsa_error (Some a) h0 p0 = (Success, host, port) \<and>
    str_to_addr4 InetPtonA wsa_error host port (Some (replicate 16 0)) = (Success, Some a') \<and>
    ss_family a' = AF_INET \<and> read_u16 2 a' = read_u16 2 a \<and> get_bytes 4 4 a' = get_bytes 4 4 a"
proof -
  let ?p = "ntohs (read_u16 2 a)" and ?bs = "get_bytes 4 4 a"
  have fwd: "addr_and_port_to_str InetNtopA wsa_error (Some a) h0 p0 = (Success, s, to_string_u16 ?p)"
    by (simp add: addr_and_port_to_str_def fam ntop nul sprintf_u_Some)
  obtain a' where "str_to_addr4 InetPtonA wsa_error s (to_string_u16 ?p) (Some (replicate 16 0)) = (Success, Some a')"
    and "ss_family a' = AF_INET" and u: "uint (ntohs (read_u16 2 a')) = uint ?p" and "get_bytes 4 4 a' = ?bs"
  proof (rule str_to_addr4_stored [of "replicate 16 0" ?bs InetPtonA s "to_string_u16 ?p" wsa_error])
    show "strtol10 (to_string_u16 ?p) \<le> USHRT_MAX"
      using uint_lt2p [of ?p] by (simp add: strtol_to_string USHRT_MAX_def)
    show "c_str (to_string_u16 ?p) = ''0''" if "strtol10 (to_string_u16 ?p) = 0"
      using that to_string_u16_0 by (simp add: strtol_to_string)
  qed (auto simp: nul pton blen strtol_to_string)
  moreover from u have "read_u16 2 a' = read_u16 2 a" by (metis htons_htons word_uint_eqI)
  ultimately show ?thesis using fwd by blast
qed

theorem addr_port_text_roundtrip_witness:
  "\<exists>host port a'. addr_and_port_to_str ntop_loopback 0
       (Some (put 4 [127, 0, 0, 1] (put 0 (bytes_of_u16 2) zero_storage))) [] [] = (Success, host, port) \<and>
     str_to_addr4 pton_loopback 0 host port (Some (replicate 16 0)) = (Success, Some a') \<and>
     get_bytes 4 4 a' = [127, 0, 0, 1]"
proof -
  let ?a = "put 4 [127, 0, 0, 1] (put 0 (bytes_of_u16 2) zero_storage)"
  have b: "get_bytes 4 4 ?a = [127, 0, 0, 1]" by simp
  have f: "ss_family ?a = AF_INET" by (simp add: ss_family_def read_u16_put_other AF_INET_def)
  show ?thesis
    using addr_port_text_roundtrip [OF f, of ntop_loopback "''127.0.0.1''" pton_loopback 0 "[]" "[]"] b
    by (auto simp: ntop_loopback_def pton_loopback_def)
qed

end
