(* ===== verification/Win_Platform.thy ===== *)
theory Win_Platform
  imports Win_Sockaddr
begin

text \<open>
  The platform layer: the objects the library keeps in memory (sockets, I/O cores, \<open>IOData\<close>
  blocks, posted work), and the calls it makes into Winsock and the Windows thread pool.

  The operating system is a parameter \<open>os\<close>: a function that answers a \<open>syscall\<close> in its own
  state with a \<open>sysret\<close> and a new state.  Nothing is assumed of it in the definitions; what
  the documentation promises is stated as the hypotheses at the end of this theory.  The world
  keeps, beside the program's memory, ghost components: the trace of calls, the overlapped
  operations the system has accepted and not yet completed (\<open>inflight\<close>), the thread pool
  callbacks it has accepted and not yet run (\<open>posted\<close>), the invocations of user handlers
  (\<open>invoked\<close>) and the faults.  A fault stands for undefined behaviour; a run that has one
  says nothing about the program, so the properties show runs without.
\<close>

section \<open>Objects\<close>

type_synonym ptr = u64            \<comment> \<open>opaque pointers of the system, 0 is \<open>nullptr\<close>\<close>
type_synonym sock_id = nat        \<comment> \<open>identity of a \<open>WinSocket\<close> object\<close>
type_synonym core_id = nat        \<comment> \<open>identity of a \<open>WinIOCore\<close> object\<close>
type_synonym addr = nat           \<comment> \<open>address of a block allocated with \<open>new\<close>, 0 is \<open>nullptr\<close>\<close>
type_synonym handler = "nat option"   \<comment> \<open>a \<open>std::function\<close>, \<open>None\<close> when empty\<close>

abbreviation nullptr :: ptr where "nullptr \<equiv> 0"

text \<open>\<open>std::span<std::byte>\<close>: a pointer into the caller's memory and a size.\<close>

record span =
  sp_data :: nat
  sp_size :: nat

record WinSocket =
  ws_io_core :: core_id               \<comment> \<open>a \<open>weak_ptr\<close>\<close>
  ws_socket :: NativeHandle
  ws_addr_family :: AddressFamily
  ws_sock_type :: SocketType
  ws_protocol :: Protocol
  ws_is_bound :: bool
  ws_io_handle :: ptr

text \<open>The \<open>std::variant\<close> of handlers.\<close>

datatype user_handler =
    AcceptHandler handler
  | ConnectHandler handler
  | ReadHandler handler
  | WriteHandler handler
  | DisconnectHandler handler

definition ACCEPTEX_BUF_LEN :: nat where "ACCEPTEX_BUF_LEN = 512"

record IOData =
  iod_user_buffer :: span
  iod_accept_address_buffer :: "byte list"
  iod_local_win_addr :: SOCKADDR_STORAGE
  iod_peer_win_addr :: SOCKADDR_STORAGE
  iod_socket :: "sock_id option"
  iod_accept_socket :: "sock_id option"
  iod_user_handler :: user_handler
  iod_error_code :: ErrorCode
  iod_bytes_transferred :: int

definition IOData_default :: IOData where
  "IOData_default =
     \<lparr>iod_user_buffer = \<lparr>sp_data = 0, sp_size = 0\<rparr>,
      iod_accept_address_buffer = replicate ACCEPTEX_BUF_LEN 0,
      iod_local_win_addr = zero_storage, iod_peer_win_addr = zero_storage,
      iod_socket = None, iod_accept_socket = None,
      iod_user_handler = AcceptHandler None,
      iod_error_code = Success, iod_bytes_transferred = 0\<rparr>"

datatype ThreadpoolRollback = Rb_None | InitEnviron | CreateThreadpool | CreateCleanupGroup

text \<open>One of the two thread pools of an I/O core.\<close>

record threadpool =
  tp_rollback :: ThreadpoolRollback
  tp_cleanup_group :: ptr
  tp_threadpool :: ptr

record IOCoreConfig =
  io_threadpool_min_threads :: u32
  io_threadpool_max_threads :: u32
  user_threadpool_min_threads :: u32
  user_threadpool_max_threads :: u32

record WinIOCore =
  core_conf :: IOCoreConfig
  core_stop_requested :: int
  core_io_pool :: threadpool
  core_user_pool :: threadpool

datatype pool = Io_Pool | User_Pool

text \<open>
  What \<open>post_user_work\<close> and \<open>post_io_work\<close> are given: the closures of
  \<open>socket_io_routine\<close>, with what they capture, or a function of the application.
\<close>

datatype work =
    Accept_Work addr handler Endpoint Endpoint
  | Connect_Work addr handler
  | Read_Work addr handler
  | Write_Work addr handler
  | Disconnect_Work addr handler
  | App_Work nat

text \<open>A call of a user handler, with its arguments.\<close>

datatype invocation =
    Accept_Call nat "sock_id option" "sock_id option" Endpoint Endpoint ErrorCode
  | Connect_Call nat "sock_id option" ErrorCode
  | Read_Call nat "sock_id option" ErrorCode int
  | Write_Call nat "sock_id option" ErrorCode int
  | Disconnect_Call nat "sock_id option" ErrorCode
  | App_Call nat
  | Empty_Call              \<comment> \<open>calling an empty \<open>std::function\<close> (it throws)\<close>

section \<open>System calls\<close>

datatype ext_fn = Fn_AcceptEx | Fn_GetAcceptExSockaddrs | Fn_ConnectEx | Fn_DisconnectEx

text \<open>
  The size of a \<open>SOCKADDR_STORAGE\<close>, which every call is told that is given one, and the room that
  \<open>AcceptEx\<close> needs for each of its two addresses.
\<close>

definition sizeof_sockaddr :: int where "sizeof_sockaddr = int sockaddr_size"

definition acceptex_addr_len :: int where "acceptex_addr_len = sizeof_sockaddr + 16"

text \<open>
  Winsock calls that complete at once.  An address comes with its length; for a call that stores an
  address the length is the room there is for it.
\<close>

datatype ws_call =
    WSAStartup u16
  | WSACleanup
  | WSASocketW int int int
  | Closesocket NativeHandle
  | Ws_bind NativeHandle SOCKADDR_STORAGE int
  | Ws_listen NativeHandle int
  | Ws_shutdown NativeHandle int
  | Ws_accept NativeHandle int
  | Ws_connect NativeHandle SOCKADDR_STORAGE int
  | Ws_recv NativeHandle int
  | Ws_recvfrom NativeHandle int int
  | Ws_send NativeHandle "byte list" int
  | Ws_sendto NativeHandle "byte list" int SOCKADDR_STORAGE int
  | Ws_select NativeHandle "(int \<times> int) option"
  | Getsockname NativeHandle int
  | Getpeername NativeHandle int

datatype opt_call =
    Setsockopt NativeHandle int int "byte list" int
  | Getsockopt NativeHandle int int int
  | Get_Protocol_Info NativeHandle
  | Update_Accept_Context NativeHandle NativeHandle
  | Update_Connect_Context NativeHandle
  | WSAIoctl NativeHandle ext_fn

text \<open>
  Overlapped calls; a pointer argument of type \<open>ptr\<close> is the extension function called.  The two
  lengths of \<open>AcceptEx\<close> are the parts of the buffer of the block for the two addresses.
  \<open>WSARecvFrom\<close> stores the address of the sender in the block.
\<close>

datatype ov_call =
    AcceptEx ptr NativeHandle NativeHandle int int
  | ConnectEx ptr NativeHandle SOCKADDR_STORAGE int
  | DisconnectEx ptr NativeHandle int
  | WSARecv NativeHandle span u32
  | WSARecvFrom NativeHandle span u32 int
  | WSASend NativeHandle span u32
  | WSASendTo NativeHandle span u32 SOCKADDR_STORAGE int

datatype io_call =
    CreateThreadpoolIo NativeHandle core_id
  | StartThreadpoolIo ptr
  | CancelThreadpoolIo ptr
  | WaitForThreadpoolIoCallbacks ptr bool
  | CloseThreadpoolIo ptr

datatype tp_call =
    InitializeThreadpoolEnvironment pool core_id
  | Create_Threadpool
  | SetThreadpoolThreadMaximum ptr u32
  | SetThreadpoolThreadMinimum ptr u32
  | CreateThreadpoolCleanupGroup
  | SetThreadpoolCallbackPool pool core_id ptr
  | SetThreadpoolCallbackCleanupGroup pool core_id ptr
  | CreateThread_CloseMembers ptr
  | WaitForSingleObject ptr int
  | CloseHandle ptr
  | CloseThreadpoolCleanupGroup ptr
  | CloseThreadpool ptr
  | DestroyThreadpoolEnvironment pool core_id

datatype syscall =
    WSAGetLastError
  | GetLastError
  | GetTickCount64
  | Ws ws_call
  | Opt opt_call
  | Ov ov_call addr                                  \<comment> \<open>with the address of its \<open>OVERLAPPED\<close>\<close>
  | GetAcceptExSockaddrs ptr addr int int
  | Io io_call
  | Tp tp_call
  | TrySubmitThreadpoolCallback addr pool core_id

text \<open>
  An answer: the return value, up to three integers and two byte blocks stored through pointer
  arguments, and whether the system has taken the operation over (an overlapped operation that
  will complete, a callback that will run).
\<close>

record sysret =
  ret :: int
  out0 :: int
  out1 :: int
  out2 :: int
  buf0 :: "byte list"
  buf1 :: "byte list"
  queued :: bool

type_synonym 'o os = "syscall \<Rightarrow> 'o \<Rightarrow> sysret \<times> 'o"

definition SOCKET_ERROR :: int where "SOCKET_ERROR = -1"
definition ERROR_IO_PENDING :: int where "ERROR_IO_PENDING = 997"

definition overlapped_of :: "syscall \<Rightarrow> addr option" where
  "overlapped_of c = (case c of Ov _ p \<Rightarrow> Some p | _ \<Rightarrow> None)"

definition submitted_of :: "syscall \<Rightarrow> (pool \<times> addr) option" where
  "submitted_of c = (case c of TrySubmitThreadpoolCallback f pl _ \<Rightarrow> Some (pl, f) | _ \<Rightarrow> None)"

section \<open>The world\<close>

record 'o world =
  os_state :: 'o
  sockets :: "sock_id \<Rightarrow> WinSocket option"
  cores :: "core_id \<Rightarrow> WinIOCore option"
  io_heap :: "addr \<Rightarrow> IOData option"
  fn_heap :: "addr \<Rightarrow> work option"
  next_addr :: addr
  lpfn_accept_ex :: ptr
  lpfn_get_accept_ex_sockaddrs :: ptr
  lpfn_connect_ex :: ptr
  lpfn_disconnect_ex :: ptr
  umem :: "nat \<Rightarrow> byte"
  os_trace :: "(syscall \<times> sysret) list"
  inflight :: "addr list"
  posted :: "(pool \<times> addr) list"
  invoked :: "invocation list"
  faults :: "fault list"

type_synonym ('o, 'a) prog = "('o world, 'a) state"

definition sys_ret :: "'o os \<Rightarrow> syscall \<Rightarrow> 'o world \<Rightarrow> sysret" where
  "sys_ret os c w = fst (os c (os_state w))"

definition after :: "'o os \<Rightarrow> syscall \<Rightarrow> 'o world \<Rightarrow> 'o world" where
  "after os c w =
     w\<lparr>os_state := snd (os c (os_state w)),
       os_trace := os_trace w @ [(c, sys_ret os c w)],
       inflight := (if queued (sys_ret os c w) then
                      (case overlapped_of c of Some p \<Rightarrow> inflight w @ [p] | None \<Rightarrow> inflight w)
                    else inflight w),
       posted := (if queued (sys_ret os c w) then
                    (case submitted_of c of Some f \<Rightarrow> posted w @ [f] | None \<Rightarrow> posted w)
                  else posted w)\<rparr>"

definition sys :: "'o os \<Rightarrow> syscall \<Rightarrow> ('o, sysret) prog" where
  "sys os c = State (\<lambda>w. (sys_ret os c w, after os c w))"

definition gets :: "('o world \<Rightarrow> 'a) \<Rightarrow> ('o, 'a) prog" where
  "gets f = State (\<lambda>w. (f w, w))"

definition modify :: "('o world \<Rightarrow> 'o world) \<Rightarrow> ('o, unit) prog" where
  "modify f = State (\<lambda>w. ((), f w))"

definition raise_fault :: "fault \<Rightarrow> ('o, unit) prog" where
  "raise_fault f = modify (\<lambda>w. w\<lparr>faults := faults w @ [f]\<rparr>)"

definition "when" :: "bool \<Rightarrow> ('o, unit) prog \<Rightarrow> ('o, unit) prog" where
  "when b m = (if b then m else State_Monad.return ())"

text \<open>The value of a function that may be undefined, with a default to go on with.\<close>

definition lift_cpp :: "'a \<Rightarrow> 'a cpp \<Rightarrow> ('o, 'a) prog" where
  "lift_cpp d m =
     (case m of
        Ret x \<Rightarrow> State_Monad.return x
      | Throws e \<Rightarrow> State_Monad.return d
      | Undefined u \<Rightarrow> do { raise_fault u; State_Monad.return d })"

subsection \<open>Memory\<close>

definition WinSocket_default :: "core_id \<Rightarrow> WinSocket" where
  "WinSocket_default core =
     \<lparr>ws_io_core = core, ws_socket = INVALID_SOCKET, ws_addr_family = AF_NotSupported,
      ws_sock_type = ST_NotSupported, ws_protocol = Pr_NotSupported, ws_is_bound = False,
      ws_io_handle = nullptr\<rparr>"

definition sock :: "'o world \<Rightarrow> sock_id \<Rightarrow> WinSocket" where
  "sock w s = (case sockets w s of Some x \<Rightarrow> x | None \<Rightarrow> WinSocket_default 0)"

text \<open>Access through a pointer to a socket object.\<close>

definition read_sock :: "sock_id \<Rightarrow> ('o, WinSocket) prog" where
  "read_sock s = do {
     w \<leftarrow> State_Monad.get;
     when (sockets w s = None) (raise_fault Null_Deref);
     State_Monad.return (sock w s) }"

definition upd_sock :: "sock_id \<Rightarrow> (WinSocket \<Rightarrow> WinSocket) \<Rightarrow> ('o, unit) prog" where
  "upd_sock s f = do {
     w \<leftarrow> State_Monad.get;
     if sockets w s = None then raise_fault Null_Deref
     else modify (\<lambda>w. w\<lparr>sockets := (sockets w)(s \<mapsto> f (sock w s))\<rparr>) }"

definition new_io :: "IOData \<Rightarrow> ('o, addr) prog" where
  "new_io d = State (\<lambda>w. (next_addr w,
     w\<lparr>io_heap := (io_heap w)(next_addr w \<mapsto> d), next_addr := next_addr w + 1\<rparr>))"

definition io :: "'o world \<Rightarrow> addr \<Rightarrow> IOData" where
  "io w p = (case io_heap w p of Some d \<Rightarrow> d | None \<Rightarrow> IOData_default)"

definition read_io :: "addr \<Rightarrow> ('o, IOData) prog" where
  "read_io p = do {
     w \<leftarrow> State_Monad.get;
     when (io_heap w p = None) (raise_fault Use_After_Free);
     State_Monad.return (io w p) }"

definition upd_io :: "addr \<Rightarrow> (IOData \<Rightarrow> IOData) \<Rightarrow> ('o, unit) prog" where
  "upd_io p f = do {
     w \<leftarrow> State_Monad.get;
     if io_heap w p = None then raise_fault Use_After_Free
     else modify (\<lambda>w. w\<lparr>io_heap := (io_heap w)(p \<mapsto> f (io w p))\<rparr>) }"

definition delete_io :: "addr \<Rightarrow> ('o, unit) prog" where
  "delete_io p = do {
     w \<leftarrow> State_Monad.get;
     if p = 0 then State_Monad.return ()
     else if io_heap w p = None then raise_fault Double_Free
     else modify (\<lambda>w. w\<lparr>io_heap := (io_heap w)(p := None)\<rparr>) }"

definition new_fn :: "work \<Rightarrow> ('o, addr) prog" where
  "new_fn f = State (\<lambda>w. (next_addr w,
     w\<lparr>fn_heap := (fn_heap w)(next_addr w \<mapsto> f), next_addr := next_addr w + 1\<rparr>))"

definition read_fn :: "addr \<Rightarrow> ('o, work) prog" where
  "read_fn p = do {
     w \<leftarrow> State_Monad.get;
     when (fn_heap w p = None) (raise_fault Use_After_Free);
     State_Monad.return (case fn_heap w p of Some f \<Rightarrow> f | None \<Rightarrow> App_Work 0) }"

definition delete_fn :: "addr \<Rightarrow> ('o, unit) prog" where
  "delete_fn p = do {
     w \<leftarrow> State_Monad.get;
     if p = 0 then State_Monad.return ()
     else if fn_heap w p = None then raise_fault Double_Free
     else modify (\<lambda>w. w\<lparr>fn_heap := (fn_heap w)(p := None)\<rparr>) }"

text \<open>\<open>weak_ptr<IOCore>::lock\<close>: whether the core is still alive.\<close>

definition lock_core :: "core_id \<Rightarrow> ('o, bool) prog" where
  "lock_core c = gets (\<lambda>w. cores w c \<noteq> None)"

text \<open>The caller's memory behind a span.\<close>

definition load_span :: "'o world \<Rightarrow> span \<Rightarrow> byte list" where
  "load_span w sp = map (umem w) [sp_data sp ..< sp_data sp + sp_size sp]"

definition store_bytes :: "nat \<Rightarrow> byte list \<Rightarrow> (nat \<Rightarrow> byte) \<Rightarrow> (nat \<Rightarrow> byte)" where
  "store_bytes a bs m = (\<lambda>i. if a \<le> i \<and> i < a + length bs then bs ! (i - a) else m i)"

text \<open>Bytes the system stores into a \<open>SOCKADDR_STORAGE\<close> of which it knows the size.\<close>

definition store_sockaddr :: "byte list \<Rightarrow> SOCKADDR_STORAGE \<Rightarrow> SOCKADDR_STORAGE" where
  "store_sockaddr bs sa = take sockaddr_size (bs @ drop (length bs) sa)"

section \<open>What the system promises\<close>

text \<open>
  An overlapped call has started at once: the extension functions return \<open>TRUE\<close>, the Winsock
  functions anything but \<open>SOCKET_ERROR\<close>.
\<close>

fun ov_started :: "ov_call \<Rightarrow> int \<Rightarrow> bool" where
  "ov_started (AcceptEx f s a l r) i \<longleftrightarrow> i = 1"
| "ov_started (ConnectEx f s sa l) i \<longleftrightarrow> i = 1"
| "ov_started (DisconnectEx f s fl) i \<longleftrightarrow> i = 1"
| "ov_started (WSARecv s b n) i \<longleftrightarrow> i \<noteq> SOCKET_ERROR"
| "ov_started (WSARecvFrom s b n l) i \<longleftrightarrow> i \<noteq> SOCKET_ERROR"
| "ov_started (WSASend s b n) i \<longleftrightarrow> i \<noteq> SOCKET_ERROR"
| "ov_started (WSASendTo s b n sa l) i \<longleftrightarrow> i \<noteq> SOCKET_ERROR"

text \<open>
  Overlapped calls: the system owns the operation, and will complete it, exactly when the call
  returns success or the error is \<open>ERROR_IO_PENDING\<close>; a failed call sets an error code.
\<close>

definition overlapped_contract :: "'o os \<Rightarrow> bool" where
  "overlapped_contract os \<longleftrightarrow>
     (\<forall>c p w. let r = sys_ret os (Ov c p) w;
                  e = ret (sys_ret os WSAGetLastError (after os (Ov c p) w))
              in (queued r \<longleftrightarrow> ov_started c (ret r) \<or> e = ERROR_IO_PENDING)
                 \<and> (\<not> ov_started c (ret r) \<longrightarrow> e \<noteq> 0))"

text \<open>
  Thread pool callbacks: the callback will run exactly when the submission returns non-zero; a
  failed submission sets an error code, a \<open>DWORD\<close>.
\<close>

definition submit_contract :: "'o os \<Rightarrow> bool" where
  "submit_contract os \<longleftrightarrow>
     (\<forall>f pl c w. let r = sys_ret os (TrySubmitThreadpoolCallback f pl c) w;
                     e = ret (sys_ret os GetLastError (after os (TrySubmitThreadpoolCallback f pl c) w))
                 in (queued r \<longleftrightarrow> ret r \<noteq> 0) \<and> (ret r = 0 \<longrightarrow> 0 < e \<and> e < 2 ^ 32))"

text \<open>A Winsock call that fails sets an error code.\<close>

definition wsa_fails :: "ws_call \<Rightarrow> int \<Rightarrow> bool" where
  "wsa_fails c i \<longleftrightarrow>
     (case c of
        WSASocketW _ _ _ \<Rightarrow> (word_of_int i :: u64) = INVALID_SOCKET
      | Ws_accept _ _ \<Rightarrow> (word_of_int i :: u64) = INVALID_SOCKET
      | Ws_bind _ _ _ \<Rightarrow> i \<noteq> 0
      | Ws_listen _ _ \<Rightarrow> i \<noteq> 0
      | Ws_shutdown _ _ \<Rightarrow> i \<noteq> 0
      | Ws_connect _ _ _ \<Rightarrow> i \<noteq> 0
      | _ \<Rightarrow> i = SOCKET_ERROR)"

definition wsa_contract :: "'o os \<Rightarrow> bool" where
  "wsa_contract os \<longleftrightarrow>
     (\<forall>c w. wsa_fails c (ret (sys_ret os (Ws c) w)) \<longrightarrow>
            ret (sys_ret os WSAGetLastError (after os (Ws c) w)) \<noteq> 0)"

definition opt_contract :: "'o os \<Rightarrow> bool" where
  "opt_contract os \<longleftrightarrow>
     (\<forall>c w. ret (sys_ret os (Opt c) w) \<noteq> 0 \<longrightarrow>
            ret (sys_ret os WSAGetLastError (after os (Opt c) w)) \<noteq> 0)"

text \<open>\<open>CreateThreadpoolIo\<close> sets an error code, a \<open>DWORD\<close>, when it returns \<open>nullptr\<close>.\<close>

definition tpio_contract :: "'o os \<Rightarrow> bool" where
  "tpio_contract os \<longleftrightarrow>
     (\<forall>h c w. let r = sys_ret os (Io (CreateThreadpoolIo h c)) w;
                  e = ret (sys_ret os GetLastError (after os (Io (CreateThreadpoolIo h c)) w))
              in (word_of_int (ret r) :: ptr) = nullptr \<longrightarrow> 0 < e \<and> e < 2 ^ 32)"

section \<open>Lemmas\<close>

lemma run_sys [simp, exec]: "run_state (sys os c) w = (sys_ret os c w, after os c w)"
  by (simp add: sys_def)

lemma run_gets [simp, exec]: "run_state (gets f) w = (f w, w)"
  by (simp add: gets_def)

lemma run_modify [simp, exec]: "run_state (modify f) w = ((), f w)"
  by (simp add: modify_def)

lemma run_raise_fault [simp, exec]:
  "run_state (raise_fault f) w = ((), w\<lparr>faults := faults w @ [f]\<rparr>)"
  by (simp add: raise_fault_def)

lemma run_when [simp, exec]:
  "run_state (when b m) w = (if b then run_state m w else ((), w))"
  by (simp add: when_def)

lemma run_lift_cpp [simp, exec]:
  "run_state (lift_cpp d m) w =
     (case m of Ret x \<Rightarrow> (x, w) | Throws e \<Rightarrow> (d, w) | Undefined u \<Rightarrow> (d, w\<lparr>faults := faults w @ [u]\<rparr>))"
  by (simp add: lift_cpp_def split: cpp.splits)

lemma run_lock_core [simp, exec]: "run_state (lock_core c) w = (cores w c \<noteq> None, w)"
  by (simp add: lock_core_def)

lemma run_read_sock [exec]:
  "run_state (read_sock s) w =
     (sock w s, if sockets w s = None then w\<lparr>faults := faults w @ [Null_Deref]\<rparr> else w)"
  by (simp add: read_sock_def)

lemma run_upd_sock [exec]:
  "run_state (upd_sock s f) w =
     ((), if sockets w s = None then w\<lparr>faults := faults w @ [Null_Deref]\<rparr>
          else w\<lparr>sockets := (sockets w)(s \<mapsto> f (sock w s))\<rparr>)"
  by (simp add: upd_sock_def)

lemma run_new_io [simp, exec]:
  "run_state (new_io d) w =
     (next_addr w, w\<lparr>io_heap := (io_heap w)(next_addr w \<mapsto> d), next_addr := next_addr w + 1\<rparr>)"
  by (simp add: new_io_def)

lemma run_read_io [exec]:
  "run_state (read_io p) w =
     (io w p, if io_heap w p = None then w\<lparr>faults := faults w @ [Use_After_Free]\<rparr> else w)"
  by (simp add: read_io_def)

lemma run_upd_io [exec]:
  "run_state (upd_io p f) w =
     ((), if io_heap w p = None then w\<lparr>faults := faults w @ [Use_After_Free]\<rparr>
          else w\<lparr>io_heap := (io_heap w)(p \<mapsto> f (io w p))\<rparr>)"
  by (simp add: upd_io_def)

lemma run_delete_io [exec]:
  "run_state (delete_io p) w =
     ((), if p = 0 then w
          else if io_heap w p = None then w\<lparr>faults := faults w @ [Double_Free]\<rparr>
          else w\<lparr>io_heap := (io_heap w)(p := None)\<rparr>)"
  by (simp add: delete_io_def)

lemma run_new_fn [simp, exec]:
  "run_state (new_fn f) w =
     (next_addr w, w\<lparr>fn_heap := (fn_heap w)(next_addr w \<mapsto> f), next_addr := next_addr w + 1\<rparr>)"
  by (simp add: new_fn_def)

lemma run_read_fn [exec]:
  "run_state (read_fn p) w =
     (case fn_heap w p of Some f \<Rightarrow> f | None \<Rightarrow> App_Work 0,
      if fn_heap w p = None then w\<lparr>faults := faults w @ [Use_After_Free]\<rparr> else w)"
  by (simp add: read_fn_def)

lemma run_delete_fn [exec]:
  "run_state (delete_fn p) w =
     ((), if p = 0 then w
          else if fn_heap w p = None then w\<lparr>faults := faults w @ [Double_Free]\<rparr>
          else w\<lparr>fn_heap := (fn_heap w)(p := None)\<rparr>)"
  by (simp add: delete_fn_def)

text \<open>A system call changes nothing of the program's memory.\<close>

lemma after_frame [simp]:
  "sockets (after os c w) = sockets w" "cores (after os c w) = cores w"
  "io_heap (after os c w) = io_heap w" "fn_heap (after os c w) = fn_heap w"
  "next_addr (after os c w) = next_addr w" "umem (after os c w) = umem w"
  "invoked (after os c w) = invoked w" "faults (after os c w) = faults w"
  "lpfn_accept_ex (after os c w) = lpfn_accept_ex w"
  "lpfn_get_accept_ex_sockaddrs (after os c w) = lpfn_get_accept_ex_sockaddrs w"
  "lpfn_connect_ex (after os c w) = lpfn_connect_ex w"
  "lpfn_disconnect_ex (after os c w) = lpfn_disconnect_ex w"
  by (simp_all add: after_def)

lemma sock_after [simp]: "sock (after os c w) s = sock w s"
  by (simp add: sock_def)

lemma io_after [simp]: "io (after os c w) p = io w p"
  by (simp add: io_def)

lemma os_trace_after [simp]: "os_trace (after os c w) = os_trace w @ [(c, sys_ret os c w)]"
  by (simp add: after_def)

lemma overlapped_of_simps [simp]:
  "overlapped_of (Ov c p) = Some p" "overlapped_of WSAGetLastError = None"
  "overlapped_of GetLastError = None" "overlapped_of GetTickCount64 = None"
  "overlapped_of (Ws a) = None" "overlapped_of (Opt b) = None" "overlapped_of (Io i) = None"
  "overlapped_of (Tp t) = None" "overlapped_of (GetAcceptExSockaddrs f p l r) = None"
  "overlapped_of (TrySubmitThreadpoolCallback x pl k) = None"
  by (simp_all add: overlapped_of_def)

lemma submitted_of_simps [simp]:
  "submitted_of (TrySubmitThreadpoolCallback x pl k) = Some (pl, x)"
  "submitted_of (Ov c p) = None" "submitted_of WSAGetLastError = None"
  "submitted_of GetLastError = None" "submitted_of GetTickCount64 = None"
  "submitted_of (Ws a) = None" "submitted_of (Opt b) = None" "submitted_of (Io i) = None"
  "submitted_of (Tp t) = None" "submitted_of (GetAcceptExSockaddrs f p l r) = None"
  by (simp_all add: submitted_of_def)

lemma inflight_after:
  "inflight (after os c w) =
     (case overlapped_of c of
        Some p \<Rightarrow> if queued (sys_ret os c w) then inflight w @ [p] else inflight w
      | None \<Rightarrow> inflight w)"
  by (simp add: after_def split: option.splits)

lemma posted_after:
  "posted (after os c w) =
     (case submitted_of c of
        Some f \<Rightarrow> if queued (sys_ret os c w) then posted w @ [f] else posted w
      | None \<Rightarrow> posted w)"
  by (simp add: after_def split: option.splits)

lemma inflight_after_other [simp]: "overlapped_of c = None \<Longrightarrow> inflight (after os c w) = inflight w"
  by (simp add: inflight_after)

lemma posted_after_other [simp]: "submitted_of c = None \<Longrightarrow> posted (after os c w) = posted w"
  by (simp add: posted_after)

text \<open>The system's answer depends on its own state only.\<close>

lemma sys_ret_cong: "os_state w = os_state w' \<Longrightarrow> sys_ret os c w = sys_ret os c w'"
  by (simp add: sys_ret_def)

lemma sys_ret_frame [simp]:
  "sys_ret os c (w\<lparr>sockets := a\<rparr>) = sys_ret os c w"
  "sys_ret os c (w\<lparr>cores := b\<rparr>) = sys_ret os c w"
  "sys_ret os c (w\<lparr>io_heap := d\<rparr>) = sys_ret os c w"
  "sys_ret os c (w\<lparr>fn_heap := e\<rparr>) = sys_ret os c w"
  "sys_ret os c (w\<lparr>next_addr := f\<rparr>) = sys_ret os c w"
  "sys_ret os c (w\<lparr>umem := g\<rparr>) = sys_ret os c w"
  "sys_ret os c (w\<lparr>faults := h\<rparr>) = sys_ret os c w"
  "sys_ret os c (w\<lparr>invoked := i\<rparr>) = sys_ret os c w"
  by (rule sys_ret_cong, simp)+

lemma sock_upd [simp]: "sock (w\<lparr>sockets := (sockets w)(s \<mapsto> x)\<rparr>) s = x"
  by (simp add: sock_def)

lemma sock_frame [simp]:
  "sock (w\<lparr>io_heap := d\<rparr>) s = sock w s" "sock (w\<lparr>next_addr := f\<rparr>) s = sock w s"
  "sock (w\<lparr>faults := h\<rparr>) s = sock w s" "sock (w\<lparr>fn_heap := e\<rparr>) s = sock w s"
  "sock (w\<lparr>umem := g\<rparr>) s = sock w s" "sock (w\<lparr>cores := b\<rparr>) s = sock w s"
  "sock (w\<lparr>inflight := j\<rparr>) s = sock w s" "sock (w\<lparr>posted := k\<rparr>) s = sock w s"
  "sock (w\<lparr>invoked := i\<rparr>) s = sock w s"
  by (simp_all add: sock_def)

lemma sock_Some: "sockets w s = Some x \<Longrightarrow> sock w s = x"
  by (simp add: sock_def)

lemma io_Some: "io_heap w p = Some d \<Longrightarrow> io w p = d"
  by (simp add: io_def)

lemma overlapped_contractD:
  assumes "overlapped_contract os"
  shows "queued (sys_ret os (Ov c p) w) \<longleftrightarrow>
      ov_started c (ret (sys_ret os (Ov c p) w)) \<or>
      ret (sys_ret os WSAGetLastError (after os (Ov c p) w)) = ERROR_IO_PENDING"
    and "\<not> ov_started c (ret (sys_ret os (Ov c p) w)) \<Longrightarrow>
      ret (sys_ret os WSAGetLastError (after os (Ov c p) w)) \<noteq> 0"
  using assms by (auto simp: overlapped_contract_def Let_def)

lemma submit_contractD:
  assumes "submit_contract os"
  shows "queued (sys_ret os (TrySubmitThreadpoolCallback f pl c) w) \<longleftrightarrow>
      ret (sys_ret os (TrySubmitThreadpoolCallback f pl c) w) \<noteq> 0"
    and "ret (sys_ret os (TrySubmitThreadpoolCallback f pl c) w) = 0 \<Longrightarrow>
      to_int32 (ret (sys_ret os GetLastError (after os (TrySubmitThreadpoolCallback f pl c) w))) \<noteq> 0"
proof -
  show "queued (sys_ret os (TrySubmitThreadpoolCallback f pl c) w) \<longleftrightarrow>
      ret (sys_ret os (TrySubmitThreadpoolCallback f pl c) w) \<noteq> 0"
    using assms unfolding submit_contract_def Let_def by blast
  assume "ret (sys_ret os (TrySubmitThreadpoolCallback f pl c) w) = 0"
  then have "0 < ret (sys_ret os GetLastError (after os (TrySubmitThreadpoolCallback f pl c) w))"
    and "ret (sys_ret os GetLastError (after os (TrySubmitThreadpoolCallback f pl c) w)) < 2 ^ 32"
    using assms unfolding submit_contract_def Let_def by blast+
  then show "to_int32 (ret (sys_ret os GetLastError (after os (TrySubmitThreadpoolCallback f pl c) w))) \<noteq> 0"
    by (simp add: to_int32_zero_iff)
qed

lemma wsa_contractD:
  "wsa_contract os \<Longrightarrow> wsa_fails c (ret (sys_ret os (Ws c) w)) \<Longrightarrow>
     ret (sys_ret os WSAGetLastError (after os (Ws c) w)) \<noteq> 0"
  by (simp add: wsa_contract_def)

lemma tpio_contractD:
  assumes "tpio_contract os"
    and "(word_of_int (ret (sys_ret os (Io (CreateThreadpoolIo h c)) w)) :: ptr) = nullptr"
  shows "to_int32 (ret (sys_ret os GetLastError (after os (Io (CreateThreadpoolIo h c)) w))) \<noteq> 0"
proof -
  have "0 < ret (sys_ret os GetLastError (after os (Io (CreateThreadpoolIo h c)) w))"
    and "ret (sys_ret os GetLastError (after os (Io (CreateThreadpoolIo h c)) w)) < 2 ^ 32"
    using assms unfolding tpio_contract_def Let_def by blast+
  then show ?thesis by (simp add: to_int32_zero_iff)
qed

section \<open>A system that keeps its promises\<close>

text \<open>
  The hypotheses above hold of this system, which starts every overlapped operation as pending,
  accepts every callback and grants every request.  The witnesses of the properties run on it.
\<close>

definition answer :: "int \<Rightarrow> bool \<Rightarrow> sysret" where
  "answer i q = \<lparr>ret = i, out0 = 2, out1 = 1, out2 = 6, buf0 = [], buf1 = [], queued = q\<rparr>"

definition sample_os :: "unit os" where
  "sample_os c u =
     (case c of
        WSAGetLastError \<Rightarrow> answer ERROR_IO_PENDING False
      | GetLastError \<Rightarrow> answer 8 False
      | Ws (WSAStartup v) \<Rightarrow> (answer 0 False)\<lparr>out0 := uint v\<rparr>
      | Ws (WSASocketW _ _ _) \<Rightarrow> answer 100 False
      | Ws (Ws_accept _ _) \<Rightarrow> answer 101 False
      | Ov (AcceptEx _ _ _ _ _) _ \<Rightarrow> answer 0 True
      | Ov (ConnectEx _ _ _ _) _ \<Rightarrow> answer 0 True
      | Ov (DisconnectEx _ _ _) _ \<Rightarrow> answer 0 True
      | Ov _ _ \<Rightarrow> answer SOCKET_ERROR True
      | Io (CreateThreadpoolIo _ _) \<Rightarrow> answer 500 False
      | Tp Create_Threadpool \<Rightarrow> answer 600 False
      | Tp CreateThreadpoolCleanupGroup \<Rightarrow> answer 700 False
      | Tp (SetThreadpoolThreadMinimum _ _) \<Rightarrow> answer 1 False
      | Tp (CreateThread_CloseMembers _) \<Rightarrow> answer 800 False
      | TrySubmitThreadpoolCallback _ _ _ \<Rightarrow> answer 1 True
      | _ \<Rightarrow> answer 0 False, u)"

definition sample_config :: IOCoreConfig where
  "sample_config = \<lparr>io_threadpool_min_threads = 2, io_threadpool_max_threads = 2,
     user_threadpool_min_threads = 2, user_threadpool_max_threads = 2\<rparr>"

definition sample_core :: WinIOCore where
  "sample_core = \<lparr>core_conf = sample_config, core_stop_requested = 0,
     core_io_pool = \<lparr>tp_rollback = CreateCleanupGroup, tp_cleanup_group = 700, tp_threadpool = 600\<rparr>,
     core_user_pool = \<lparr>tp_rollback = CreateCleanupGroup, tp_cleanup_group = 700, tp_threadpool = 600\<rparr>\<rparr>"

text \<open>A process with one live core and one socket object per given state.\<close>

definition sample_world :: "WinSocket list \<Rightarrow> unit world" where
  "sample_world ss =
     \<lparr>os_state = (), sockets = (\<lambda>i. if i < length ss then Some (ss ! i) else None),
      cores = [0 \<mapsto> sample_core], io_heap = Map.empty, fn_heap = Map.empty, next_addr = 1,
      lpfn_accept_ex = 11, lpfn_get_accept_ex_sockaddrs = 12, lpfn_connect_ex = 13, lpfn_disconnect_ex = 14,
      umem = (\<lambda>_. 0), os_trace = [], inflight = [], posted = [], invoked = [], faults = []\<rparr>"

definition sample_socket :: WinSocket where
  "sample_socket = \<lparr>ws_io_core = 0, ws_socket = 100, ws_addr_family = AF_IPv4, ws_sock_type = ST_Stream,
     ws_protocol = Pr_Tcp, ws_is_bound = False, ws_io_handle = 500\<rparr>"

lemma answer_simps [simp]:
  "ret (answer i q) = i" "out0 (answer i q) = 2" "out1 (answer i q) = 1" "out2 (answer i q) = 6"
  "buf0 (answer i q) = []" "buf1 (answer i q) = []" "queued (answer i q) = q"
  by (simp_all add: answer_def)

lemma sample_ret [simp]:
  "sys_ret sample_os c w = fst (sample_os c (os_state w))"
  by (simp add: sys_ret_def)

lemma sample_contracts [simp]:
  "overlapped_contract sample_os" "submit_contract sample_os" "wsa_contract sample_os"
  "opt_contract sample_os" "tpio_contract sample_os"
proof -
  have "ov_started c (ret (fst (sample_os (Ov c p) u))) = False" and "queued (fst (sample_os (Ov c p) u))" for c p u
    by (cases c; simp add: sample_os_def SOCKET_ERROR_def)+
  then show "overlapped_contract sample_os"
    by (simp add: overlapped_contract_def) (simp add: sample_os_def ERROR_IO_PENDING_def)
  show "submit_contract sample_os" by (simp add: submit_contract_def sample_os_def)
  show "wsa_contract sample_os" by (simp add: wsa_contract_def sample_os_def ERROR_IO_PENDING_def)
  show "opt_contract sample_os" by (simp add: opt_contract_def sample_os_def)
  show "tpio_contract sample_os" by (simp add: tpio_contract_def sample_os_def)
qed

end
