(* ===== verification/Win_Socket.thy ===== *)
theory Win_Socket
  imports Win_Platform "HOL-Library.Multiset"
begin

text \<open>
  \<open>socket.cpp\<close> and the synchronous operations of \<open>win_socket.cpp\<close>: creation, the life of the
  native handle and its thread pool object, and the calls that block.  Every operation is a
  program over the world; \<open>this\<close> is the identity of the object it is called on.
\<close>

section \<open>Construction\<close>

text \<open>\<open>Socket::create\<close> with the identity of the new object; a null \<open>io_core\<close> is \<open>None\<close>.\<close>

definition socket_create :: "core_id option \<Rightarrow> sock_id \<Rightarrow> ('o, ErrorCode + sock_id) prog" where
  "socket_create io_core new_id =
     (case io_core of
        None \<Rightarrow> State_Monad.return (Inl InvalidArgument)
      | Some c \<Rightarrow> do {
          modify (\<lambda>w. w\<lparr>sockets := (sockets w)(new_id \<mapsto> WinSocket_default c)\<rparr>);
          upd_sock new_id (\<lambda>s. s\<lparr>ws_io_core := c\<rparr>);
          State_Monad.return (Inr new_id) })"

text \<open>The destructor.\<close>

definition win_socket_destroy :: "'o os \<Rightarrow> sock_id \<Rightarrow> ('o, unit) prog" where
  "win_socket_destroy os this = do {
     s \<leftarrow> read_sock this;
     when (ws_io_handle s \<noteq> nullptr) (do {
       sys os (Io (WaitForThreadpoolIoCallbacks (ws_io_handle s) False));
       sys os (Io (CloseThreadpoolIo (ws_io_handle s)));
       State_Monad.return () });
     modify (\<lambda>w. w\<lparr>sockets := (sockets w)(this := None)\<rparr>) }"

definition is_valid :: "WinSocket \<Rightarrow> bool" where
  "is_valid s \<longleftrightarrow> ws_socket s \<noteq> INVALID_SOCKET"

section \<open>The native handle\<close>

definition last_wsa_error :: "'o os \<Rightarrow> ('o, ErrorCode) prog" where
  "last_wsa_error os = do { e \<leftarrow> sys os WSAGetLastError; State_Monad.return (ec_of_int (ret e)) }"

definition last_error :: "'o os \<Rightarrow> ('o, ErrorCode) prog" where
  "last_error os = do { e \<leftarrow> sys os GetLastError; State_Monad.return (ec_of_int (to_int32 (ret e))) }"

text \<open>\<open>WinIOCore::associate_handle\<close>: the thread pool object that delivers the completions of a handle.\<close>

definition associate_handle :: "'o os \<Rightarrow> core_id \<Rightarrow> NativeHandle \<Rightarrow> ('o, ptr) prog" where
  "associate_handle os core handle = do {
     r \<leftarrow> sys os (Io (CreateThreadpoolIo handle core));
     State_Monad.return (word_of_int (ret r)) }"

definition socket :: "'o os \<Rightarrow> sock_id \<Rightarrow> AddressFamily \<Rightarrow> SocketType \<Rightarrow> Protocol \<Rightarrow> ('o, ErrorCode) prog" where
  "socket os this family type proto = do {
     r \<leftarrow> sys os (Ws (WSASocketW (af_to_int family) (st_to_int type) (pr_to_int proto)));
     upd_sock this (\<lambda>s. s\<lparr>ws_socket := word_of_int (ret r)\<rparr>);
     s \<leftarrow> read_sock this;
     if ws_socket s = INVALID_SOCKET then last_wsa_error os
     else do {
       alive \<leftarrow> lock_core (ws_io_core s);
       if alive then do {
         h \<leftarrow> associate_handle os (ws_io_core s) (ws_socket s);
         upd_sock this (\<lambda>s. s\<lparr>ws_io_handle := h\<rparr>);
         if h = nullptr then do {
           err \<leftarrow> last_error os;
           sys os (Ws (Closesocket (ws_socket s)));
           upd_sock this (\<lambda>s. s\<lparr>ws_socket := INVALID_SOCKET\<rparr>);
           State_Monad.return err }
         else do {
           upd_sock this (\<lambda>s. s\<lparr>ws_addr_family := family, ws_sock_type := type, ws_protocol := proto\<rparr>);
           State_Monad.return Success } }
       else do {
         sys os (Ws (Closesocket (ws_socket s)));
         upd_sock this (\<lambda>s. s\<lparr>ws_socket := INVALID_SOCKET\<rparr>);
         State_Monad.return SystemError } } }"

definition bind_ep :: "'o os \<Rightarrow> sock_id \<Rightarrow> Endpoint \<Rightarrow> ('o, ErrorCode) prog" where
  "bind_ep os this endpoint = do {
     s \<leftarrow> read_sock this;
     (err, local_win_addr) \<leftarrow> lift_cpp (SystemError, zero_storage) (endpoint_to_sockaddr (ws_addr_family s) endpoint);
     if err \<noteq> Success then State_Monad.return err
     else do {
       r \<leftarrow> sys os (Ws (Ws_bind (ws_socket s) local_win_addr sizeof_sockaddr));
       if ret r \<noteq> 0 then last_wsa_error os
       else do {
         upd_sock this (\<lambda>s. s\<lparr>ws_is_bound := True\<rparr>);
         State_Monad.return Success } } }"

definition listen :: "'o os \<Rightarrow> sock_id \<Rightarrow> int \<Rightarrow> ('o, ErrorCode) prog" where
  "listen os this backlog = do {
     s \<leftarrow> read_sock this;
     r \<leftarrow> sys os (Ws (Ws_listen (ws_socket s) backlog));
     if ret r \<noteq> 0 then last_wsa_error os else State_Monad.return Success }"

definition shutdown :: "'o os \<Rightarrow> sock_id \<Rightarrow> ShutdownHow \<Rightarrow> ('o, ErrorCode) prog" where
  "shutdown os this how = do {
     s \<leftarrow> read_sock this;
     r \<leftarrow> sys os (Ws (Ws_shutdown (ws_socket s) (sd_to_int how)));
     if ret r \<noteq> 0 then last_wsa_error os else State_Monad.return Success }"

definition close :: "'o os \<Rightarrow> sock_id \<Rightarrow> ('o, ErrorCode) prog" where
  "close os this = do {
     s \<leftarrow> read_sock this;
     when (ws_io_handle s \<noteq> nullptr) (do {
       sys os (Io (WaitForThreadpoolIoCallbacks (ws_io_handle s) False));
       sys os (Io (CloseThreadpoolIo (ws_io_handle s)));
       upd_sock this (\<lambda>s. s\<lparr>ws_io_handle := nullptr\<rparr>) });
     err \<leftarrow> (if ws_socket s \<noteq> INVALID_SOCKET then do {
               r \<leftarrow> sys os (Ws (Closesocket (ws_socket s)));
               if ret r = SOCKET_ERROR then last_wsa_error os else State_Monad.return Success }
             else State_Monad.return Success);
     upd_sock this (\<lambda>s. s\<lparr>ws_socket := INVALID_SOCKET, ws_addr_family := AF_NotSupported,
       ws_sock_type := ST_NotSupported, ws_protocol := Pr_NotSupported, ws_is_bound := False\<rparr>);
     State_Monad.return err }"

section \<open>Connections\<close>

definition deref_sock :: "sock_id option \<Rightarrow> ('o, sock_id) prog" where
  "deref_sock p =
     (case p of Some s \<Rightarrow> State_Monad.return s
      | None \<Rightarrow> do { raise_fault Null_Deref; State_Monad.return 0 })"

definition accept :: "'o os \<Rightarrow> sock_id \<Rightarrow> sock_id option \<Rightarrow> ('o, ErrorCode) prog" where
  "accept os this accept_socket = do {
     me \<leftarrow> read_sock this;
     r \<leftarrow> sys os (Ws (Ws_accept (ws_socket me) sizeof_sockaddr));
     let s = word_of_int (ret r) :: NativeHandle in
     if s = INVALID_SOCKET then last_wsa_error os
     else do {
       info \<leftarrow> sys os (Opt (Get_Protocol_Info s));
       if ret info \<noteq> 0 then do {
         err \<leftarrow> last_wsa_error os;
         sys os (Ws (Closesocket s));
         State_Monad.return err }
       else do {
         acc \<leftarrow> deref_sock accept_socket;
         upd_sock acc (\<lambda>x. x\<lparr>ws_addr_family := af_of_int (out0 info), ws_sock_type := st_of_int (out1 info),
           ws_protocol := pr_of_int (out2 info), ws_socket := s\<rparr>);
         alive \<leftarrow> lock_core (ws_io_core me);
         if alive then do {
           h \<leftarrow> associate_handle os (ws_io_core me) s;
           upd_sock acc (\<lambda>x. x\<lparr>ws_io_handle := h\<rparr>);
           if h = nullptr then do {
             err \<leftarrow> last_error os;
             close os acc;
             State_Monad.return err }
           else do {
             upd_sock acc (\<lambda>x. x\<lparr>ws_is_bound := True\<rparr>);
             State_Monad.return Success } }
         else do {
           close os acc;
           State_Monad.return SystemError } } } }"

definition connect :: "'o os \<Rightarrow> sock_id \<Rightarrow> Endpoint \<Rightarrow> ('o, ErrorCode) prog" where
  "connect os this dst = do {
     s \<leftarrow> read_sock this;
     (err, peer_win_addr) \<leftarrow> lift_cpp (SystemError, zero_storage) (endpoint_to_sockaddr (ws_addr_family s) dst);
     if err \<noteq> Success then State_Monad.return err
     else do {
       r \<leftarrow> sys os (Ws (Ws_connect (ws_socket s) peer_win_addr sizeof_sockaddr));
       if ret r \<noteq> 0 then last_wsa_error os
       else do {
         upd_sock this (\<lambda>s. s\<lparr>ws_is_bound := True\<rparr>);
         State_Monad.return Success } } }"

section \<open>Data\<close>

text \<open>The size of a span as the \<open>int\<close> length argument.\<close>

definition span_len :: "span \<Rightarrow> int" where
  "span_len sp = to_int32 (int (sp_size sp))"

text \<open>The bytes a successful receive has stored at the start of the buffer.\<close>

definition store_received :: "span \<Rightarrow> sysret \<Rightarrow> ('o, unit) prog" where
  "store_received sp r = modify (\<lambda>w. w\<lparr>umem := store_bytes (sp_data sp) (take (nat (ret r)) (buf0 r)) (umem w)\<rparr>)"

definition recv :: "'o os \<Rightarrow> sock_id \<Rightarrow> span \<Rightarrow> ('o, int) prog" where
  "recv os this buffer = do {
     s \<leftarrow> read_sock this;
     r \<leftarrow> sys os (Ws (Ws_recv (ws_socket s) (span_len buffer)));
     if ret r = SOCKET_ERROR then State_Monad.return (-1)
     else do {
       store_received buffer r;
       State_Monad.return (ret r) } }"

definition recv_from :: "'o os \<Rightarrow> sock_id \<Rightarrow> span \<Rightarrow> Endpoint \<Rightarrow> ('o, int \<times> Endpoint) prog" where
  "recv_from os this buffer peer = do {
     s \<leftarrow> read_sock this;
     r \<leftarrow> sys os (Ws (Ws_recvfrom (ws_socket s) (span_len buffer) sizeof_sockaddr));
     if ret r = SOCKET_ERROR then State_Monad.return (-1, peer)
     else do {
       store_received buffer r;
       let (err, peer') = sockaddr_to_endpoint (store_sockaddr (buf1 r) zero_storage) peer in
       if err \<noteq> Success then State_Monad.return (-1, peer')
       else State_Monad.return (ret r, peer') } }"

definition send :: "'o os \<Rightarrow> sock_id \<Rightarrow> span \<Rightarrow> ('o, int) prog" where
  "send os this data = do {
     s \<leftarrow> read_sock this;
     bytes \<leftarrow> gets (\<lambda>w. load_span w data);
     r \<leftarrow> sys os (Ws (Ws_send (ws_socket s) bytes (span_len data)));
     if ret r = SOCKET_ERROR then State_Monad.return (-1)
     else State_Monad.return (ret r) }"

definition send_to :: "'o os \<Rightarrow> sock_id \<Rightarrow> span \<Rightarrow> Endpoint \<Rightarrow> ('o, int) prog" where
  "send_to os this data dst = do {
     s \<leftarrow> read_sock this;
     (err, peer_win_addr) \<leftarrow> lift_cpp (SystemError, zero_storage) (endpoint_to_sockaddr (ws_addr_family s) dst);
     if err \<noteq> Success then State_Monad.return (-1)
     else do {
       bytes \<leftarrow> gets (\<lambda>w. load_span w data);
       r \<leftarrow> sys os (Ws (Ws_sendto (ws_socket s) bytes (span_len data) peer_win_addr sizeof_sockaddr));
       if ret r = SOCKET_ERROR then State_Monad.return (-1)
       else do {
         upd_sock this (\<lambda>s. s\<lparr>ws_is_bound := True\<rparr>);
         State_Monad.return (ret r) } } }"

section \<open>Options and names\<close>

definition set_socket_option ::
    "'o os \<Rightarrow> sock_id \<Rightarrow> SocketOptionLevel \<Rightarrow> SocketOption \<Rightarrow> span \<Rightarrow> ('o, ErrorCode) prog" where
  "set_socket_option os this level option value =
     (if sp_size value = 0 then State_Monad.return InvalidArgument
      else if lv_to_int level = -1 \<or> so_to_int option = -1 then State_Monad.return InvalidArgument
      else do {
        s \<leftarrow> read_sock this;
        bytes \<leftarrow> gets (\<lambda>w. load_span w value);
        r \<leftarrow> sys os (Opt (Setsockopt (ws_socket s) (lv_to_int level) (so_to_int option) bytes (span_len value)));
        if ret r \<noteq> 0 then last_wsa_error os else State_Monad.return Success })"

text \<open>The second component is \<open>value_size_out\<close>; \<open>out0\<close> is the length the system reports.\<close>

definition get_socket_option ::
    "'o os \<Rightarrow> sock_id \<Rightarrow> SocketOptionLevel \<Rightarrow> SocketOption \<Rightarrow> span \<Rightarrow> u64 \<Rightarrow> ('o, ErrorCode \<times> u64) prog" where
  "get_socket_option os this level option value value_size_out =
     (if lv_to_int level = -1 \<or> so_to_int option = -1 then State_Monad.return (InvalidArgument, value_size_out)
      else do {
        s \<leftarrow> read_sock this;
        r \<leftarrow> sys os (Opt (Getsockopt (ws_socket s) (lv_to_int level) (so_to_int option) (span_len value)));
        modify (\<lambda>w. w\<lparr>umem := store_bytes (sp_data value) (buf0 r) (umem w)\<rparr>);
        if ret r \<noteq> 0 then do {
          err \<leftarrow> last_wsa_error os;
          State_Monad.return (err, value_size_out) }
        else State_Monad.return (Success, word_of_int (out0 r)) })"

definition name_query :: "'o os \<Rightarrow> (NativeHandle \<Rightarrow> int \<Rightarrow> ws_call) \<Rightarrow> sock_id \<Rightarrow> Endpoint \<Rightarrow> ('o, ErrorCode \<times> Endpoint) prog" where
  "name_query os query this ep = do {
     s \<leftarrow> read_sock this;
     r \<leftarrow> sys os (Ws (query (ws_socket s) sizeof_sockaddr));
     if ret r = SOCKET_ERROR then do {
       err \<leftarrow> last_wsa_error os;
       State_Monad.return (err, ep) }
     else State_Monad.return (sockaddr_to_endpoint (store_sockaddr (buf0 r) zero_storage) ep) }"

definition get_sock_name :: "'o os \<Rightarrow> sock_id \<Rightarrow> Endpoint \<Rightarrow> ('o, ErrorCode \<times> Endpoint) prog" where
  "get_sock_name os = name_query os Getsockname"

definition get_peer_name :: "'o os \<Rightarrow> sock_id \<Rightarrow> Endpoint \<Rightarrow> ('o, ErrorCode \<times> Endpoint) prog" where
  "get_peer_name os = name_query os Getpeername"

section \<open>Resources\<close>

text \<open>
  The native handles and thread pool objects a piece of trace obtains from the system and gives
  back, and those a socket object holds.
\<close>

fun opened_by :: "syscall \<times> sysret \<Rightarrow> NativeHandle list" where
  "opened_by (Ws (WSASocketW f t p), r) = filter (\<lambda>h. h \<noteq> INVALID_SOCKET) [word_of_int (ret r)]"
| "opened_by (Ws (Ws_accept s l), r) = filter (\<lambda>h. h \<noteq> INVALID_SOCKET) [word_of_int (ret r)]"
| "opened_by _ = []"

fun closed_by :: "syscall \<times> sysret \<Rightarrow> NativeHandle list" where
  "closed_by (Ws (Closesocket h), r) = [h]"
| "closed_by _ = []"

fun io_opened_by :: "syscall \<times> sysret \<Rightarrow> ptr list" where
  "io_opened_by (Io (CreateThreadpoolIo h c), r) = filter (\<lambda>p. p \<noteq> nullptr) [word_of_int (ret r)]"
| "io_opened_by _ = []"

fun io_closed_by :: "syscall \<times> sysret \<Rightarrow> ptr list" where
  "io_closed_by (Io (CloseThreadpoolIo p), r) = [p]"
| "io_closed_by _ = []"

definition opened :: "(syscall \<times> sysret) list \<Rightarrow> NativeHandle multiset" where
  "opened tr = mset (concat (map opened_by tr))"

definition closed :: "(syscall \<times> sysret) list \<Rightarrow> NativeHandle multiset" where
  "closed tr = mset (concat (map closed_by tr))"

definition io_opened :: "(syscall \<times> sysret) list \<Rightarrow> ptr multiset" where
  "io_opened tr = mset (concat (map io_opened_by tr))"

definition io_closed :: "(syscall \<times> sysret) list \<Rightarrow> ptr multiset" where
  "io_closed tr = mset (concat (map io_closed_by tr))"

definition held :: "WinSocket \<Rightarrow> NativeHandle multiset" where
  "held s = (if ws_socket s = INVALID_SOCKET then {#} else {#ws_socket s#})"

definition io_held :: "WinSocket \<Rightarrow> ptr multiset" where
  "io_held s = (if ws_io_handle s = nullptr then {#} else {#ws_io_handle s#})"

text \<open>The two states of a socket object: without and with a native handle and its I/O object.\<close>

definition fresh :: "WinSocket \<Rightarrow> bool" where
  "fresh s \<longleftrightarrow> ws_socket s = INVALID_SOCKET \<and> ws_io_handle s = nullptr"

definition created :: "WinSocket \<Rightarrow> bool" where
  "created s \<longleftrightarrow> ws_socket s \<noteq> INVALID_SOCKET \<and> ws_io_handle s \<noteq> nullptr"

text \<open>Nothing but sockets, the caller's memory and the trace of the system has changed.\<close>

definition mem_frame :: "'o world \<Rightarrow> 'o world \<Rightarrow> bool" where
  "mem_frame w w' \<longleftrightarrow>
     io_heap w' = io_heap w \<and> fn_heap w' = fn_heap w \<and> next_addr w' = next_addr w \<and>
     inflight w' = inflight w \<and> posted w' = posted w \<and> invoked w' = invoked w \<and> cores w' = cores w \<and>
     lpfn_accept_ex w' = lpfn_accept_ex w \<and> lpfn_get_accept_ex_sockaddrs w' = lpfn_get_accept_ex_sockaddrs w \<and>
     lpfn_connect_ex w' = lpfn_connect_ex w \<and> lpfn_disconnect_ex w' = lpfn_disconnect_ex w"

text \<open>The system calls of a run from \<open>w\<close> to \<open>w'\<close>.\<close>

definition new_trace :: "'o world \<Rightarrow> 'o world \<Rightarrow> (syscall \<times> sysret) list" where
  "new_trace w w' = drop (length (os_trace w)) (os_trace w')"

text \<open>A run has changed at most the object \<open>this\<close>, and has not faulted.\<close>

definition only_sock :: "sock_id \<Rightarrow> 'o world \<Rightarrow> 'o world \<Rightarrow> bool" where
  "only_sock this w w' \<longleftrightarrow>
     sockets w' = (sockets w)(this \<mapsto> sock w' this) \<and> faults w' = faults w \<and> mem_frame w w' \<and>
     os_trace w' = os_trace w @ new_trace w w'"

section \<open>Lemmas\<close>

lemma resources_Nil [simp]: "opened [] = {#}" "closed [] = {#}" "io_opened [] = {#}" "io_closed [] = {#}"
  by (simp_all add: opened_def closed_def io_opened_def io_closed_def)

lemma resources_Cons [simp]:
  "opened (e # tr) = mset (opened_by e) + opened tr" "closed (e # tr) = mset (closed_by e) + closed tr"
  "io_opened (e # tr) = mset (io_opened_by e) + io_opened tr"
  "io_closed (e # tr) = mset (io_closed_by e) + io_closed tr"
  by (simp_all add: opened_def closed_def io_opened_def io_closed_def)

lemma run_last_wsa_error [simp, exec]:
  "run_state (last_wsa_error os) w =
     (ec_of_int (ret (sys_ret os WSAGetLastError w)), after os WSAGetLastError w)"
  by (simp add: last_wsa_error_def)

lemma run_last_error [simp, exec]:
  "run_state (last_error os) w =
     (ec_of_int (to_int32 (ret (sys_ret os GetLastError w))), after os GetLastError w)"
  by (simp add: last_error_def)

lemma run_associate_handle [simp, exec]:
  "run_state (associate_handle os core h) w =
     (word_of_int (ret (sys_ret os (Io (CreateThreadpoolIo h core)) w)), after os (Io (CreateThreadpoolIo h core)) w)"
  by (simp add: associate_handle_def)

lemma run_deref_sock [simp, exec]: "run_state (deref_sock (Some s)) w = (s, w)"
  by (simp add: deref_sock_def)

lemmas sync_defs = bind_ep_def listen_def shutdown_def connect_def recv_def recv_from_def send_def
  send_to_def set_socket_option_def get_socket_option_def name_query_def get_sock_name_def
  get_peer_name_def store_received_def

lemma fresh_default [simp]: "fresh (WinSocket_default c)"
  by (simp add: fresh_def WinSocket_default_def)

lemma held_simps [simp]:
  "fresh s \<Longrightarrow> held s = {#}" "fresh s \<Longrightarrow> io_held s = {#}"
  "created s \<Longrightarrow> held s = {#ws_socket s#}" "created s \<Longrightarrow> io_held s = {#ws_io_handle s#}"
  by (simp_all add: fresh_def created_def held_def io_held_def)

lemma mem_frame_refl [simp]: "mem_frame w w"
  by (simp add: mem_frame_def)

subsection \<open>close\<close>

text \<open>What \<open>close\<close> does to an object that is there: the calls it makes and the state it leaves.\<close>

definition close_calls :: "WinSocket \<Rightarrow> syscall list" where
  "close_calls s =
     (if ws_io_handle s \<noteq> nullptr
      then [Io (WaitForThreadpoolIoCallbacks (ws_io_handle s) False), Io (CloseThreadpoolIo (ws_io_handle s))]
      else []) @
     (if ws_socket s \<noteq> INVALID_SOCKET then [Ws (Closesocket (ws_socket s))] else [])"

lemma close_run:
  assumes s: "sockets w this = Some s" and run: "run_state (close os this) w = (err, w')"
  shows "only_sock this w w'" "sock w' this = WinSocket_default (ws_io_core s)" "umem w' = umem w"
    "opened (new_trace w w') = {#}" "closed (new_trace w w') = held s"
    "io_opened (new_trace w w') = {#}" "io_closed (new_trace w w') = io_held s"
  using run
  by (auto simp: close_def exec s sock_Some WinSocket_default_def only_sock_def new_trace_def mem_frame_def
      held_def io_held_def split: if_splits)

lemma close_fresh:
  assumes "sockets w this = Some (WinSocket_default c)"
  shows "run_state (close os this) w = (Success, w)"
proof -
  have "(sockets w)(this \<mapsto> WinSocket_default c) = sockets w" using assms by (simp add: fun_upd_idem)
  then show ?thesis
    using assms by (simp add: close_def exec sock_Some) (simp add: WinSocket_default_def)
qed

lemma close_error:
  assumes "wsa_contract os" and "sockets w this = Some s" and "run_state (close os this) w = (err, w')"
  shows "err = Success \<longleftrightarrow>
    (\<forall>r. (Ws (Closesocket (ws_socket s)), r) \<in> set (new_trace w w') \<longrightarrow> ret r \<noteq> SOCKET_ERROR)"
  using assms wsa_contractD [OF assms(1), of "Closesocket (ws_socket s)"]
  by (auto simp: close_def exec sock_Some wsa_fails_def new_trace_def split: if_splits)

subsection \<open>socket and accept\<close>

lemma socket_run:
  assumes s: "sockets w this = Some s" and c: "wsa_contract os" "tpio_contract os"
    and run: "run_state (socket os this family type proto) w = (err, w')"
  shows "only_sock this w w'"
    "opened (new_trace w w') = closed (new_trace w w') + held (sock w' this)"
    "io_closed (new_trace w w') = {#}"
    "if err = Success
     then created (sock w' this) \<and> io_opened (new_trace w w') = io_held (sock w' this) \<and>
       closed (new_trace w w') = {#} \<and>
       ws_addr_family (sock w' this) = family \<and> ws_sock_type (sock w' this) = type \<and>
       ws_protocol (sock w' this) = proto \<and> ws_io_core (sock w' this) = ws_io_core s
     else io_opened (new_trace w w') = {#} \<and> (fresh s \<longrightarrow> sock w' this = s)"
  using run wsa_contractD [OF c(1)] tpio_contractD [OF c(2)]
  by (auto simp: socket_def exec s sock_Some only_sock_def new_trace_def mem_frame_def wsa_fails_def held_def
      io_held_def created_def fresh_def split: if_splits)

lemma accept_run:
  assumes m: "sockets w this = Some me" and a: "sockets w acc = Some s" and ne: "acc \<noteq> this" and f: "fresh s"
    and c: "wsa_contract os" "opt_contract os" "tpio_contract os"
    and run: "run_state (accept os this (Some acc)) w = (err, w')"
  shows "only_sock acc w w'"
    "opened (new_trace w w') = closed (new_trace w w') + held (sock w' acc)"
    "io_opened (new_trace w w') = io_closed (new_trace w w') + io_held (sock w' acc)"
    "if err = Success then created (sock w' acc) \<and> ws_is_bound (sock w' acc) else fresh (sock w' acc)"
proof -
  let ?c1 = "Ws_accept (ws_socket me) sizeof_sockaddr"
  let ?w1 = "after os (Ws ?c1) w"
  let ?h = "word_of_int (ret (sys_ret os (Ws ?c1) w)) :: NativeHandle"
  let ?c2 = "Get_Protocol_Info ?h"
  let ?w2 = "after os (Opt ?c2) ?w1"
  let ?c3 = "CreateThreadpoolIo ?h (ws_io_core me)"
  have e1: "?h = INVALID_SOCKET \<Longrightarrow> ret (sys_ret os WSAGetLastError ?w1) \<noteq> 0"
    using wsa_contractD [OF c(1), of ?c1 w] by (simp add: wsa_fails_def)
  have e2: "ret (sys_ret os (Opt ?c2) ?w1) \<noteq> 0 \<Longrightarrow> ret (sys_ret os WSAGetLastError ?w2) \<noteq> 0"
    using c(2) unfolding opt_contract_def by blast
  have e3: "(word_of_int (ret (sys_ret os (Io ?c3) x)) :: ptr) = nullptr \<Longrightarrow>
      to_int32 (ret (sys_ret os GetLastError (after os (Io ?c3) x))) \<noteq> 0" for x
    by (rule tpio_contractD [OF c(3)])
  from run e1 e2 e3 show "only_sock acc w w'"
    "opened (new_trace w w') = closed (new_trace w w') + held (sock w' acc)"
    "io_opened (new_trace w w') = io_closed (new_trace w w') + io_held (sock w' acc)"
    "if err = Success then created (sock w' acc) \<and> ws_is_bound (sock w' acc) else fresh (sock w' acc)"
    using m a ne f
    by (auto simp: accept_def close_def exec sock_Some only_sock_def new_trace_def mem_frame_def Let_def
        held_def io_held_def created_def fresh_def split: if_splits)
qed

subsection \<open>The other operations\<close>

lemma bind_run:
  assumes s: "sockets w this = Some s" and c: "wsa_contract os"
    and ep: "endpoint_to_sockaddr (ws_addr_family s) ep = Ret (Success, sa)"
    and run: "run_state (bind_ep os this ep) w = (err, w')"
  shows "only_sock this w w'"
    "err = Success \<longleftrightarrow> ret (sys_ret os (Ws (Ws_bind (ws_socket s) sa sizeof_sockaddr)) w) = 0"
    "sock w' this = (if err = Success then s\<lparr>ws_is_bound := True\<rparr> else s)"
    "(Ws (Ws_bind (ws_socket s) sa sizeof_sockaddr), sys_ret os (Ws (Ws_bind (ws_socket s) sa sizeof_sockaddr)) w) \<in> set (new_trace w w')"
  using run wsa_contractD [OF c, of "Ws_bind (ws_socket s) sa sizeof_sockaddr" w]
  by (auto simp: bind_ep_def exec s sock_Some ep only_sock_def new_trace_def mem_frame_def wsa_fails_def
      fun_upd_idem split: if_splits)

lemma to_int32_le: "0 \<le> i \<Longrightarrow> to_int32 i \<le> i"
proof -
  assume i: "0 \<le> i"
  have "to_int32 i \<le> take_bit (Suc 31) i"
    unfolding to_int32_def signed_take_bit_eq_take_bit_minus by simp
  also have "\<dots> \<le> i" using i by (simp add: take_bit_int_less_eq_self_iff)
  finally show ?thesis .
qed

lemma store_bytes_outside: "i < a \<or> a + length bs \<le> i \<Longrightarrow> store_bytes a bs m i = m i"
  by (auto simp: store_bytes_def)

lemma store_bytes_inside: "i < length bs \<Longrightarrow> store_bytes a bs m (a + i) = bs ! i"
  by (simp add: store_bytes_def)

lemma store_sockaddr_full [simp]: "length sa = 128 \<Longrightarrow> store_sockaddr sa zero_storage = sa"
  by (simp add: store_sockaddr_def sockaddr_size_def)

section \<open>Properties\<close>

text \<open>C26. \<open>socket()\<close> on an object without a handle: it never faults and touches no other object.  On
  success the object holds exactly the native handle and the I/O object obtained from the system
  and the requested family, type and protocol; on every failure (no handle, no I/O object, the core
  gone) the object is as before and whatever was obtained has been closed.\<close>

theorem socket_establishes:
  assumes "wsa_contract os" and "tpio_contract os" and "sockets w this = Some s" and "fresh s"
    and "run_state (socket os this family type proto) w = (err, w')"
  shows "only_sock this w w' \<and>
    opened (new_trace w w') = closed (new_trace w w') + held (sock w' this) \<and>
    io_opened (new_trace w w') = io_closed (new_trace w w') + io_held (sock w' this) \<and>
    (if err = Success
     then created (sock w' this) \<and> ws_addr_family (sock w' this) = family \<and>
       ws_sock_type (sock w' this) = type \<and> ws_protocol (sock w' this) = proto
     else sock w' this = s)"
  using socket_run [OF assms(3,1,2,5)] assms(4) by (simp split: if_splits)

theorem socket_establishes_witness:
  "created (sock (snd (run_state (socket sample_os 0 AF_IPv4 ST_Stream Pr_Tcp)
      (sample_world [WinSocket_default 0]))) 0)"
proof -
  let ?w = "sample_world [WinSocket_default 0]"
  have s: "sockets ?w 0 = Some (WinSocket_default 0)" by (simp add: sample_world_def)
  obtain err w' where run: "run_state (socket sample_os 0 AF_IPv4 ST_Stream Pr_Tcp) ?w = (err, w')"
    by fastforce
  then have "err = Success"
    by (simp add: socket_def exec s sock_Some sample_os_def split: if_splits)
      (simp_all add: sample_world_def WinSocket_default_def)
  then show ?thesis
    using socket_establishes [OF sample_contracts(3,5) s fresh_default run] run by simp
qed

text \<open>C27. \<open>close()\<close> gives back exactly what the object holds, in every state: the native handle is
  closed once if there is one, likewise the I/O object, and the object is as newly constructed
  (so it can be used again).  The error code is that of \<open>closesocket\<close>, and closing again makes no
  system call and succeeds.\<close>

theorem close_releases:
  assumes "wsa_contract os" and "sockets w this = Some s" and "run_state (close os this) w = (err, w')"
  shows "only_sock this w w' \<and> sock w' this = WinSocket_default (ws_io_core s) \<and>
    opened (new_trace w w') = {#} \<and> closed (new_trace w w') = held s \<and>
    io_opened (new_trace w w') = {#} \<and> io_closed (new_trace w w') = io_held s \<and>
    (err = Success \<longleftrightarrow>
       (\<forall>r. (Ws (Closesocket (ws_socket s)), r) \<in> set (new_trace w w') \<longrightarrow> ret r \<noteq> SOCKET_ERROR)) \<and>
    run_state (close os this) w' = (Success, w')"
proof -
  note r = close_run [OF assms(2,3)]
  from r(1,2) have "sockets w' this = Some (WinSocket_default (ws_io_core s))"
    unfolding only_sock_def by simp
  then have "run_state (close os this) w' = (Success, w')" by (rule close_fresh)
  then show ?thesis using r close_error [OF assms] by simp
qed

theorem close_releases_witness:
  "closed (new_trace (sample_world [sample_socket]) (snd (run_state (close sample_os 0) (sample_world [sample_socket]))))
     = {#100#}"
proof -
  let ?w = "sample_world [sample_socket]"
  have s: "sockets ?w 0 = Some sample_socket" by (simp add: sample_world_def)
  obtain err w' where run: "run_state (close sample_os 0) ?w = (err, w')" by fastforce
  show ?thesis
    using close_releases [OF sample_contracts(3) s run] run by (simp add: held_def sample_socket_def)
qed

text \<open>C28. \<open>accept()\<close> into another object without a handle: no fault, nothing but that object changes, and
  every handle and I/O object obtained is either held by it or has been closed.  It holds a bound,
  complete connection exactly on success and is without a handle after any error, including the
  failure to query the protocol and the failure to associate the handle with the thread pool.\<close>

theorem accept_conserves:
  assumes "wsa_contract os" and "opt_contract os" and "tpio_contract os"
    and "sockets w this = Some me" and "sockets w acc = Some s" and "acc \<noteq> this" and "fresh s"
    and "run_state (accept os this (Some acc)) w = (err, w')"
  shows "only_sock acc w w' \<and>
    opened (new_trace w w') = closed (new_trace w w') + held (sock w' acc) \<and>
    io_opened (new_trace w w') = io_closed (new_trace w w') + io_held (sock w' acc) \<and>
    (if err = Success then created (sock w' acc) \<and> ws_is_bound (sock w' acc) else fresh (sock w' acc))"
  using accept_run [OF assms(4-7,1-3,8)] by simp

theorem accept_conserves_witness:
  "faults (snd (run_state (accept sample_os 0 (Some 1)) (sample_world [sample_socket, WinSocket_default 0]))) = []"
proof -
  let ?w = "sample_world [sample_socket, WinSocket_default 0]"
  have s: "sockets ?w 0 = Some sample_socket" "sockets ?w 1 = Some (WinSocket_default 0)"
    by (simp_all add: sample_world_def)
  obtain err w' where run: "run_state (accept sample_os 0 (Some 1)) ?w = (err, w')" by fastforce
  have "only_sock 1 ?w w'"
    using accept_conserves [OF sample_contracts(3,4,5) s _ fresh_default run] by simp
  then show ?thesis using run by (simp add: only_sock_def sample_world_def)
qed

text \<open>A second \<open>socket()\<close> on an object that already has a handle overwrites it: when the call
  succeeds, nothing has been closed and the object holds only what was newly opened, so the first
  handle and its I/O object are lost.\<close>

theorem socket_again_loses_handle:
  assumes "wsa_contract os" and "tpio_contract os" and "sockets w this = Some s" and "created s"
    and "run_state (socket os this family type proto) w = (Success, w')"
  shows "closed (new_trace w w') = {#} \<and> io_closed (new_trace w w') = {#} \<and>
    held (sock w' this) = opened (new_trace w w') \<and> io_held (sock w' this) = io_opened (new_trace w w') \<and>
    held s \<noteq> {#} \<and> io_held s \<noteq> {#}"
  using socket_run [OF assms(3,1,2,5)] assms(4) by simp

theorem socket_again_loses_handle_witness:
  "\<exists>w'. run_state (socket sample_os 0 AF_IPv4 ST_Stream Pr_Tcp) (sample_world [sample_socket]) = (Success, w') \<and>
     closed (new_trace (sample_world [sample_socket]) w') = {#}"
proof -
  let ?w = "sample_world [sample_socket]"
  have s: "sockets ?w 0 = Some sample_socket" by (simp add: sample_world_def)
  obtain err w' where run: "run_state (socket sample_os 0 AF_IPv4 ST_Stream Pr_Tcp) ?w = (err, w')"
    by fastforce
  then have ok: "err = Success"
    by (simp add: socket_def exec s sock_Some sample_os_def split: if_splits)
      (simp_all add: sample_world_def sample_socket_def)
  have "created sample_socket" by (simp add: created_def sample_socket_def)
  with ok show ?thesis
    using socket_again_loses_handle [OF sample_contracts(3,5) s _ run [unfolded ok]] run by simp
qed

text \<open>The destructor closes the I/O object but never the native handle: whatever the state of the
  object, no \<open>closesocket\<close> is made, so an object destroyed without \<open>close()\<close> leaks its handle.\<close>

theorem destroy_keeps_handle_open:
  assumes "sockets w this = Some s" and "run_state (win_socket_destroy os this) w = (u, w')"
  shows "sockets w' = (sockets w)(this := None) \<and> faults w' = faults w \<and>
    closed (new_trace w w') = {#} \<and> io_closed (new_trace w w') = io_held s"
  using assms
  by (auto simp: win_socket_destroy_def exec sock_Some new_trace_def io_held_def split: if_splits)

theorem destroy_keeps_handle_open_witness:
  "closed (new_trace (sample_world [sample_socket])
     (snd (run_state (win_socket_destroy sample_os 0) (sample_world [sample_socket])))) = {#}"
proof -
  obtain u w' where run: "run_state (win_socket_destroy sample_os 0) (sample_world [sample_socket]) = (u, w')"
    using surj_pair by metis
  then show ?thesis
    using destroy_keeps_handle_open [OF _ run, of sample_socket] by (simp add: sample_world_def)
qed

text \<open>C30. \<open>bind()\<close> and \<open>connect()\<close> with an endpoint of the socket's family: one system call on the
  socket's handle, with the structure that encodes the endpoint and its size.  When it returns 0 the
  result is \<open>Success\<close> and the object is marked as bound; otherwise the result is the error that
  \<open>WSAGetLastError\<close> gives, asked once right after, and the object is unchanged.\<close>

theorem bind_connect_exact:
  assumes "sockets w this = Some s" and "matches_family (ws_addr_family s) ep" and "wf_endpoint ep"
    and "op = bind_ep os \<and> call = Ws_bind \<or> op = connect os \<and> call = Ws_connect"
    and "run_state (op this ep) w = (err, w')"
  shows "\<exists>sa r. sockaddr_to_endpoint sa out = (Success, ep) \<and> only_sock this w w' \<and>
    (if ret r = 0 then new_trace w w' = [(Ws (call (ws_socket s) sa sizeof_sockaddr), r)] \<and> err = Success \<and>
        sock w' this = s\<lparr>ws_is_bound := True\<rparr>
     else \<exists>e. new_trace w w' = [(Ws (call (ws_socket s) sa sizeof_sockaddr), r), (WSAGetLastError, e)] \<and>
        err = ec_of_int (ret e) \<and> sock w' this = s)"
proof -
  obtain sa where sa: "endpoint_to_sockaddr (ws_addr_family s) ep = Ret (Success, sa)"
    and dec: "sockaddr_to_endpoint sa out = (Success, ep)"
    using encode_matching [OF assms(2,3)] by metis
  let ?r = "sys_ret os (Ws (call (ws_socket s) sa sizeof_sockaddr)) w"
  show ?thesis
    by (intro exI [of _ sa] exI [of _ ?r] conjI dec)
      (use assms(1,4,5) sa in \<open>auto simp: bind_ep_def connect_def exec sock_Some only_sock_def new_trace_def mem_frame_def
        last_wsa_error_def fun_upd_idem split: if_splits\<close>)
qed

theorem bind_connect_exact_witness:
  "ws_is_bound (sock (snd (run_state (bind_ep sample_os 0 (Ep_V4 (IPv4Address_loopback 63000)))
     (sample_world [sample_socket]))) 0)"
proof -
  let ?w = "sample_world [sample_socket]" and ?ep = "Ep_V4 (IPv4Address_loopback 63000)"
  have s: "sockets ?w 0 = Some sample_socket" by (simp add: sample_world_def)
  have m: "matches_family (ws_addr_family sample_socket) ?ep" by (simp add: sample_socket_def)
  obtain err w' where run: "run_state (bind_ep sample_os 0 ?ep) ?w = (err, w')" by fastforce
  obtain sa where sa: "endpoint_to_sockaddr (ws_addr_family sample_socket) ?ep = Ret (Success, sa)"
    using encode_matching [OF m] by auto
  have "length (new_trace ?w w') = 1"
    using run by (auto simp: bind_ep_def exec s sock_Some sa sample_os_def new_trace_def)
  then show ?thesis
    using bind_connect_exact [OF s m _ disjI1 [OF conjI [OF refl refl]] run, of Ep_Uninit] run
    by (auto split: if_splits)
qed

text \<open>
  What \<open>recv\<close> of the system promises: it fails, or it stores and reports at most as many bytes as it
  was allowed; with a negative length it can only fail.
\<close>

definition recv_contract :: "'o os \<Rightarrow> bool" where
  "recv_contract os \<longleftrightarrow> (\<forall>h n w. let r = sys_ret os (Ws (Ws_recv h n)) w in
     ret r = SOCKET_ERROR \<or> 0 \<le> ret r \<and> ret r \<le> n \<and> length (buf0 r) = nat (ret r))"


text \<open>A system that delivers three bytes to whoever has room for them.\<close>

definition chatty_os :: "unit os" where
  "chatty_os c u =
     (case c of Ws (Ws_recv h n) \<Rightarrow> (if n < 3 then answer SOCKET_ERROR False else (answer 3 False)\<lparr>buf0 := [7, 8, 9]\<rparr>, u)
      | _ \<Rightarrow> sample_os c u)"


end
