(* ===== verification/Win_Disconnect.thy ===== *)
theory Win_Disconnect
  imports Win_Socket
begin

text \<open>
  \<open>WinSocket::disconnect\<close>: the sending side is shut down, then what the peer still sends is read
  and dropped until the peer closes, an error occurs, or the timeout has passed.  The loop is a
  \<open>partial_function\<close>, so that a loop that does not end has the value \<open>None\<close>; with a timeout, and a
  system whose clock advances, it is shown to end.  Times are 64-bit tick counts and their
  differences wrap around as in the source.
\<close>

section \<open>Definitions\<close>

definition SCRAP_BUF_LEN :: int where "SCRAP_BUF_LEN = 512"
definition SD_SEND :: int where "SD_SEND = 1"

text \<open>The \<open>TIMEVAL\<close> given to \<open>select\<close>: the time left in seconds and microseconds, none for a timeout of 0.\<close>

definition select_timeout :: "int \<Rightarrow> u64 \<Rightarrow> (int \<times> int) option" where
  "select_timeout timeout_ms elapsed =
     (let new_timeout = word_of_int timeout_ms - elapsed;
          tv_sec = to_int32 (uint (new_timeout div 1000));
          tv_usec = to_int32 (uint (new_timeout mod 1000 * 1000))
      in if timeout_ms = 0 then None else Some (tv_sec, tv_usec))"

text \<open>One round of the loop: \<open>Some\<close> is the value the function returns.\<close>

definition disconnect_round :: "'o os \<Rightarrow> NativeHandle \<Rightarrow> int \<Rightarrow> u64 \<Rightarrow> ('o, ErrorCode option) prog" where
  "disconnect_round os s timeout_ms operation_start_time = do {
     t \<leftarrow> sys os GetTickCount64;
     let elapsed = word_of_int (ret t) - operation_start_time;
     if timeout_ms \<noteq> 0 \<and> elapsed \<ge> word_of_int timeout_ms then State_Monad.return (Some TimedOut)
     else do {
       res \<leftarrow> sys os (Ws (Ws_select s (select_timeout timeout_ms elapsed)));
       if ret res > 0 then do {
         r \<leftarrow> sys os (Ws (Ws_recv s SCRAP_BUF_LEN));
         if ret r = SOCKET_ERROR then do { e \<leftarrow> last_wsa_error os; State_Monad.return (Some e) }
         else if ret r = 0 then State_Monad.return (Some Success)
         else State_Monad.return None }
       else if ret res = SOCKET_ERROR then do { e \<leftarrow> last_wsa_error os; State_Monad.return (Some e) }
       else State_Monad.return None } }"

partial_function (option) disconnect_loop ::
    "'o os \<Rightarrow> NativeHandle \<Rightarrow> int \<Rightarrow> u64 \<Rightarrow> 'o world \<Rightarrow> (ErrorCode \<times> 'o world) option" where
  "disconnect_loop os s timeout_ms start w =
     (case run_state (disconnect_round os s timeout_ms start) w of
        (Some e, w') \<Rightarrow> Some (e, w')
      | (None, w') \<Rightarrow> disconnect_loop os s timeout_ms start w')"

definition disconnect :: "'o os \<Rightarrow> sock_id \<Rightarrow> int \<Rightarrow> 'o world \<Rightarrow> (ErrorCode \<times> 'o world) option" where
  "disconnect os this timeout_ms w =
     (let (me, w) = run_state (read_sock this) w;
          (r, w) = run_state (sys os (Ws (Ws_shutdown (ws_socket me) SD_SEND))) w
      in if ret r \<noteq> 0 then Some (run_state (last_wsa_error os) w)
         else (let (t, w) = run_state (sys os GetTickCount64) w
               in disconnect_loop os (ws_socket me) timeout_ms (word_of_int (ret t)) w))"

section \<open>The clock\<close>

text \<open>
  What \<open>GetTickCount64\<close> is documented to return: the ticks of a clock that does not go back and
  fits 64 bits.  Waiting takes time: every \<open>select\<close> advances the underlying clock, of which a
  tick is \<open>res\<close> units, until the end of the 64-bit range.
\<close>

definition clock_contract :: "'o os \<Rightarrow> ('o \<Rightarrow> nat) \<Rightarrow> nat \<Rightarrow> bool" where
  "clock_contract os time res \<longleftrightarrow> 0 < res \<and>
     (\<forall>s. time s div res < 2 ^ 64) \<and>
     (\<forall>s. ret (fst (os GetTickCount64 s)) = int (time s div res)) \<and>
     (\<forall>c s. time s \<le> time (snd (os c s))) \<and>
     (\<forall>h t s. Suc (time s div res) < 2 ^ 64 \<longrightarrow> time s < time (snd (os (Ws (Ws_select h t)) s)))"

lemma clock_contractD:
  assumes "clock_contract os time res"
  shows "0 < res" "time s div res < 2 ^ 64" "ret (fst (os GetTickCount64 s)) = int (time s div res)"
    "time s \<le> time (snd (os c s))"
    "Suc (time s div res) < 2 ^ 64 \<Longrightarrow> time s < time (snd (os (Ws (Ws_select h t)) s))"
  using assms by (simp_all add: clock_contract_def)

lemma os_state_after [simp]: "os_state (after os c w) = snd (os c (os_state w))"
  by (simp add: after_def)

text \<open>The ticks since the start, while the clock is in range.\<close>

lemma elapsed_ticks:
  assumes "start \<le> now" "now < 2 ^ 64"
  shows "uint (word_of_int (int now) - word_of_int (int start) :: u64) = int (now - start)"
proof -
  have "word_of_int (int now) - word_of_int (int start) = (word_of_int (int (now - start)) :: u64)"
    using assms(1) by (simp only: of_int_diff of_nat_diff)
  then have "uint (word_of_int (int now) - word_of_int (int start) :: u64) = uint (word_of_int (int (now - start)) :: u64)"
    by (simp only:)
  also have "\<dots> = int (now - start)"
    unfolding uint_word_of_int_eq by (rule take_bit_int_eq_self) (use assms in simp_all)
  finally show ?thesis .
qed

text \<open>A round that goes on has found time left, and has advanced the clock.\<close>

lemma round_advances:
  assumes c: "clock_contract os time res" and t: "0 < timeout_ms" "timeout_ms < 2 ^ 31"
    and start: "start \<le> time (os_state w) div res" "start + nat timeout_ms < 2 ^ 64"
    and run: "run_state (disconnect_round os s timeout_ms (word_of_int (int start))) w = (None, w')"
  shows "time (os_state w) div res < start + nat timeout_ms" "time (os_state w) < time (os_state w')"
proof -
  let ?now = "time (os_state w) div res" and ?e = "word_of_int (int (time (os_state w) div res)) - word_of_int (int start) :: u64"
  have e: "uint ?e = int (?now - start)" by (rule elapsed_ticks [OF start(1) clock_contractD(2) [OF c]])
  have tm: "uint (word_of_int timeout_ms :: u64) = timeout_ms" using t by (simp add: unsigned_of_int take_bit_int_eq_self)
  have "\<not> word_of_int timeout_ms \<le> ?e"
    using run t by (auto simp: disconnect_round_def exec Let_def sys_ret_def clock_contractD(3) [OF c] split: if_splits)
  then have less: "int (?now - start) < timeout_ms" using e tm by (simp add: word_le_def)
  then show "?now < start + nat timeout_ms" by linarith
  with start(2) have in_range: "Suc (time (snd (os GetTickCount64 (os_state w))) div res) < 2 ^ 64 \<or>
      time (os_state w) < time (snd (os GetTickCount64 (os_state w)))"
    using clock_contractD(4) [OF c, of "os_state w" GetTickCount64] by (cases "time (os_state w) < time (snd (os GetTickCount64 (os_state w)))") auto
  let ?s1 = "snd (os GetTickCount64 (os_state w))"
  let ?t = "select_timeout timeout_ms ?e"
  have "os_state w' = snd (os (Ws (Ws_select s ?t)) ?s1) \<or>
      os_state w' = snd (os (Ws (Ws_recv s SCRAP_BUF_LEN)) (snd (os (Ws (Ws_select s ?t)) ?s1)))"
    using run by (auto simp: disconnect_round_def exec Let_def sys_ret_def clock_contractD(3) [OF c] split: if_splits)
  then have "time (snd (os (Ws (Ws_select s ?t)) ?s1)) \<le> time (os_state w')"
    using clock_contractD(4) [OF c] by auto
  moreover have "time (os_state w) < time (snd (os (Ws (Ws_select s ?t)) ?s1))"
    using in_range
  proof
    assume "Suc (time ?s1 div res) < 2 ^ 64"
    then have "time ?s1 < time (snd (os (Ws (Ws_select s ?t)) ?s1))" by (rule clock_contractD(5) [OF c])
    then show ?thesis using clock_contractD(4) [OF c, of "os_state w" GetTickCount64] by linarith
  next
    assume "time (os_state w) < time ?s1"
    then show ?thesis using clock_contractD(4) [OF c, of ?s1 "Ws (Ws_select s ?t)"] by linarith
  qed
  ultimately show "time (os_state w) < time (os_state w')" by linarith
qed

section \<open>Termination\<close>

lemma disconnect_loop_returns:
  assumes c: "clock_contract os time res" and t: "0 < timeout_ms" "timeout_ms < 2 ^ 31"
    and start: "start \<le> time (os_state w) div res" "start + nat timeout_ms < 2 ^ 64"
  shows "\<exists>e w'. disconnect_loop os s timeout_ms (word_of_int (int start)) w = Some (e, w')"
  using start(1)
proof (induction "res * (start + nat timeout_ms) - time (os_state w)" arbitrary: w rule: less_induct)
  case less
  obtain r w1 where run: "run_state (disconnect_round os s timeout_ms (word_of_int (int start))) w = (r, w1)" by fastforce
  show ?case
  proof (cases r)
    case None
    note a = round_advances [OF c t less(2) start(2) run [unfolded None]]
    have "time (os_state w) < res * (start + nat timeout_ms)"
      using a(1) clock_contractD(1) [OF c] by (simp add: div_less_iff_less_mult mult.commute)
    then have "res * (start + nat timeout_ms) - time (os_state w1) < res * (start + nat timeout_ms) - time (os_state w)"
      using a(2) by linarith
    moreover have "start \<le> time (os_state w1) div res"
      using less(2) a(2) div_le_mono [of "time (os_state w)" "time (os_state w1)" res] by linarith
    ultimately show ?thesis
      using less(1) [of w1] run None by (subst disconnect_loop.simps) simp
  next
    case (Some e)
    then show ?thesis using run by (subst disconnect_loop.simps) simp
  qed
qed

section \<open>What a return means\<close>

text \<open>The loop satisfies what every round keeps and every last round establishes.\<close>

lemma disconnect_loop_induct:
  assumes "disconnect_loop os s timeout_ms start w = Some y" and "I w"
    and "\<forall>w w1. I w \<longrightarrow> run_state (disconnect_round os s timeout_ms start) w = (None, w1) \<longrightarrow> I w1"
    and "\<forall>w e w1. I w \<longrightarrow> run_state (disconnect_round os s timeout_ms start) w = (Some e, w1) \<longrightarrow> Q e w1"
  shows "Q (fst y) (snd y)"
proof -
  let ?round = "\<lambda>os s timeout_ms start. run_state (disconnect_round os s timeout_ms start)"
  let ?P = "\<lambda>os s timeout_ms start w y. I w \<longrightarrow>
      (\<forall>w w1. I w \<longrightarrow> ?round os s timeout_ms start w = (None, w1) \<longrightarrow> I w1) \<longrightarrow>
      (\<forall>w e w1. I w \<longrightarrow> ?round os s timeout_ms start w = (Some e, w1) \<longrightarrow> Q e w1) \<longrightarrow> Q (fst y) (snd y)"
  have "?P os s timeout_ms start w y"
  proof (rule disconnect_loop.raw_induct [where P = ?P, OF _ assms(1)], intro impI)
    fix loop os s timeout_ms start w y
    assume ih: "\<And>os s timeout_ms start w y. loop os s timeout_ms start w = Some y \<Longrightarrow> ?P os s timeout_ms start w y"
      and body: "(case ?round os s timeout_ms start w of (Some e, w') \<Rightarrow> Some (e, w')
        | (None, w') \<Rightarrow> loop os s timeout_ms start w') = Some y"
      and i: "I w" and more: "\<forall>w w1. I w \<longrightarrow> ?round os s timeout_ms start w = (None, w1) \<longrightarrow> I w1"
      and last: "\<forall>w e w1. I w \<longrightarrow> ?round os s timeout_ms start w = (Some e, w1) \<longrightarrow> Q e w1"
    obtain r w1 where run: "?round os s timeout_ms start w = (r, w1)" by fastforce
    show "Q (fst y) (snd y)"
    proof (cases r)
      case None
      then have "loop os s timeout_ms start w1 = Some y" using body run by simp
      moreover have "I w1" using i more run None by blast
      ultimately show ?thesis using ih more last by blast
    next
      case (Some e)
      then have "y = (e, w1)" using body run by simp
      then show ?thesis using i last run Some by simp
    qed
  qed
  then show ?thesis using assms by blast
qed

lemma select_timeout_bounds:
  assumes t: "0 < timeout_ms" "timeout_ms < 2 ^ 31" and e: "\<not> word_of_int timeout_ms \<le> (elapsed :: u64)"
  obtains sec usec where "select_timeout timeout_ms elapsed = Some (sec, usec)" and "0 \<le> sec" and "0 \<le> usec"
    and "usec < 1000000" and "1000 * sec + usec div 1000 = timeout_ms - uint elapsed"
proof -
  let ?n = "word_of_int timeout_ms - elapsed"
  have tm: "uint (word_of_int timeout_ms :: u64) = timeout_ms" using t by (simp add: unsigned_of_int take_bit_int_eq_self)
  have l: "uint elapsed < timeout_ms" using e tm by (simp add: word_le_def)
  have n: "uint ?n = timeout_ms - uint elapsed"
    using e tm by (subst uint_sub_lem [THEN iffD1]) (simp_all add: word_le_def)
  have r: "0 \<le> uint ?n" "uint ?n < 2 ^ 31" using n l t uint_ge_0 [of elapsed] by linarith+
  have s: "uint (?n div 1000) = uint ?n div 1000" by (simp add: uint_div)
  have "uint (?n mod 1000 * 1000) = (uint ?n mod 1000) * 1000 mod 2 ^ 64"
    by (simp add: uint_word_ariths uint_mod)
  also have "\<dots> = (uint ?n mod 1000) * 1000" by simp
  finally have u: "uint (?n mod 1000 * 1000) = (uint ?n mod 1000) * 1000" .
  have m: "0 \<le> uint ?n mod 1000" "uint ?n mod 1000 < 1000" by simp_all
  have "int32_range (uint ?n div 1000)" "int32_range (uint ?n mod 1000 * 1000)"
    using r m by (simp_all add: int32_range_def, linarith+)
  then have "select_timeout timeout_ms elapsed = Some (uint ?n div 1000, (uint ?n mod 1000) * 1000)"
    using t unfolding select_timeout_def Let_def s u by (simp add: to_int32_id)
  then show ?thesis
    by (rule that) (use r n m in simp_all)
qed

text \<open>The waits of a trace that are shorter than a given time.\<close>

fun timeval_ok :: "int \<Rightarrow> (int \<times> int) option \<Rightarrow> bool" where
  "timeval_ok timeout_ms (Some (sec, usec)) \<longleftrightarrow>
     0 \<le> sec \<and> 0 \<le> usec \<and> usec < 1000000 \<and> 0 < 1000 * sec + usec div 1000 \<and> 1000 * sec + usec div 1000 \<le> timeout_ms"
| "timeval_ok timeout_ms None \<longleftrightarrow> False"

fun wait_ok :: "int \<Rightarrow> syscall \<times> sysret \<Rightarrow> bool" where
  "wait_ok timeout_ms (Ws (Ws_select s t), r) \<longleftrightarrow> timeval_ok timeout_ms t"
| "wait_ok timeout_ms _ \<longleftrightarrow> True"

text \<open>A run has changed nothing in the program's memory, and has not faulted.\<close>

definition pure_run :: "'o world \<Rightarrow> 'o world \<Rightarrow> bool" where
  "pure_run w w' \<longleftrightarrow> faults w' = faults w \<and> sockets w' = sockets w \<and> umem w' = umem w \<and> mem_frame w w' \<and>
     os_trace w' = os_trace w @ new_trace w w'"

lemma pure_run_trans:
  assumes "pure_run w w1" and "pure_run w1 w2"
  shows "pure_run w w2" and "new_trace w w2 = new_trace w w1 @ new_trace w1 w2"
proof -
  have "os_trace w2 = os_trace w @ (new_trace w w1 @ new_trace w1 w2)"
    using assms by (simp add: pure_run_def)
  then show tr: "new_trace w w2 = new_trace w w1 @ new_trace w1 w2"
    unfolding new_trace_def [of w w2] by (metis append_eq_conv_conj)
  show "pure_run w w2" using assms tr by (simp add: pure_run_def mem_frame_def)
qed

lemma round_pure:
  assumes "run_state (disconnect_round os s timeout_ms start) w = (r, w')"
  shows "pure_run w w'"
  using assms by (auto simp: disconnect_round_def exec Let_def pure_run_def mem_frame_def new_trace_def split: if_splits)

lemma round_waits:
  assumes t: "0 < timeout_ms" "timeout_ms < 2 ^ 31"
    and run: "run_state (disconnect_round os s timeout_ms start) w = (r, w')"
  shows "list_all (wait_ok timeout_ms) (new_trace w w')"
proof -
  let ?e = "word_of_int (ret (sys_ret os GetTickCount64 w)) - start :: u64"
  show ?thesis
  proof (cases "word_of_int timeout_ms \<le> ?e")
    case True
    then show ?thesis using run t by (auto simp: disconnect_round_def exec Let_def new_trace_def)
  next
    case False
    then obtain sec usec where st: "select_timeout timeout_ms ?e = Some (sec, usec)" and "0 \<le> sec" "0 \<le> usec"
      "usec < 1000000" "1000 * sec + usec div 1000 = timeout_ms - uint ?e"
      by (rule select_timeout_bounds [OF t])
    moreover have "uint ?e < timeout_ms" using False t by (simp add: word_le_def unsigned_of_int take_bit_int_eq_self)
    ultimately have "timeval_ok timeout_ms (select_timeout timeout_ms ?e)" by simp
    then show ?thesis using run False t
      by (auto simp: disconnect_round_def exec Let_def new_trace_def split: if_splits)
  qed
qed

lemma round_success:
  assumes c: "wsa_contract os" and run: "run_state (disconnect_round os s timeout_ms start) w = (Some Success, w')"
  shows "\<exists>tr r. os_trace w' = tr @ [(Ws (Ws_recv s SCRAP_BUF_LEN), r)] \<and> ret r = 0"
proof -
  have e: "ret (sys_ret os WSAGetLastError (after os (Ws c) v)) \<noteq> 0" if "ret (sys_ret os (Ws c) v) = SOCKET_ERROR"
    "c = Ws_recv s SCRAP_BUF_LEN \<or> (\<exists>t. c = Ws_select s t)" for c v
    by (rule wsa_contractD [OF assms(1)]) (use that in \<open>auto simp: wsa_fails_def\<close>)
  show ?thesis
    using run e [where c = "Ws_recv _ _"] e [where c = "Ws_select _ _"]
    by (auto simp: disconnect_round_def exec Let_def split: if_splits)
qed

lemma disconnect_split:
  assumes "sockets w this = Some me" and "w1 = after os (Ws (Ws_shutdown (ws_socket me) SD_SEND)) w"
  shows "disconnect os this timeout_ms w =
    (if ret (sys_ret os (Ws (Ws_shutdown (ws_socket me) SD_SEND)) w) \<noteq> 0
     then Some (ec_of_int (ret (sys_ret os WSAGetLastError w1)), after os WSAGetLastError w1)
     else disconnect_loop os (ws_socket me) timeout_ms (word_of_int (ret (sys_ret os GetTickCount64 w1)))
            (after os GetTickCount64 w1))"
  unfolding assms(2) using assms(1) by (simp add: disconnect_def exec sock_Some)

lemma pure_run_sys: "overlapped_of c = None \<Longrightarrow> submitted_of c = None \<Longrightarrow> pure_run w (after os c w)"
  by (simp add: pure_run_def mem_frame_def new_trace_def)

lemma disconnect_pure:
  assumes "sockets w this = Some me" and "disconnect os this timeout_ms w = Some (e, w')"
  shows "pure_run w w'"
proof -
  let ?w1 = "after os (Ws (Ws_shutdown (ws_socket me) SD_SEND)) w"
  have p1: "pure_run w ?w1" by (rule pure_run_sys) simp_all
  have p2: "pure_run w (after os c ?w1)" if "c = WSAGetLastError \<or> c = GetTickCount64" for c
    using that by (intro pure_run_trans(1) [OF p1] pure_run_sys) auto
  show ?thesis
  proof (cases "ret (sys_ret os (Ws (Ws_shutdown (ws_socket me) SD_SEND)) w) \<noteq> 0")
    case True
    then show ?thesis using assms(2) p2 [of WSAGetLastError] by (simp add: disconnect_split [OF assms(1) refl])
  next
    case False
    then have "disconnect_loop os (ws_socket me) timeout_ms (word_of_int (ret (sys_ret os GetTickCount64 ?w1)))
        (after os GetTickCount64 ?w1) = Some (e, w')"
      using assms(2) by (simp add: disconnect_split [OF assms(1) refl])
    then have "pure_run w (snd (e, w'))"
      by (rule disconnect_loop_induct [where I = "pure_run w" and Q = "\<lambda>_. pure_run w"])
        (use p2 [of GetTickCount64] round_pure pure_run_trans(1) in blast)+
    then show ?thesis by simp
  qed
qed

section \<open>Properties\<close>

text \<open>C21. \<open>disconnect\<close> with a positive timeout returns, whatever the peer and the network do: on a system
  whose clock advances while it waits, the loop ends, without a fault and with the program's memory
  as it was.\<close>

theorem disconnect_returns:
  assumes "clock_contract os time res" and "0 < timeout_ms" and "timeout_ms < 2 ^ 31"
    and "sockets w this = Some me"
    and "time (snd (os (Ws (Ws_shutdown (ws_socket me) SD_SEND)) (os_state w))) div res + nat timeout_ms < 2 ^ 64"
  shows "\<exists>e w'. disconnect os this timeout_ms w = Some (e, w') \<and> pure_run w w'"
proof -
  let ?w1 = "after os (Ws (Ws_shutdown (ws_socket me) SD_SEND)) w"
  let ?start = "time (os_state ?w1) div res"
  have tick: "ret (sys_ret os GetTickCount64 ?w1) = int ?start"
    by (simp add: sys_ret_def clock_contractD(3) [OF assms(1)])
  have "?start \<le> time (os_state (after os GetTickCount64 ?w1)) div res"
    using clock_contractD(4) [OF assms(1)] by (simp add: div_le_mono)
  then have "\<exists>e w'. disconnect_loop os (ws_socket me) timeout_ms (word_of_int (int ?start)) (after os GetTickCount64 ?w1)
      = Some (e, w')"
    by (rule disconnect_loop_returns [OF assms(1-3)]) (use assms(5) in simp)
  then have "\<exists>e w'. disconnect os this timeout_ms w = Some (e, w')"
    by (simp add: disconnect_split [OF assms(4) refl] tick)
  then show ?thesis using disconnect_pure [OF assms(4)] by blast
qed

text \<open>A system on which every wait takes one tick and the peer stays silent.\<close>

definition clock_os :: "nat os" where
  "clock_os c now =
     (case c of
        GetTickCount64 \<Rightarrow> (answer (int (min now (2 ^ 64 - 1))) False, now)
      | Ws (Ws_select _ _) \<Rightarrow> (answer 0 False, now + 1)
      | _ \<Rightarrow> (answer 0 False, now))"

definition clock_world :: "nat world" where
  "clock_world =
     \<lparr>os_state = 1000, sockets = [0 \<mapsto> sample_socket], cores = [0 \<mapsto> sample_core], io_heap = Map.empty,
      fn_heap = Map.empty, next_addr = 1, lpfn_accept_ex = 11, lpfn_get_accept_ex_sockaddrs = 12, lpfn_connect_ex = 13,
      lpfn_disconnect_ex = 14, umem = (\<lambda>_. 0), os_trace = [], inflight = [], posted = [], invoked = [], faults = []\<rparr>"

lemma clock_os_contract: "clock_contract clock_os (\<lambda>now. min now (2 ^ 64 - 1)) 1"
  by (auto simp: clock_contract_def clock_os_def split: syscall.splits ws_call.splits)

theorem disconnect_returns_witness:
  "\<exists>e w'. disconnect clock_os 0 5000 clock_world = Some (e, w') \<and> pure_run clock_world w'"
proof (rule disconnect_returns [OF clock_os_contract])
  show "sockets clock_world 0 = Some sample_socket" by (simp add: clock_world_def)
  show "min (snd (clock_os (Ws (Ws_shutdown (ws_socket sample_socket) SD_SEND)) (os_state clock_world))) (2 ^ 64 - 1)
      div 1 + nat 5000 < 2 ^ 64" by (simp add: clock_world_def clock_os_def)
qed simp_all

text \<open>C31. Every wait of \<open>disconnect\<close> fits the timeout: with a positive timeout each \<open>TIMEVAL\<close> handed to
  \<open>select\<close> is well formed, positive and at most the timeout, in spite of the unsigned 64-bit
  difference and the conversion to 32-bit seconds.\<close>

theorem disconnect_waits_bounded:
  assumes "0 < timeout_ms" and "timeout_ms < 2 ^ 31" and "sockets w this = Some me"
    and "disconnect os this timeout_ms w = Some (e, w')"
  shows "list_all (wait_ok timeout_ms) (new_trace w w')"
proof -
  let ?w1 = "after os (Ws (Ws_shutdown (ws_socket me) SD_SEND)) w"
  let ?I = "\<lambda>v. pure_run w v \<and> list_all (wait_ok timeout_ms) (new_trace w v)"
  have start: "?I (after os c ?w1)" if "c = WSAGetLastError \<or> c = GetTickCount64" for c
    using that by (auto simp: pure_run_def mem_frame_def new_trace_def)
  have round: "?I v'" if "?I v" "run_state (disconnect_round os s timeout_ms t) v = (r, v')" for s t v r v'
    using that pure_run_trans [of w v v'] round_pure [OF that(2)] round_waits [OF assms(1,2) that(2)] by simp
  show ?thesis
  proof (cases "ret (sys_ret os (Ws (Ws_shutdown (ws_socket me) SD_SEND)) w) \<noteq> 0")
    case True
    then show ?thesis using assms(4) start [of WSAGetLastError] by (simp add: disconnect_split [OF assms(3) refl])
  next
    case False
    then have "disconnect_loop os (ws_socket me) timeout_ms (word_of_int (ret (sys_ret os GetTickCount64 ?w1)))
        (after os GetTickCount64 ?w1) = Some (e, w')"
      using assms(4) by (simp add: disconnect_split [OF assms(3) refl])
    then have "?I (snd (e, w'))"
      by (rule disconnect_loop_induct [where I = ?I and Q = "\<lambda>_. ?I"]) (use start [of GetTickCount64] round in blast)+
    then show ?thesis by simp
  qed
qed

theorem disconnect_waits_bounded_witness:
  "\<exists>e w'. disconnect clock_os 0 5000 clock_world = Some (e, w') \<and> list_all (wait_ok 5000) (new_trace clock_world w')"
proof -
  have s: "sockets clock_world 0 = Some sample_socket" by (simp add: clock_world_def)
  have "\<exists>e w'. disconnect clock_os 0 5000 clock_world = Some (e, w')"
  proof -
    let ?w1 = "after clock_os (Ws (Ws_shutdown (ws_socket sample_socket) SD_SEND)) clock_world"
    have "\<exists>e w'. disconnect_loop clock_os (ws_socket sample_socket) 5000 (word_of_int (int 1000))
        (after clock_os GetTickCount64 ?w1) = Some (e, w')"
      by (rule disconnect_loop_returns [OF clock_os_contract]) (simp_all add: clock_world_def clock_os_def)
    moreover have "ret (sys_ret clock_os GetTickCount64 ?w1) = int 1000"
      by (simp add: sys_ret_def clock_world_def clock_os_def)
    ultimately show ?thesis by (simp add: disconnect_split [OF s refl])
  qed
  then show ?thesis using disconnect_waits_bounded [OF _ _ s, of 5000 clock_os] by force
qed

text \<open>C32. \<open>disconnect\<close> reports success only after the peer has closed: the last thing it did was a receive
  of 0 bytes.\<close>

theorem disconnect_success_closed:
  assumes "wsa_contract os" and "sockets w this = Some me"
    and "disconnect os this timeout_ms w = Some (Success, w')"
  shows "\<exists>tr r. os_trace w' = tr @ [(Ws (Ws_recv (ws_socket me) SCRAP_BUF_LEN), r)] \<and> ret r = 0"
proof -
  let ?c = "Ws_shutdown (ws_socket me) SD_SEND"
  let ?w1 = "after os (Ws ?c) w"
  have "ret (sys_ret os (Ws ?c) w) = 0"
    using assms(3) wsa_contractD [OF assms(1), of ?c w]
    by (auto simp: disconnect_split [OF assms(2) refl] wsa_fails_def split: if_splits)
  then have "disconnect_loop os (ws_socket me) timeout_ms (word_of_int (ret (sys_ret os GetTickCount64 ?w1)))
      (after os GetTickCount64 ?w1) = Some (Success, w')"
    using assms(3) by (simp add: disconnect_split [OF assms(2) refl])
  then have "fst (Success, w') = Success \<longrightarrow>
      (\<exists>tr r. os_trace (snd (Success, w')) = tr @ [(Ws (Ws_recv (ws_socket me) SCRAP_BUF_LEN), r)] \<and> ret r = 0)"
    by (rule disconnect_loop_induct [where I = "\<lambda>_. True" and Q = "\<lambda>e v. e = Success \<longrightarrow>
        (\<exists>tr r. os_trace v = tr @ [(Ws (Ws_recv (ws_socket me) SCRAP_BUF_LEN), r)] \<and> ret r = 0)"])
      (use round_success [OF assms(1)] in blast)+
  then show ?thesis by simp
qed

text \<open>A system on which the peer closes at once.\<close>

definition closing_os :: "unit os" where
  "closing_os c u = (case c of Ws (Ws_select _ _) \<Rightarrow> (answer 1 False, u) | _ \<Rightarrow> sample_os c u)"

theorem disconnect_success_closed_witness:
  "\<exists>w' tr r. disconnect closing_os 0 0 (sample_world [sample_socket]) = Some (Success, w') \<and>
     os_trace w' = tr @ [(Ws (Ws_recv (ws_socket sample_socket) SCRAP_BUF_LEN), r)] \<and> ret r = 0"
proof -
  let ?w = "sample_world [sample_socket]"
  have c: "wsa_contract closing_os"
    by (simp add: wsa_contract_def sys_ret_def closing_os_def) (simp add: sample_os_def ERROR_IO_PENDING_def)
  have s: "sockets ?w 0 = Some sample_socket" by (simp add: sample_world_def)
  have "\<exists>w'. disconnect_loop closing_os h 0 t v = Some (Success, w')" for h t v
    by (subst disconnect_loop.simps)
      (simp add: sys_ret_def closing_os_def disconnect_round_def exec Let_def sample_os_def SOCKET_ERROR_def)
  moreover have "ret (sys_ret closing_os (Ws (Ws_shutdown h k)) v) = 0" for h k v
    by (simp add: sys_ret_def closing_os_def sample_os_def)
  ultimately obtain w' where run: "disconnect closing_os 0 0 ?w = Some (Success, w')"
    using disconnect_split [OF s refl, of closing_os 0] by (metis (full_types))
  show ?thesis using disconnect_success_closed [OF c s run] run by blast
qed

text \<open>A negative timeout is not rejected: \<open>-5000\<close> becomes a huge unsigned number, which the clock does
  not reach, and the seconds handed to \<open>select\<close> are its low 32 bits.\<close>

theorem negative_timeout_wraps:
  "select_timeout (-5000) 0 = Some (1271310314, 616000)"
  by (simp add: select_timeout_def to_int32_def signed_take_bit_eq_take_bit_shift take_bit_eq_mod)

end
