(* ===== verification/Win_Async.thy ===== *)
theory Win_Async
  imports Win_Socket
begin

text \<open>
  The operations of \<open>win_socket.cpp\<close> that start an asynchronous operation.  Each allocates an
  \<open>IOData\<close>, announces the operation to the thread pool, and hands the block to the system with an
  overlapped call.  From a successful start on the block belongs to the system until its
  completion reaches \<open>socket_io_routine\<close>; after a refused start the operation frees it and takes
  the announcement back.  The locale \<open>start_op\<close> states this contract once, and every start
  operation is an instance of it, under the condition that excludes the early returns that
  forget the block.
\<close>

section \<open>Operations\<close>

text \<open>
  The tail every start operation ends with.  \<open>ov_started\<close> is the test of the code: \<open>TRUE\<close>
  for the extension functions, anything but \<open>SOCKET_ERROR\<close> for the Winsock functions.
\<close>

definition submit_overlapped :: "'o os \<Rightarrow> ptr \<Rightarrow> ov_call \<Rightarrow> addr \<Rightarrow> ('o, ErrorCode) prog" where
  "submit_overlapped os io_handle call io_data = do {
     when (io_handle = nullptr) (raise_fault Null_Threadpool_Io);
     sys os (Io (StartThreadpoolIo io_handle));
     r \<leftarrow> sys os (Ov call io_data);
     if \<not> ov_started call (ret r) then do {
       e \<leftarrow> sys os WSAGetLastError;
       if ret e \<noteq> ERROR_IO_PENDING then do {
         delete_io io_data;
         when (io_handle = nullptr) (raise_fault Null_Threadpool_Io);
         sys os (Io (CancelThreadpoolIo io_handle));
         State_Monad.return (ec_of_int (ret e)) }
       else State_Monad.return Success }
     else State_Monad.return Success }"

text \<open>Calling an extension function through its static pointer.\<close>

definition load_fn :: "('o world \<Rightarrow> ptr) \<Rightarrow> ('o, ptr) prog" where
  "load_fn lpfn = do {
     f \<leftarrow> gets lpfn;
     when (f = nullptr) (raise_fault Null_Function_Call);
     State_Monad.return f }"

definition start_accept :: "sock_id option \<Rightarrow> handler \<Rightarrow> 'o os \<Rightarrow> sock_id \<Rightarrow> ('o, ErrorCode) prog" where
  "start_accept accept_socket handler os this = do {
     acc \<leftarrow> deref_sock accept_socket;
     a \<leftarrow> read_sock acc;
     me \<leftarrow> read_sock this;
     res \<leftarrow> (if \<not> is_valid a then socket os acc (ws_addr_family me) (ws_sock_type me) (ws_protocol me)
             else State_Monad.return Success);
     if res \<noteq> Success then State_Monad.return res
     else do {
       p \<leftarrow> new_io (IOData_default\<lparr>iod_socket := Some this, iod_accept_socket := Some acc,
                    iod_user_handler := AcceptHandler handler\<rparr>);
       me \<leftarrow> read_sock this;
       a \<leftarrow> read_sock acc;
       f \<leftarrow> load_fn lpfn_accept_ex;
       submit_overlapped os (ws_io_handle me) (AcceptEx f (ws_socket me) (ws_socket a) acceptex_addr_len acceptex_addr_len) p } }"

definition start_connect :: "Endpoint \<Rightarrow> handler \<Rightarrow> 'o os \<Rightarrow> sock_id \<Rightarrow> ('o, ErrorCode) prog" where
  "start_connect dst handler os this = do {
     p \<leftarrow> new_io (IOData_default\<lparr>iod_socket := Some this, iod_user_handler := ConnectHandler handler\<rparr>);
     me \<leftarrow> read_sock this;
     (err, sa) \<leftarrow> lift_cpp (SystemError, zero_storage) (endpoint_to_sockaddr (ws_addr_family me) dst);
     upd_io p (\<lambda>d. d\<lparr>iod_peer_win_addr := sa\<rparr>);
     if err \<noteq> Success then State_Monad.return err
     else do {
       d \<leftarrow> read_io p;
       err \<leftarrow> (if ss_family (iod_peer_win_addr d) = AF_INET then
                 (if ws_is_bound me = False then bind_ep os this (Ep_V4 (IPv4Address_any 0))
                  else State_Monad.return Success)
               else if ss_family (iod_peer_win_addr d) = AF_INET6 then
                 (if ws_is_bound me = False then bind_ep os this (Ep_V6 (IPv6Address_any 0))
                  else State_Monad.return Success)
               else State_Monad.return Success);
       if err \<noteq> Success then State_Monad.return err
       else do {
         f \<leftarrow> load_fn lpfn_connect_ex;
         submit_overlapped os (ws_io_handle me) (ConnectEx f (ws_socket me) (iod_peer_win_addr d) sizeof_sockaddr) p } } }"

definition start_recv :: "span \<Rightarrow> handler \<Rightarrow> 'o os \<Rightarrow> sock_id \<Rightarrow> ('o, ErrorCode) prog" where
  "start_recv buffer handler os this = do {
     p \<leftarrow> new_io (IOData_default\<lparr>iod_socket := Some this, iod_user_handler := ReadHandler handler,
                  iod_user_buffer := buffer\<rparr>);
     me \<leftarrow> read_sock this;
     submit_overlapped os (ws_io_handle me) (WSARecv (ws_socket me) buffer (of_nat (sp_size buffer))) p }"

text \<open>
  \<open>WSARecvFrom\<close> also gets a pointer to \<open>remote_addr_len\<close>, a local variable of the function, and stores the length
  there when the operation completes, after the return; only the value passed in is modelled.
\<close>

definition start_recv_from :: "span \<Rightarrow> handler \<Rightarrow> 'o os \<Rightarrow> sock_id \<Rightarrow> ('o, ErrorCode) prog" where
  "start_recv_from buffer handler os this = do {
     p \<leftarrow> new_io (IOData_default\<lparr>iod_socket := Some this, iod_user_handler := ReadHandler handler,
                  iod_user_buffer := buffer\<rparr>);
     me \<leftarrow> read_sock this;
     submit_overlapped os (ws_io_handle me) (WSARecvFrom (ws_socket me) buffer (of_nat (sp_size buffer)) sizeof_sockaddr) p }"

definition start_send :: "span \<Rightarrow> handler \<Rightarrow> 'o os \<Rightarrow> sock_id \<Rightarrow> ('o, ErrorCode) prog" where
  "start_send data handler os this = do {
     p \<leftarrow> new_io (IOData_default\<lparr>iod_socket := Some this, iod_user_handler := WriteHandler handler,
                  iod_user_buffer := data\<rparr>);
     me \<leftarrow> read_sock this;
     submit_overlapped os (ws_io_handle me) (WSASend (ws_socket me) data (of_nat (sp_size data))) p }"

definition start_send_to :: "span \<Rightarrow> Endpoint \<Rightarrow> handler \<Rightarrow> 'o os \<Rightarrow> sock_id \<Rightarrow> ('o, ErrorCode) prog" where
  "start_send_to data dst handler os this = do {
     p \<leftarrow> new_io (IOData_default\<lparr>iod_socket := Some this, iod_user_handler := WriteHandler handler,
                  iod_user_buffer := data\<rparr>);
     me \<leftarrow> read_sock this;
     (err, sa) \<leftarrow> lift_cpp (SystemError, zero_storage) (endpoint_to_sockaddr (ws_addr_family me) dst);
     upd_io p (\<lambda>d. d\<lparr>iod_peer_win_addr := sa\<rparr>);
     if err \<noteq> Success then State_Monad.return err
     else submit_overlapped os (ws_io_handle me)
            (WSASendTo (ws_socket me) data (of_nat (sp_size data)) sa sizeof_sockaddr) p }"

definition TF_REUSE_SOCKET :: int where "TF_REUSE_SOCKET = 2"

definition start_disconnect :: "bool \<Rightarrow> handler \<Rightarrow> 'o os \<Rightarrow> sock_id \<Rightarrow> ('o, ErrorCode) prog" where
  "start_disconnect reuse_socket handler os this = do {
     let flags = (if reuse_socket then TF_REUSE_SOCKET else 0);
     p \<leftarrow> new_io (IOData_default\<lparr>iod_socket := Some this, iod_user_handler := DisconnectHandler handler\<rparr>);
     me \<leftarrow> read_sock this;
     f \<leftarrow> load_fn lpfn_disconnect_ex;
     submit_overlapped os (ws_io_handle me) (DisconnectEx f (ws_socket me) flags) p }"

section \<open>The contract of a start operation\<close>

text \<open>Addresses are handed out in order; none is in use before.\<close>

definition heap_wf :: "'o world \<Rightarrow> bool" where
  "heap_wf w \<longleftrightarrow> 0 < next_addr w \<and> (\<forall>p. next_addr w \<le> p \<or> p = 0 \<longrightarrow> io_heap w p = None \<and> fn_heap w p = None)"

definition lpfns_loaded :: "'o world \<Rightarrow> bool" where
  "lpfns_loaded w \<longleftrightarrow> lpfn_accept_ex w \<noteq> nullptr \<and> lpfn_get_accept_ex_sockaddrs w \<noteq> nullptr \<and>
     lpfn_connect_ex w \<noteq> nullptr \<and> lpfn_disconnect_ex w \<noteq> nullptr"

definition ready :: "'o world \<Rightarrow> sock_id \<Rightarrow> bool" where
  "ready w this \<longleftrightarrow> heap_wf w \<and> lpfns_loaded w \<and> sockets w this \<noteq> None \<and> created (sock w this)"

definition win_contract :: "'o os \<Rightarrow> bool" where
  "win_contract os \<longleftrightarrow> overlapped_contract os \<and> submit_contract os \<and> wsa_contract os \<and> opt_contract os \<and> tpio_contract os"

text \<open>The thread pool objects for which an operation was announced, and taken back.\<close>

fun io_started_by :: "syscall \<times> sysret \<Rightarrow> ptr list" where
  "io_started_by (Io (StartThreadpoolIo h), r) = [h]"
| "io_started_by _ = []"

fun io_cancelled_by :: "syscall \<times> sysret \<Rightarrow> ptr list" where
  "io_cancelled_by (Io (CancelThreadpoolIo h), r) = [h]"
| "io_cancelled_by _ = []"

definition io_started :: "(syscall \<times> sysret) list \<Rightarrow> ptr multiset" where
  "io_started tr = mset (concat (map io_started_by tr))"

definition io_cancelled :: "(syscall \<times> sysret) list \<Rightarrow> ptr multiset" where
  "io_cancelled tr = mset (concat (map io_cancelled_by tr))"

text \<open>The overlapped calls made, each with the block it was given.\<close>

fun ov_made_by :: "syscall \<times> sysret \<Rightarrow> (ov_call \<times> addr) list" where
  "ov_made_by (Ov call p, r) = [(call, p)]"
| "ov_made_by _ = []"

definition ov_made :: "(syscall \<times> sysret) list \<Rightarrow> (ov_call \<times> addr) list" where
  "ov_made tr = concat (map ov_made_by tr)"

text \<open>What every start leaves alone; of a created socket it may change only that it is bound.\<close>

definition sockets_kept :: "'o world \<Rightarrow> 'o world \<Rightarrow> bool" where
  "sockets_kept w w' \<longleftrightarrow> dom (sockets w') = dom (sockets w) \<and>
     (\<forall>s x. sockets w s = Some x \<longrightarrow> created x \<longrightarrow> (\<exists>b. sockets w' s = Some (x\<lparr>ws_is_bound := b\<rparr>)))"

definition start_frame :: "'o world \<Rightarrow> 'o world \<Rightarrow> bool" where
  "start_frame w w' \<longleftrightarrow>
     faults w' = faults w \<and> fn_heap w' = fn_heap w \<and> posted w' = posted w \<and> invoked w' = invoked w \<and>
     cores w' = cores w \<and> sockets_kept w w' \<and> (lpfns_loaded w \<longrightarrow> lpfns_loaded w') \<and>
     os_trace w' = os_trace w @ new_trace w w'"

text \<open>The accepting object a block refers to, if any, exists.\<close>

definition acceptor_alive :: "'o world \<Rightarrow> IOData \<Rightarrow> bool" where
  "acceptor_alive w d \<longleftrightarrow> (case iod_accept_socket d of Some a \<Rightarrow> sockets w a \<noteq> None | None \<Rightarrow> True)"

text \<open>
  Success: one new block, owned by the system, announced once, and one overlapped call made for
  it; \<open>records\<close> relates the socket, the block and the call.  An error: the heap and what the
  system owns are as before, and every announcement has been taken back.
\<close>

type_synonym records = "WinSocket \<Rightarrow> IOData \<Rightarrow> ov_call \<Rightarrow> bool"

definition submitted :: "sock_id \<Rightarrow> records \<Rightarrow> 'o world \<Rightarrow> ErrorCode \<Rightarrow> 'o world \<Rightarrow> bool" where
  "submitted this records w err w' \<longleftrightarrow>
     start_frame w w' \<and>
     (if err = Success then
        (\<exists>d call. io_heap w' = (io_heap w)(next_addr w \<mapsto> d) \<and> iod_socket d = Some this \<and>
             acceptor_alive w' d \<and> iod_error_code d = Success \<and>
             ov_made (new_trace w w') = [(call, next_addr w)] \<and> records (sock w this) d call) \<and>
        inflight w' = inflight w @ [next_addr w] \<and> next_addr w' = next_addr w + 1 \<and>
        io_started (new_trace w w') = io_cancelled (new_trace w w') + {#ws_io_handle (sock w this)#}
      else
        io_heap w' = io_heap w \<and> inflight w' = inflight w \<and>
        (next_addr w' = next_addr w \<or> next_addr w' = next_addr w + 1) \<and>
        io_started (new_trace w w') = io_cancelled (new_trace w w'))"

locale start_op =
  fixes op :: "'o os \<Rightarrow> sock_id \<Rightarrow> ('o, ErrorCode) prog"
    and clean :: "'o os \<Rightarrow> sock_id \<Rightarrow> 'o world \<Rightarrow> bool"
    and records :: records
  assumes submits: "win_contract os \<Longrightarrow> ready w this \<Longrightarrow> clean os this w \<Longrightarrow>
      run_state (op os this) w = (err, w') \<Longrightarrow> submitted this records w err w'"
begin

lemma keeps_heap_wf:
  assumes "win_contract os" "ready w this" "clean os this w" "run_state (op os this) w = (err, w')"
  shows "heap_wf w'"
proof -
  have "heap_wf w" using assms(2) by (simp add: ready_def)
  then show ?thesis
    using submits [OF assms] by (auto simp: submitted_def start_frame_def heap_wf_def split: if_splits)
qed

lemma no_leak:
  assumes "win_contract os" "ready w this" "clean os this w" "run_state (op os this) w = (err, w')"
  shows "dom (io_heap w') - set (inflight w') \<subseteq> dom (io_heap w) - set (inflight w)"
  using submits [OF assms] by (auto simp: submitted_def split: if_splits)

end

section \<open>Lemmas\<close>

lemma io_started_simps [simp]:
  "io_started [] = {#}" "io_started (e # tr) = mset (io_started_by e) + io_started tr"
  "io_cancelled [] = {#}" "io_cancelled (e # tr) = mset (io_cancelled_by e) + io_cancelled tr"
  "io_started (tr @ tr') = io_started tr + io_started tr'"
  "io_cancelled (tr @ tr') = io_cancelled tr + io_cancelled tr'"
  by (simp_all add: io_started_def io_cancelled_def)

lemma ov_made_simps [simp]:
  "ov_made [] = []" "ov_made (e # tr) = ov_made_by e @ ov_made tr" "ov_made (tr @ tr') = ov_made tr @ ov_made tr'"
  by (simp_all add: ov_made_def)

lemma bound_self [simp]: "\<exists>b. x = x\<lparr>ws_is_bound := b\<rparr>"
  by (rule exI [of _ "ws_is_bound x"]) simp

lemma bound_again [simp]: "\<exists>b. x\<lparr>ws_is_bound := c\<rparr> = x\<lparr>ws_is_bound := b\<rparr>"
  by blast

lemma sockets_kept_same [simp]: "sockets w' = sockets w \<Longrightarrow> sockets_kept w w'"
  by (simp add: sockets_kept_def)

lemma sockets_kept_trans:
  assumes "sockets_kept w w1" and "sockets_kept w1 w2"
  shows "sockets_kept w w2"
proof -
  have "\<exists>b. sockets w2 s = Some (x\<lparr>ws_is_bound := b\<rparr>)" if x: "sockets w s = Some x" "created x" for s x
  proof -
    obtain b where b: "sockets w1 s = Some (x\<lparr>ws_is_bound := b\<rparr>)" using assms(1) x unfolding sockets_kept_def by blast
    have "created (x\<lparr>ws_is_bound := b\<rparr>)" using x(2) by (simp add: created_def)
    then obtain b' where "sockets w2 s = Some (x\<lparr>ws_is_bound := b, ws_is_bound := b'\<rparr>)"
      using assms(2) b unfolding sockets_kept_def by blast
    then show ?thesis by auto
  qed
  then show ?thesis using assms by (simp add: sockets_kept_def)
qed

lemma win_contractD:
  assumes "win_contract os"
  shows "overlapped_contract os" "submit_contract os" "wsa_contract os" "opt_contract os" "tpio_contract os"
  using assms by (simp_all add: win_contract_def)

lemma sample_win_contract [simp]: "win_contract sample_os"
  by (simp add: win_contract_def)

lemma run_load_fn [simp, exec]:
  "run_state (load_fn lpfn) w =
     (lpfn w, if lpfn w = nullptr then w\<lparr>faults := faults w @ [Null_Function_Call]\<rparr> else w)"
  by (simp add: load_fn_def)

lemma heap_wfD: "heap_wf w \<Longrightarrow> io_heap w (next_addr w) = None" "heap_wf w \<Longrightarrow> 0 < next_addr w"
  by (auto simp: heap_wf_def)

text \<open>The tail on a block that is allocated.\<close>

lemma submit_run:
  assumes c: "overlapped_contract os" and h: "h \<noteq> nullptr" and p: "io_heap w p = Some d" "p \<noteq> 0"
    and run: "run_state (submit_overlapped os h call p) w = (err, w')"
  shows "if err = Success then io_heap w' = io_heap w \<and> inflight w' = inflight w @ [p] \<and>
        io_started (new_trace w w') = io_cancelled (new_trace w w') + {#h#} \<and> ov_made (new_trace w w') = [(call, p)]
      else io_heap w' = (io_heap w)(p := None) \<and> inflight w' = inflight w \<and>
        io_started (new_trace w w') = io_cancelled (new_trace w w')"
    and "next_addr w' = next_addr w" "sockets w' = sockets w" "start_frame w w'"
proof -
  let ?w = "after os (Io (StartThreadpoolIo h)) w"
  note e = overlapped_contractD [OF c, of call p ?w]
  show "if err = Success then io_heap w' = io_heap w \<and> inflight w' = inflight w @ [p] \<and>
        io_started (new_trace w w') = io_cancelled (new_trace w w') + {#h#} \<and> ov_made (new_trace w w') = [(call, p)]
      else io_heap w' = (io_heap w)(p := None) \<and> inflight w' = inflight w \<and>
        io_started (new_trace w w') = io_cancelled (new_trace w w')"
    and "next_addr w' = next_addr w" "sockets w' = sockets w" "start_frame w w'"
    using run e h p
    by (auto simp: submit_overlapped_def exec inflight_after new_trace_def start_frame_def lpfns_loaded_def
        split: if_splits)
qed

lemma new_trace_trans:
  assumes "os_trace w1 = os_trace w @ new_trace w w1" and "os_trace w2 = os_trace w1 @ new_trace w1 w2"
  shows "new_trace w w2 = new_trace w w1 @ new_trace w1 w2"
proof -
  have "os_trace w2 = os_trace w @ (new_trace w w1 @ new_trace w1 w2)"
    by (subst assms(2), subst assms(1)) simp
  then show ?thesis unfolding new_trace_def [of w w2] by (metis append_eq_conv_conj)
qed

lemma start_frame_trans:
  assumes "start_frame w w1" and "start_frame w1 w2"
  shows "start_frame w w2" and "new_trace w w2 = new_trace w w1 @ new_trace w1 w2"
proof -
  show tr: "new_trace w w2 = new_trace w w1 @ new_trace w1 w2"
    using assms by (intro new_trace_trans) (simp_all add: start_frame_def)
  show "start_frame w w2"
    using assms tr sockets_kept_trans [of w w1 w2] by (simp add: start_frame_def)
qed

text \<open>The state in which a start operation reaches its tail.\<close>

definition prepared :: "sock_id \<Rightarrow> IOData \<Rightarrow> 'o world \<Rightarrow> 'o world \<Rightarrow> bool" where
  "prepared this d w w1 \<longleftrightarrow>
     start_frame w w1 \<and> io_heap w1 = (io_heap w)(next_addr w \<mapsto> d) \<and> next_addr w1 = next_addr w + 1 \<and>
     inflight w1 = inflight w \<and> io_started (new_trace w w1) = {#} \<and> io_cancelled (new_trace w w1) = {#} \<and> ov_made (new_trace w w1) = [] \<and>
     iod_socket d = Some this \<and> acceptor_alive w1 d \<and> iod_error_code d = Success"

lemma acceptor_alive_cong: "sockets w' = sockets w \<Longrightarrow> acceptor_alive w' d = acceptor_alive w d"
  by (simp add: acceptor_alive_def split: option.splits)

lemma acceptor_alive_none [simp]: "iod_accept_socket d = None \<Longrightarrow> acceptor_alive w d"
  by (simp add: acceptor_alive_def)

lemma prepared_submit_handle:
  assumes c: "overlapped_contract os" and wf: "heap_wf w" and h: "ws_io_handle (sock w this) \<noteq> nullptr"
    and p: "prepared this d w w1" and q: "records (sock w this) d call"
    and run: "run_state (submit_overlapped os (ws_io_handle (sock w this)) call (next_addr w)) w1 = (err, w')"
  shows "submitted this records w err w'"
proof -
  have d: "io_heap w1 (next_addr w) = Some d" using p by (simp add: prepared_def)
  note s = submit_run [OF c h d _ run]
  have p0: "next_addr w \<noteq> 0" using heap_wfD [OF wf] by simp
  have fr: "start_frame w w1" using p by (simp add: prepared_def)
  note tr = start_frame_trans [OF fr s(4) [OF p0]]
  have "(io_heap w)(next_addr w := None) = io_heap w" using heap_wfD(1) [OF wf] by (simp add: fun_upd_idem)
  then show ?thesis
    using s(1,2) [OF p0] tr p q acceptor_alive_cong [OF s(3) [OF p0]]
    by (auto simp: submitted_def prepared_def split: if_splits)
qed

lemma prepared_submit:
  assumes "win_contract os" and "ready w this" and "prepared this d w w1" and "records (sock w this) d call"
    and "run_state (submit_overlapped os (ws_io_handle (sock w this)) call (next_addr w)) w1 = (err, w')"
  shows "submitted this records w err w'"
  using assms by (intro prepared_submit_handle [OF win_contractD(1)]) (auto simp: ready_def created_def)

lemma prepared_new:
  assumes "iod_socket d = Some this" and "iod_error_code d = Success" and "acceptor_alive w d"
  shows "prepared this d w (w\<lparr>io_heap := (io_heap w)(next_addr w \<mapsto> d), next_addr := next_addr w + 1\<rparr>)"
  using assms acceptor_alive_cong [of "w\<lparr>io_heap := (io_heap w)(next_addr w \<mapsto> d), next_addr := next_addr w + 1\<rparr>" w]
  by (simp add: prepared_def start_frame_def lpfns_loaded_def new_trace_def)

lemma IOData_default_simps [simp]:
  "iod_error_code IOData_default = Success" "iod_accept_socket IOData_default = None" "iod_peer_win_addr IOData_default = zero_storage"
  by (simp_all add: IOData_default_def)

lemma readyD:
  assumes "ready w this"
  shows "\<exists>s. sockets w this = Some s" "lpfn_accept_ex w \<noteq> nullptr" "lpfn_connect_ex w \<noteq> nullptr"
    "lpfn_disconnect_ex w \<noteq> nullptr"
  using assms by (auto simp: ready_def lpfns_loaded_def)

section \<open>The instances\<close>

text \<open>The handler and the buffer are kept in the block, and the call is made with the socket's handle.\<close>

definition recv_records :: "span \<Rightarrow> handler \<Rightarrow> records" where
  "recv_records buffer handler s d call \<longleftrightarrow> iod_user_handler d = ReadHandler handler \<and> iod_user_buffer d = buffer \<and>
     call = WSARecv (ws_socket s) buffer (of_nat (sp_size buffer))"

definition recv_from_records :: "span \<Rightarrow> handler \<Rightarrow> records" where
  "recv_from_records buffer handler s d call \<longleftrightarrow> iod_user_handler d = ReadHandler handler \<and> iod_user_buffer d = buffer \<and>
     call = WSARecvFrom (ws_socket s) buffer (of_nat (sp_size buffer)) sizeof_sockaddr"

definition send_records :: "span \<Rightarrow> handler \<Rightarrow> records" where
  "send_records data handler s d call \<longleftrightarrow> iod_user_handler d = WriteHandler handler \<and> iod_user_buffer d = data \<and>
     call = WSASend (ws_socket s) data (of_nat (sp_size data))"

definition disconnect_records :: "bool \<Rightarrow> handler \<Rightarrow> records" where
  "disconnect_records reuse handler s d call \<longleftrightarrow> iod_user_handler d = DisconnectHandler handler \<and>
     (\<exists>f. f \<noteq> nullptr \<and> call = DisconnectEx f (ws_socket s) (if reuse then TF_REUSE_SOCKET else 0))"

definition send_to_records :: "span \<Rightarrow> Endpoint \<Rightarrow> handler \<Rightarrow> records" where
  "send_to_records data dst handler s d call \<longleftrightarrow> iod_user_handler d = WriteHandler handler \<and> iod_user_buffer d = data \<and>
     (\<exists>sa. endpoint_to_sockaddr (ws_addr_family s) dst = Ret (Success, sa) \<and>
       call = WSASendTo (ws_socket s) data (of_nat (sp_size data)) sa sizeof_sockaddr)"

definition connect_records :: "Endpoint \<Rightarrow> handler \<Rightarrow> records" where
  "connect_records dst handler s d call \<longleftrightarrow> iod_user_handler d = ConnectHandler handler \<and>
     (\<exists>f sa. f \<noteq> nullptr \<and> endpoint_to_sockaddr (ws_addr_family s) dst = Ret (Success, sa) \<and>
       call = ConnectEx f (ws_socket s) sa sizeof_sockaddr)"

definition accept_records :: "sock_id option \<Rightarrow> handler \<Rightarrow> records" where
  "accept_records accept_socket handler s d call \<longleftrightarrow>
     iod_user_handler d = AcceptHandler handler \<and> iod_accept_socket d = accept_socket \<and>
     (\<exists>f a. f \<noteq> nullptr \<and> call = AcceptEx f (ws_socket s) a acceptex_addr_len acceptex_addr_len)"

lemmas records_defs = recv_records_def recv_from_records_def send_records_def disconnect_records_def

interpretation recv_start: start_op "start_recv buffer handler" "\<lambda>_ _ _. True" "recv_records buffer handler" for buffer handler
proof (unfold_locales, goal_cases)
  case (1 os w this err w')
  then show ?case
    using readyD [OF 1(2)]
    by (auto simp: start_recv_def exec records_defs intro!: prepared_submit [OF 1(1,2) prepared_new])
qed

interpretation recv_from_start: start_op "start_recv_from buffer handler" "\<lambda>_ _ _. True" "recv_from_records buffer handler" for buffer handler
proof (unfold_locales, goal_cases)
  case (1 os w this err w')
  then show ?case
    using readyD [OF 1(2)]
    by (auto simp: start_recv_from_def exec records_defs intro!: prepared_submit [OF 1(1,2) prepared_new])
qed

interpretation send_start: start_op "start_send data handler" "\<lambda>_ _ _. True" "send_records data handler" for data handler
proof (unfold_locales, goal_cases)
  case (1 os w this err w')
  then show ?case
    using readyD [OF 1(2)]
    by (auto simp: start_send_def exec records_defs intro!: prepared_submit [OF 1(1,2) prepared_new])
qed

interpretation disconnect_start: start_op "start_disconnect reuse handler" "\<lambda>_ _ _. True" "disconnect_records reuse handler" for reuse handler
proof (unfold_locales, goal_cases)
  case (1 os w this err w')
  then show ?case
    using readyD [OF 1(2)]
    by (auto simp: start_disconnect_def exec records_defs intro!: prepared_submit [OF 1(1,2) prepared_new])
qed

text \<open>\<open>start_send_to\<close> keeps the contract when the endpoint is of the socket's family.\<close>

definition dst_ok :: "Endpoint \<Rightarrow> 'o os \<Rightarrow> sock_id \<Rightarrow> 'o world \<Rightarrow> bool" where
  "dst_ok dst os this w \<longleftrightarrow> matches_family (ws_addr_family (sock w this)) dst \<and> wf_endpoint dst"

interpretation send_to_start: start_op "start_send_to data dst handler" "dst_ok dst" "send_to_records data dst handler" for data dst handler
proof (unfold_locales, goal_cases)
  case (1 os w this err w')
  let ?fam = "ws_addr_family (sock w this)"
  let ?d = "\<lambda>sa. IOData_default\<lparr>iod_socket := Some this, iod_user_handler := WriteHandler handler,
      iod_user_buffer := data, iod_peer_win_addr := sa\<rparr>"
  from 1(3) obtain sa where sa: "endpoint_to_sockaddr ?fam dst = Ret (Success, sa)"
    unfolding dst_ok_def using encode_matching by metis
  let ?w1 = "w\<lparr>next_addr := next_addr w + 1, io_heap := (io_heap w)(next_addr w \<mapsto> ?d sa)\<rparr>"
  have p: "prepared this (?d sa) w ?w1"
    by (simp add: prepared_def start_frame_def lpfns_loaded_def new_trace_def)
  have "run_state (submit_overlapped os (ws_io_handle (sock w this))
      (WSASendTo (ws_socket (sock w this)) data (of_nat (sp_size data)) sa sizeof_sockaddr) (next_addr w)) ?w1 = (err, w')"
    using 1(4) readyD [OF 1(2)] sa by (auto simp: start_send_to_def exec io_def)
  then show ?case by (rule prepared_submit [OF 1(1,2) p, rotated]) (simp add: send_to_records_def sa)
qed

text \<open>
  \<open>start_connect\<close> keeps it when the endpoint is of the socket's family and the socket is bound or
  can be bound to the unspecified address.
\<close>

definition any_endpoint :: "AddressFamily \<Rightarrow> Endpoint" where
  "any_endpoint family = (if family = AF_IPv4 then Ep_V4 (IPv4Address_any 0) else Ep_V6 (IPv6Address_any 0))"

definition connect_ok :: "Endpoint \<Rightarrow> 'o os \<Rightarrow> sock_id \<Rightarrow> 'o world \<Rightarrow> bool" where
  "connect_ok dst os this w \<longleftrightarrow> dst_ok dst os this w \<and>
     (ws_is_bound (sock w this) \<or>
      fst (run_state (bind_ep os this (any_endpoint (ws_addr_family (sock w this)))) w) = Success)"

lemma encode_family:
  assumes "matches_family family dst" and "wf_endpoint dst"
  obtains sa any_sa where "endpoint_to_sockaddr family dst = Ret (Success, sa)"
    and "endpoint_to_sockaddr family (any_endpoint family) = Ret (Success, any_sa)"
    and "family = AF_IPv4 \<and> ss_family sa = AF_INET \<or> family = AF_IPv6 \<and> ss_family sa = AF_INET6"
proof -
  have m: "matches_family family (any_endpoint family)" "wf_endpoint (any_endpoint family)"
    using assms(1) by (cases family; simp add: any_endpoint_def)+
  from assms(1) consider a where "family = AF_IPv4" "dst = Ep_V4 a" | a where "family = AF_IPv6" "dst = Ep_V6 a"
    by (cases family; cases dst) auto
  then obtain sa where "endpoint_to_sockaddr family dst = Ret (Success, sa)"
    and "family = AF_IPv4 \<and> ss_family sa = AF_INET \<or> family = AF_IPv6 \<and> ss_family sa = AF_INET6"
  proof cases
    case (1 a)
    with assms(2) have "wf_v4 a" by simp
    then show ?thesis by (rule endpoint_to_sockaddr_v4) (use 1 that in blast)
  next
    case (2 a)
    with assms(2) have "wf_v6 a" by simp
    then show ?thesis by (rule endpoint_to_sockaddr_v6) (use 2 that in blast)
  qed
  with that encode_matching [OF m] show ?thesis by metis
qed

text \<open>The part of \<open>start_connect\<close> before the tail.\<close>

lemma start_connect_prepares:
  assumes c: "win_contract os" and r: "ready w this" and ok: "connect_ok dst os this w"
  obtains d w1 call where "prepared this d w w1" and "connect_records dst handler (sock w this) d call"
    and "run_state (start_connect dst handler os this) w =
      run_state (submit_overlapped os (ws_io_handle (sock w this)) call (next_addr w)) w1"
    and "ws_is_bound (sock w1 this)"
    and "ws_is_bound (sock w this) \<or>
       (\<exists>sa r. new_trace w w1 = [(Ws (Ws_bind (ws_socket (sock w this)) sa sizeof_sockaddr), r)] \<and> ret r = 0 \<and>
          endpoint_to_sockaddr (ws_addr_family (sock w this)) (any_endpoint (ws_addr_family (sock w this))) = Ret (Success, sa))"
proof -
  let ?me = "sock w this"
  let ?fam = "ws_addr_family ?me"
  from ok have "matches_family ?fam dst" "wf_endpoint dst" by (simp_all add: connect_ok_def dst_ok_def)
  then obtain sa any_sa where sa: "endpoint_to_sockaddr ?fam dst = Ret (Success, sa)"
    and any: "endpoint_to_sockaddr ?fam (any_endpoint ?fam) = Ret (Success, any_sa)"
    and fam: "?fam = AF_IPv4 \<and> ss_family sa = AF_INET \<or> ?fam = AF_IPv6 \<and> ss_family sa = AF_INET6"
    by (rule encode_family)
  obtain s where s: "sockets w this = Some s" using readyD(1) [OF r] by blast
  have l: "lpfn_connect_ex w \<noteq> nullptr" using r by (rule readyD)
  let ?d = "IOData_default\<lparr>iod_socket := Some this, iod_user_handler := ConnectHandler handler,
      iod_peer_win_addr := sa\<rparr>"
  let ?w0 = "w\<lparr>next_addr := next_addr w + 1, io_heap := (io_heap w)(next_addr w \<mapsto> ?d)\<rparr>"
  show ?thesis
  proof (cases "ws_is_bound ?me")
    case True
    show ?thesis
      by (rule that [of ?d ?w0])
        (use True s sa fam l in \<open>auto simp: prepared_def start_frame_def lpfns_loaded_def new_trace_def
          start_connect_def exec io_def sock_Some connect_records_def\<close>)
  next
    case False
    let ?b = "Ws (Ws_bind (ws_socket ?me) any_sa sizeof_sockaddr)"
    have zero: "ret (sys_ret os ?b w) = 0"
      using ok False bind_run(2) [OF s win_contractD(3) [OF c], of "any_endpoint ?fam" any_sa] any
      by (simp add: connect_ok_def sock_Some [OF s] split: prod.splits) (metis eq_fst_iff)
    let ?w1 = "(after os ?b ?w0)\<lparr>sockets := (sockets w)(this \<mapsto> ?me\<lparr>ws_is_bound := True\<rparr>)\<rparr>"
    show ?thesis
      by (rule that [of ?d ?w1])
        (use False s sa fam l zero any in \<open>auto simp: prepared_def start_frame_def lpfns_loaded_def new_trace_def
          start_connect_def exec io_def sock_Some bind_ep_def any_endpoint_def connect_records_def sockets_kept_def\<close>)
  qed
qed

interpretation connect_start: start_op "start_connect dst handler" "connect_ok dst" "connect_records dst handler" for dst handler
proof (unfold_locales, goal_cases)
  case (1 os w this err w')
  from 1(1,2,3) obtain d w1 call where p: "prepared this d w w1" and q: "connect_records dst handler (sock w this) d call"
    and "run_state (start_connect dst handler os this) w =
      run_state (submit_overlapped os (ws_io_handle (sock w this)) call (next_addr w)) w1"
    by (rule start_connect_prepares)
  with 1(4) show ?case using prepared_submit [OF 1(1,2) p, of "connect_records dst handler", OF q] by simp
qed

text \<open>The tail makes one overlapped call and changes no object.\<close>

lemma submit_made:
  assumes "run_state (submit_overlapped os h call p) w = (err, w')"
  shows "sockets w' = sockets w \<and> (\<exists>us. faults w' = faults w @ us) \<and> (\<exists>tr. os_trace w' = os_trace w @ tr \<and> ov_made tr = [(call, p)] \<and> opened tr = {#})"
  using assms by (auto simp: submit_overlapped_def exec split: if_splits)

lemma connect_binds:
  assumes c: "win_contract os" and r: "ready w this" and ok: "connect_ok dst os this w"
    and run: "run_state (start_connect dst handler os this) w = (err, w')"
  shows "ws_is_bound (sock w' this) \<and>
      (ws_is_bound (sock w this) \<or>
       (\<exists>sa r tr. new_trace w w' = (Ws (Ws_bind (ws_socket (sock w this)) sa sizeof_sockaddr), r) # tr \<and> ret r = 0 \<and>
          endpoint_to_sockaddr (ws_addr_family (sock w this)) (any_endpoint (ws_addr_family (sock w this))) = Ret (Success, sa)))"
proof -
  obtain d w1 call where b: "ws_is_bound (sock w1 this)"
      "ws_is_bound (sock w this) \<or>
       (\<exists>sa r. new_trace w w1 = [(Ws (Ws_bind (ws_socket (sock w this)) sa sizeof_sockaddr), r)] \<and> ret r = 0 \<and>
          endpoint_to_sockaddr (ws_addr_family (sock w this)) (any_endpoint (ws_addr_family (sock w this))) = Ret (Success, sa))"
    and e: "run_state (submit_overlapped os (ws_io_handle (sock w this)) call (next_addr w)) w1 = (err, w')"
    and p: "prepared this d w w1"
    using start_connect_prepares [OF c r ok, of handler] run by metis
  from submit_made [OF e] obtain tr where tr: "os_trace w' = os_trace w1 @ tr" "sockets w' = sockets w1" by blast
  have "os_trace w1 = os_trace w @ new_trace w w1" using p by (simp add: prepared_def start_frame_def)
  then have "new_trace w w' = new_trace w w1 @ tr" using tr(1) unfolding new_trace_def
    by (metis append.assoc append_eq_conv_conj)
  then show ?thesis using b tr(2) by (auto simp: sock_def)
qed

text \<open>
  \<open>start_accept\<close> keeps it when the accepting object exists and is in one of the two states of a
  socket; without a handle, it is given one first.
\<close>

definition acceptor_ok :: "sock_id option \<Rightarrow> 'o os \<Rightarrow> sock_id \<Rightarrow> 'o world \<Rightarrow> bool" where
  "acceptor_ok accept_socket os this w \<longleftrightarrow>
     (\<exists>acc. accept_socket = Some acc \<and> sockets w acc \<noteq> None \<and> (fresh (sock w acc) \<or> created (sock w acc)))"

lemma socket_no_start:
  assumes "sockets w this = Some s" and "run_state (socket os this family type proto) w = (err, w')"
  shows "io_started (new_trace w w') = {#}" "io_cancelled (new_trace w w') = {#}" "ov_made (new_trace w w') = []"
  using assms by (auto simp: socket_def exec sock_Some new_trace_def split: if_splits)

lemma only_sock_start_frame:
  assumes "only_sock s w w'" and "sockets w s \<noteq> None" and "\<not> created (sock w s)"
  shows "start_frame w w'" "io_heap w' = io_heap w" "next_addr w' = next_addr w" "inflight w' = inflight w"
    "i \<noteq> s \<Longrightarrow> sock w' i = sock w i"
proof -
  have u: "sockets w' = (sockets w)(s \<mapsto> sock w' s)" using assms(1) by (simp add: only_sock_def)
  have "\<exists>b. sockets w' j = Some (x\<lparr>ws_is_bound := b\<rparr>)" if "sockets w j = Some x" "created x" for j x
  proof -
    have "j \<noteq> s" using that assms(3) by (auto simp: sock_def)
    then have "sockets w' j = Some x" by (subst u) (simp add: that)
    then show ?thesis by simp
  qed
  moreover have "dom (sockets w') = dom (sockets w)" using assms(2) by (subst u) auto
  ultimately have "sockets_kept w w'" by (simp add: sockets_kept_def)
  then show "start_frame w w'" "io_heap w' = io_heap w" "next_addr w' = next_addr w" "inflight w' = inflight w"
    "i \<noteq> s \<Longrightarrow> sock w' i = sock w i"
    using assms by (auto simp: only_sock_def mem_frame_def start_frame_def lpfns_loaded_def sock_def
      split: if_splits option.splits)
qed

lemma prepared_after:
  assumes "start_frame w w0" "io_heap w0 = io_heap w" "next_addr w0 = next_addr w" "inflight w0 = inflight w"
    "io_started (new_trace w w0) = {#}" "io_cancelled (new_trace w w0) = {#}" "ov_made (new_trace w w0) = []"
    "iod_socket d = Some this" "iod_error_code d = Success" "acceptor_alive w0 d"
  shows "prepared this d w (w0\<lparr>io_heap := (io_heap w0)(next_addr w0 \<mapsto> d), next_addr := next_addr w0 + 1\<rparr>)"
proof -
  let ?w1 = "w0\<lparr>io_heap := (io_heap w0)(next_addr w0 \<mapsto> d), next_addr := next_addr w0 + 1\<rparr>"
  have p: "prepared this d w0 ?w1" using assms(8,9,10) by (rule prepared_new)
  then have f: "start_frame w0 ?w1" by (simp add: prepared_def)
  show ?thesis
    using p start_frame_trans [OF assms(1) f] assms by (simp add: prepared_def)
qed

interpretation accept_start: start_op "start_accept accept_socket handler" "acceptor_ok accept_socket"
  "accept_records accept_socket handler"
  for accept_socket handler
proof (unfold_locales, goal_cases)
  case (1 os w this err w')
  from 1(3) obtain acc a where as: "accept_socket = Some acc" and a: "sockets w acc = Some a"
    and st: "fresh a \<or> created a" by (auto simp: acceptor_ok_def sock_Some)
  obtain s where s: "sockets w this = Some s" using readyD(1) [OF 1(2)] by blast
  have cs: "created s" using 1(2) s by (simp add: ready_def sock_Some)
  let ?d = "IOData_default\<lparr>iod_socket := Some this, iod_accept_socket := Some acc,
      iod_user_handler := AcceptHandler handler\<rparr>"
  show ?case
  proof (cases "is_valid a")
    case True
    let ?w1 = "w\<lparr>io_heap := (io_heap w)(next_addr w \<mapsto> ?d), next_addr := next_addr w + 1\<rparr>"
    have p: "prepared this ?d w ?w1" using a by (intro prepared_new) (simp_all add: acceptor_alive_def)
    have "run_state (submit_overlapped os (ws_io_handle s)
        (AcceptEx (lpfn_accept_ex w) (ws_socket s) (ws_socket a) acceptex_addr_len acceptex_addr_len) (next_addr w)) ?w1 = (err, w')"
      using True 1(4) readyD(2) [OF 1(2)] as a s by (auto simp: start_accept_def exec sock_Some)
    moreover have "accept_records accept_socket handler (sock w this) ?d (AcceptEx (lpfn_accept_ex w) (ws_socket s) (ws_socket a) acceptex_addr_len acceptex_addr_len)"
      using sock_Some [OF s] as readyD(2) [OF 1(2)] by (simp add: accept_records_def)
    ultimately show ?thesis using prepared_submit [OF 1(1,2) p] sock_Some [OF s] by blast
  next
    case False
    with st have fa: "fresh a" by (auto simp: is_valid_def created_def)
    with cs s a have ne: "this \<noteq> acc" by (auto simp: fresh_def created_def)
    obtain res w0 where run0: "run_state (socket os acc (ws_addr_family s) (ws_sock_type s) (ws_protocol s)) w = (res, w0)"
      by fastforce
    note so = socket_run [OF a win_contractD(3,5) [OF 1(1)] run0]
    have nc: "\<not> created (sock w acc)" using fa a by (simp add: sock_Some fresh_def created_def)
    note fr = only_sock_start_frame [OF so(1) _ nc]
    note ns = socket_no_start [OF a run0]
    show ?thesis
    proof (cases "res = Success")
      case False
      then have "err = res" "w' = w0"
        using 1(4) as a s run0 \<open>\<not> is_valid a\<close> by (auto simp: start_accept_def exec sock_Some)
      with False fr a ns show ?thesis by (simp add: submitted_def)
    next
      case True
      let ?w1 = "w0\<lparr>io_heap := (io_heap w0)(next_addr w0 \<mapsto> ?d), next_addr := next_addr w0 + 1\<rparr>"
      have a1: "sockets w0 acc \<noteq> None" using so(1) by (simp add: only_sock_def)
      have p: "prepared this ?d w ?w1" using fr a ns a1 by (intro prepared_after) (simp_all add: acceptor_alive_def)
      have s0: "sockets w0 this = Some s" using so(1) s ne by (simp add: only_sock_def)
      have l0: "lpfn_accept_ex w0 \<noteq> nullptr"
        using so(1) readyD(2) [OF 1(2)] by (simp add: only_sock_def mem_frame_def)
      have n0: "next_addr w0 = next_addr w" using fr a by simp
      have "run_state (submit_overlapped os (ws_io_handle s)
          (AcceptEx (lpfn_accept_ex w0) (ws_socket s) (ws_socket (sock w0 acc)) acceptex_addr_len acceptex_addr_len) (next_addr w)) ?w1 = (err, w')"
        using 1(4) as a s run0 \<open>\<not> is_valid a\<close> True s0 a1 l0 n0
        by (auto simp: start_accept_def exec sock_Some)
      moreover have "accept_records accept_socket handler (sock w this) ?d
          (AcceptEx (lpfn_accept_ex w0) (ws_socket s) (ws_socket (sock w0 acc)) acceptex_addr_len acceptex_addr_len)"
        using sock_Some [OF s] as l0 by (simp add: accept_records_def)
      ultimately show ?thesis using prepared_submit [OF 1(1,2) p] sock_Some [OF s] by blast
    qed
  qed
qed

text \<open>
  The accepting object afterwards: the handle it has is the one the overlapped call was given, and it
  is the one it had, or else one that \<open>socket()\<close> has just obtained with the listener's attributes.
\<close>

definition accepting_object :: "WinSocket \<Rightarrow> WinSocket \<Rightarrow> WinSocket \<Rightarrow> (syscall \<times> sysret) list \<Rightarrow> bool" where
  "accepting_object s a a' tr \<longleftrightarrow> created a' \<and>
     (if is_valid a then a' = a
      else opened tr = {#ws_socket a'#} \<and> ws_addr_family a' = ws_addr_family s \<and> ws_sock_type a' = ws_sock_type s \<and>
        ws_protocol a' = ws_protocol s)"

lemma accept_handle:
  assumes c: "wsa_contract os" "tpio_contract os" and a: "sockets w acc = Some a" "fresh a \<or> created a" and s: "sockets w this = Some s"
    and run: "run_state (start_accept (Some acc) handler os this) w = (Success, w')"
  shows "\<exists>f p. ov_made (new_trace w w') =
      [(AcceptEx f (ws_socket (sock w' this)) (ws_socket (sock w' acc)) acceptex_addr_len acceptex_addr_len, p)]"
    and "accepting_object s a (sock w' acc) (new_trace w w')"
proof -
  define pre where "pre = (if \<not> is_valid a then socket os acc (ws_addr_family s) (ws_sock_type s) (ws_protocol s)
             else State_Monad.return Success)"
  obtain res w0 where run0: "run_state pre w = (res, w0)" by fastforce
  have pre0: "ov_made (new_trace w w0) = []" "os_trace w0 = os_trace w @ new_trace w w0" "sockets w0 acc \<noteq> None" "sockets w0 this \<noteq> None"
    using run0 a s by (auto simp: pre_def socket_def exec sock_Some new_trace_def ov_made_def split: if_splits)
  let ?d = "IOData_default\<lparr>iod_socket := Some this, iod_accept_socket := Some acc,
      iod_user_handler := AcceptHandler handler\<rparr>"
  define v where "v = w0\<lparr>io_heap := (io_heap w0)(next_addr w0 \<mapsto> ?d), next_addr := next_addr w0 + 1\<rparr>"
  define w1 where "w1 = (if lpfn_accept_ex w0 = nullptr then v\<lparr>faults := faults v @ [Null_Function_Call]\<rparr> else v)"
  let ?call = "AcceptEx (lpfn_accept_ex w0) (ws_socket (sock w0 this)) (ws_socket (sock w0 acc)) acceptex_addr_len acceptex_addr_len"
  have sub: "run_state (submit_overlapped os (ws_io_handle (sock w0 this)) ?call (next_addr w0)) w1 = (Success, w')"
    and res: "res = Success"
    using run run0 a s pre0(3,4)
    by (auto simp: start_accept_def pre_def exec sock_Some load_fn_def w1_def v_def sock_def split: if_splits)
  from submit_made [OF sub] obtain tr where tr: "sockets w' = sockets w1" "os_trace w' = os_trace w1 @ tr"
    "ov_made tr = [(?call, next_addr w0)]" "opened tr = {#}" by blast
  have w1: "sockets w1 = sockets w0" "os_trace w1 = os_trace w0" by (simp_all add: w1_def v_def)
  have nt: "new_trace w w' = new_trace w w0 @ tr" using tr(2) w1(2) pre0(2) unfolding new_trace_def
    by (metis append.assoc append_eq_conv_conj)
  have sk: "sock w' = sock w0" using tr(1) w1(1) by (auto simp: sock_def)
  show "\<exists>f p. ov_made (new_trace w w') =
      [(AcceptEx f (ws_socket (sock w' this)) (ws_socket (sock w' acc)) acceptex_addr_len acceptex_addr_len, p)]"
    using tr(3) pre0(1) by (simp add: nt sk)
  show "accepting_object s a (sock w' acc) (new_trace w w')"
  proof (cases "is_valid a")
    case True
    then have "w0 = w" "created a" using run0 a(2) by (auto simp: pre_def is_valid_def fresh_def)
    then show ?thesis using True by (simp add: accepting_object_def sk sock_Some [OF a(1)])
  next
    case False
    then have "run_state (socket os acc (ws_addr_family s) (ws_sock_type s) (ws_protocol s)) w = (Success, w0)"
      using run0 res by (simp add: pre_def)
    from socket_run [OF a(1) c this] False tr(4) show ?thesis
      by (simp add: accepting_object_def nt sk held_def created_def opened_def)
  qed
qed

text \<open>A data operation that has not faulted has kept the contract, whatever the state of the socket.\<close>

lemma data_op_submits:
  assumes c: "overlapped_contract os" and wf: "heap_wf w"
    and d: "iod_socket d = Some this" "iod_error_code d = Success" "iod_accept_socket d = None"
    and run: "run_state (do {
        p \<leftarrow> new_io d;
        me \<leftarrow> read_sock this;
        submit_overlapped os (ws_io_handle me) (call me) p }) w = (err, w')"
    and nf: "faults w' = faults w" and q: "\<And>me. records me d (call me)"
  shows "submitted this records w err w' \<and> sockets w this \<noteq> None"
proof -
  let ?w1 = "w\<lparr>io_heap := (io_heap w)(next_addr w \<mapsto> d), next_addr := next_addr w + 1\<rparr>"
  have s: "sockets w this \<noteq> None" and h: "ws_io_handle (sock w this) \<noteq> nullptr"
    using run nf by (auto simp: exec submit_overlapped_def split: if_splits)
  have p: "prepared this d w ?w1" using d by (intro prepared_new) simp_all
  have "run_state (submit_overlapped os (ws_io_handle (sock w this)) (call (sock w this)) (next_addr w)) ?w1 = (err, w')"
    using run s by (simp add: exec)
  with prepared_submit_handle [OF c wf h p, of records, OF q] s show ?thesis by blast
qed

lemma start_recv_submits:
  assumes "overlapped_contract os" "heap_wf w" "run_state (start_recv buffer handler os this) w = (err, w')" "faults w' = faults w"
  shows "submitted this (recv_records buffer handler) w err w' \<and> sockets w this \<noteq> None"
  using data_op_submits [OF assms(1,2) _ _ _ assms(3) [unfolded start_recv_def] assms(4), of "recv_records buffer handler"]
  by (simp add: records_defs)

lemma start_recv_from_submits:
  assumes "overlapped_contract os" "heap_wf w" "run_state (start_recv_from buffer handler os this) w = (err, w')"
    "faults w' = faults w"
  shows "submitted this (recv_from_records buffer handler) w err w' \<and> sockets w this \<noteq> None"
  using data_op_submits [OF assms(1,2) _ _ _ assms(3) [unfolded start_recv_from_def] assms(4), of "recv_from_records buffer handler"]
  by (simp add: records_defs)

lemma start_send_submits:
  assumes "overlapped_contract os" "heap_wf w" "run_state (start_send buffer handler os this) w = (err, w')" "faults w' = faults w"
  shows "submitted this (send_records buffer handler) w err w' \<and> sockets w this \<noteq> None"
  using data_op_submits [OF assms(1,2) _ _ _ assms(3) [unfolded start_send_def] assms(4), of "send_records buffer handler"]
  by (simp add: records_defs)

lemma start_disconnect_submits:
  assumes c: "overlapped_contract os" and wf: "heap_wf w"
    and run: "run_state (start_disconnect reuse handler os this) w = (err, w')" and nf: "faults w' = faults w"
  shows "submitted this (disconnect_records reuse handler) w err w' \<and> sockets w this \<noteq> None"
proof -
  have l: "lpfn_disconnect_ex w \<noteq> nullptr"
    using run nf by (auto simp: start_disconnect_def exec submit_overlapped_def Let_def split: if_splits)
  then have "run_state (do {
      p \<leftarrow> new_io (IOData_default\<lparr>iod_socket := Some this, iod_user_handler := DisconnectHandler handler\<rparr>);
      me \<leftarrow> read_sock this;
      submit_overlapped os (ws_io_handle me) (DisconnectEx (lpfn_disconnect_ex w) (ws_socket me)
        (if reuse then TF_REUSE_SOCKET else 0)) p }) w = (err, w')"
    using run by (cases reuse; cases "sockets w this") (simp_all add: start_disconnect_def run_read_sock Let_def)
  from data_op_submits [OF c wf _ _ _ this nf, of "disconnect_records reuse handler"] l show ?thesis
    by (simp add: records_defs)
qed

lemma bind_ep_frame:
  assumes run: "run_state (bind_ep os this ep) w = (err, w')"
  shows "\<exists>us. faults w' = faults w @ us"
    and "faults w' = faults w \<Longrightarrow> start_frame w w' \<and> io_heap w' = io_heap w \<and> next_addr w' = next_addr w \<and>
      inflight w' = inflight w \<and> io_started (new_trace w w') = {#} \<and> io_cancelled (new_trace w w') = {#} \<and>
      ov_made (new_trace w w') = []"
  using run
  by (auto simp: bind_ep_def exec start_frame_def new_trace_def lpfns_loaded_def sockets_kept_def sock_Some
      split: if_splits cpp.splits)

lemma prepared_frame:
  assumes p: "prepared this d w w0" and f: "start_frame w0 w1" and e: "io_heap w1 = io_heap w0" "next_addr w1 = next_addr w0"
    "inflight w1 = inflight w0" "io_started (new_trace w0 w1) = {#}" "io_cancelled (new_trace w0 w1) = {#}"
    "ov_made (new_trace w0 w1) = []" and a: "iod_accept_socket d = None"
  shows "prepared this d w w1"
proof -
  have f0: "start_frame w w0" using p by (simp add: prepared_def)
  show ?thesis using p e a start_frame_trans [OF f0 f] by (simp add: prepared_def)
qed

lemma sample_ready: "ready (sample_world [sample_socket]) 0"
  by (simp add: ready_def heap_wf_def lpfns_loaded_def created_def sample_world_def sample_socket_def sock_def)

section \<open>Properties\<close>

text \<open>C6. Starting a receive, a send or a disconnect on a created socket: there is no fault, and either
  the operation has been announced to the thread pool once, with one new block that the system now
  owns (\<open>Success\<close>, also when the system says \<open>ERROR_IO_PENDING\<close>), or the error of the system is
  returned with the block freed, the announcement taken back and the heap as before.  On success one
  overlapped call has been made, on the handle of the socket and with the buffer given, and the
  block keeps the handler and the buffer.\<close>

theorem start_data_ops_submit:
  assumes "win_contract os" and "ready w this"
    and "op = start_recv buffer handler \<and> records = recv_records buffer handler \<or>
      op = start_recv_from buffer handler \<and> records = recv_from_records buffer handler \<or>
      op = start_send buffer handler \<and> records = send_records buffer handler \<or>
      op = start_disconnect reuse handler \<and> records = disconnect_records reuse handler"
    and "run_state (op os this) w = (err, w')"
  shows "submitted this records w err w'"
  using assms(3)
proof (elim disjE conjE)
  assume "op = start_recv buffer handler" "records = recv_records buffer handler"
  with assms show ?thesis by (simp add: recv_start.submits)
next
  assume "op = start_recv_from buffer handler" "records = recv_from_records buffer handler"
  with assms show ?thesis by (simp add: recv_from_start.submits)
next
  assume "op = start_send buffer handler" "records = send_records buffer handler"
  with assms show ?thesis by (simp add: send_start.submits)
next
  assume "op = start_disconnect reuse handler" "records = disconnect_records reuse handler"
  with assms show ?thesis by (simp add: disconnect_start.submits)
qed

theorem start_data_ops_submit_witness:
  "submitted 0 (recv_records \<lparr>sp_data = 0, sp_size = 512\<rparr> (Some 1)) (sample_world [sample_socket])
     (fst (run_state (start_recv \<lparr>sp_data = 0, sp_size = 512\<rparr> (Some 1) sample_os 0) (sample_world [sample_socket])))
     (snd (run_state (start_recv \<lparr>sp_data = 0, sp_size = 512\<rparr> (Some 1) sample_os 0) (sample_world [sample_socket])))"
  by (rule start_data_ops_submit [OF sample_win_contract sample_ready,
        where op = "start_recv \<lparr>sp_data = 0, sp_size = 512\<rparr> (Some 1)"
          and buffer = "\<lparr>sp_data = 0, sp_size = 512\<rparr>" and handler = "Some 1" and reuse = False]) (simp_all only: simp_thms prod.collapse)

text \<open>C8. Starting a connection with an endpoint of the socket's family, on a socket that is bound or can be
  bound: the same contract.  After success the socket is bound, as \<open>ConnectEx\<close> requires: it was
  before, or it has been bound to the unspecified address of its family by a call that
  succeeded, before the connection was requested.\<close>

theorem start_connect_submits:
  assumes "win_contract os" and "ready w this" and "connect_ok dst os this w"
    and "run_state (start_connect dst handler os this) w = (err, w')"
  shows "submitted this (connect_records dst handler) w err w' \<and>
    (err = Success \<longrightarrow> ws_is_bound (sock w' this) \<and>
      (ws_is_bound (sock w this) \<or>
       (\<exists>sa r tr. new_trace w w' = (Ws (Ws_bind (ws_socket (sock w this)) sa sizeof_sockaddr), r) # tr \<and> ret r = 0 \<and>
          endpoint_to_sockaddr (ws_addr_family (sock w this)) (any_endpoint (ws_addr_family (sock w this))) = Ret (Success, sa))))"
proof
  show "submitted this (connect_records dst handler) w err w'" using assms by (rule connect_start.submits)
  show "err = Success \<longrightarrow> ws_is_bound (sock w' this) \<and>
      (ws_is_bound (sock w this) \<or>
       (\<exists>sa r tr. new_trace w w' = (Ws (Ws_bind (ws_socket (sock w this)) sa sizeof_sockaddr), r) # tr \<and> ret r = 0 \<and>
          endpoint_to_sockaddr (ws_addr_family (sock w this)) (any_endpoint (ws_addr_family (sock w this))) = Ret (Success, sa)))"
    using connect_binds [OF assms] by blast
qed

theorem start_connect_submits_witness:
  "submitted 0 (connect_records (Ep_V4 (IPv4Address_loopback 63000)) None) (sample_world [sample_socket])
     (fst (run_state (start_connect (Ep_V4 (IPv4Address_loopback 63000)) None sample_os 0) (sample_world [sample_socket])))
     (snd (run_state (start_connect (Ep_V4 (IPv4Address_loopback 63000)) None sample_os 0) (sample_world [sample_socket])))"
proof -
  let ?w = "sample_world [sample_socket]" and ?any = "Ep_V4 (IPv4Address_any 0)"
  have s: "sockets ?w 0 = Some sample_socket" by (simp add: sample_world_def)
  have fam: "ws_addr_family (sock ?w 0) = AF_IPv4" by (simp add: sock_Some [OF s]) (simp add: sample_socket_def)
  obtain sa where sa: "endpoint_to_sockaddr (ws_addr_family sample_socket) ?any = Ret (Success, sa)"
    using encode_matching [of "ws_addr_family sample_socket" ?any] by (auto simp: sample_socket_def)
  have "fst (run_state (bind_ep sample_os 0 ?any) ?w) = Success"
    using bind_run(2) [OF s sample_contracts(3) sa] by (cases "run_state (bind_ep sample_os 0 ?any) ?w")
      (simp add: sample_os_def)
  then have "connect_ok (Ep_V4 (IPv4Address_loopback 63000)) sample_os 0 ?w"
    by (simp add: connect_ok_def dst_ok_def fam any_endpoint_def)
  then show ?thesis by (rule start_connect_submits [OF sample_win_contract sample_ready, THEN conjunct1]) simp
qed

text \<open>C7. Starting an accept, with an accepting object that has a handle or none yet: the same contract.  A failure to create
  the handle is returned before any block is allocated.  On success the accepting object has a handle: the one it
  had, or a new one, the only one obtained in the call, of the listener's family, type and protocol.
  \<open>AcceptEx\<close> was given this handle and the listener's.\<close>

theorem start_accept_submits:
  assumes "win_contract os" and "ready w this" and "acceptor_ok accept_socket os this w"
    and "run_state (start_accept accept_socket handler os this) w = (err, w')"
  shows "submitted this (accept_records accept_socket handler) w err w' \<and>
    (err = Success \<longrightarrow> (\<exists>acc f p. accept_socket = Some acc \<and>
       ov_made (new_trace w w') =
         [(AcceptEx f (ws_socket (sock w' this)) (ws_socket (sock w' acc)) acceptex_addr_len acceptex_addr_len, p)] \<and>
       accepting_object (sock w this) (sock w acc) (sock w' acc) (new_trace w w')))"
proof
  show "submitted this (accept_records accept_socket handler) w err w'" using assms by (rule accept_start.submits)
  obtain acc a s where a: "accept_socket = Some acc" "sockets w acc = Some a" "fresh a \<or> created a" "sockets w this = Some s"
    using assms(2,3) by (auto simp: acceptor_ok_def ready_def sock_Some)
  show "err = Success \<longrightarrow> (\<exists>acc f p. accept_socket = Some acc \<and>
       ov_made (new_trace w w') =
         [(AcceptEx f (ws_socket (sock w' this)) (ws_socket (sock w' acc)) acceptex_addr_len acceptex_addr_len, p)] \<and>
       accepting_object (sock w this) (sock w acc) (sock w' acc) (new_trace w w'))"
  proof
    assume "err = Success"
    with assms(4) a(1) have "run_state (start_accept (Some acc) handler os this) w = (Success, w')" by simp
    from accept_handle [OF win_contractD(3,5) [OF assms(1)] a(2-4) this] a show "\<exists>acc f p. accept_socket = Some acc \<and>
       ov_made (new_trace w w') =
         [(AcceptEx f (ws_socket (sock w' this)) (ws_socket (sock w' acc)) acceptex_addr_len acceptex_addr_len, p)] \<and>
       accepting_object (sock w this) (sock w acc) (sock w' acc) (new_trace w w')"
      by (auto simp: sock_Some)
  qed
qed

theorem start_accept_submits_witness:
  "submitted 0 (accept_records (Some 1) None) (sample_world [sample_socket, WinSocket_default 0])
     (fst (run_state (start_accept (Some 1) None sample_os 0) (sample_world [sample_socket, WinSocket_default 0])))
     (snd (run_state (start_accept (Some 1) None sample_os 0) (sample_world [sample_socket, WinSocket_default 0])))"
proof (rule start_accept_submits [OF sample_win_contract, THEN conjunct1])
  let ?w = "sample_world [sample_socket, WinSocket_default 0]"
  show "ready ?w 0"
    by (simp add: ready_def heap_wf_def lpfns_loaded_def created_def sample_world_def sample_socket_def sock_def)
  show "acceptor_ok (Some 1) sample_os 0 ?w"
    by (simp add: acceptor_ok_def sample_world_def sock_def)
qed simp

text \<open>The early returns of \<open>start_connect\<close> and \<open>start_send_to\<close> forget the block: on a socket whose
  family is neither IPv4 nor IPv6 both return \<open>AddressFamilyNotSupported\<close> without a fault, but the
  block they allocated stays on the heap and nobody owns it.\<close>

theorem start_unsupported_family_leaks:
  assumes "heap_wf w" and "sockets w this = Some s"
    and "ws_addr_family s \<noteq> AF_IPv4" and "ws_addr_family s \<noteq> AF_IPv6"
    and "op = start_connect dst handler \<or> op = start_send_to data dst handler"
    and "run_state (op os this) w = (err, w')"
  shows "err = AddressFamilyNotSupported \<and> faults w' = faults w \<and>
    io_heap w (next_addr w) = None \<and> io_heap w' (next_addr w) \<noteq> None \<and> inflight w' = inflight w \<and>
    new_trace w w' = []"
proof -
  have e: "endpoint_to_sockaddr (ws_addr_family s) dst = Ret (AddressFamilyNotSupported, zero_storage)"
    using assms(3,4) by (rule endpoint_to_sockaddr_unsupported)
  show ?thesis
    using assms(5,6) heap_wfD(1) [OF assms(1)]
    by (auto simp: start_connect_def start_send_to_def exec sock_Some assms(2) e new_trace_def)
qed

theorem start_unsupported_family_leaks_witness:
  "io_heap (snd (run_state (start_connect (Ep_V4 (IPv4Address_loopback 80)) None sample_os 0)
     (sample_world [WinSocket_default 0]))) 1 \<noteq> None"
proof -
  let ?w = "sample_world [WinSocket_default 0]"
  have "heap_wf ?w" "sockets ?w 0 = Some (WinSocket_default 0)" "next_addr ?w = 1"
    by (simp_all add: heap_wf_def sample_world_def)
  then show ?thesis
    using start_unsupported_family_leaks [of ?w 0 "WinSocket_default 0"
        "start_connect (Ep_V4 (IPv4Address_loopback 80)) None"]
    by (simp add: WinSocket_default_def) (metis prod.collapse)
qed


definition bind_refusing_os :: "unit os" where
  "bind_refusing_os c u = (case c of Ws (Ws_bind _ _ _) \<Rightarrow> (answer SOCKET_ERROR False, u) | _ \<Rightarrow> sample_os c u)"


text \<open>Nothing guards against starting an operation on an object without a handle: every data operation
  then calls the thread pool with a null pointer.\<close>

theorem start_without_handle_faults:
  assumes "sockets w this = Some s" and "fresh s"
    and "op = start_recv buffer handler \<or> op = start_recv_from buffer handler \<or> op = start_send buffer handler"
    and "run_state (op os this) w = (err, w')"
  shows "Null_Threadpool_Io \<in> set (faults w')"
  using assms
  by (auto simp: start_recv_def start_recv_from_def start_send_def submit_overlapped_def exec sock_Some fresh_def
      split: if_splits)

theorem start_without_handle_faults_witness:
  "Null_Threadpool_Io \<in> set (faults (snd (run_state (start_send \<lparr>sp_data = 0, sp_size = 1\<rparr> None sample_os 0)
     (sample_world [WinSocket_default 0]))))"
proof -
  let ?w = "sample_world [WinSocket_default 0]"
  have s: "sockets ?w 0 = Some (WinSocket_default 0)" by (simp add: sample_world_def)
  show ?thesis
    by (rule start_without_handle_faults [OF s fresh_default,
          where op = "start_send \<lparr>sp_data = 0, sp_size = 1\<rparr> None" and os = sample_os
            and err = "fst (run_state (start_send \<lparr>sp_data = 0, sp_size = 1\<rparr> None sample_os 0) ?w)"
            and buffer = "\<lparr>sp_data = 0, sp_size = 1\<rparr>" and handler = None]) simp_all
qed

end
