(* ===== verification/Win_IOCore.thy ===== *)
theory Win_IOCore
  imports Win_Async
begin

text \<open>
  \<open>io_core.cpp\<close> and \<open>win_io_core.cpp\<close>: the I/O core with its two thread pools.  A pool is set up
  in steps, each recorded in the rollback level, and torn down by a switch that falls through from
  the recorded level; the theorems show that what a teardown closes is what the level records.
  The two functions that post work are instances of the locale \<open>work_queue\<close>: a callback handed to
  the system is owned by it, a refused one is freed.  \<open>run\<close> and \<open>stop\<close>, which synchronise
  threads, are modelled in \<open>Run_Stop\<close>.
\<close>

section \<open>Access to a core\<close>

definition WinIOCore_default :: WinIOCore where
  "WinIOCore_default =
     \<lparr>core_conf = \<lparr>io_threadpool_min_threads = 0, io_threadpool_max_threads = 0,
        user_threadpool_min_threads = 0, user_threadpool_max_threads = 0\<rparr>,
      core_stop_requested = 0,
      core_io_pool = \<lparr>tp_rollback = Rb_None, tp_cleanup_group = nullptr, tp_threadpool = nullptr\<rparr>,
      core_user_pool = \<lparr>tp_rollback = Rb_None, tp_cleanup_group = nullptr, tp_threadpool = nullptr\<rparr>\<rparr>"

definition core :: "'o world \<Rightarrow> core_id \<Rightarrow> WinIOCore" where
  "core w c = (case cores w c of Some x \<Rightarrow> x | None \<Rightarrow> WinIOCore_default)"

definition read_core :: "core_id \<Rightarrow> ('o, WinIOCore) prog" where
  "read_core c = do {
     w \<leftarrow> State_Monad.get;
     when (cores w c = None) (raise_fault Null_Deref);
     State_Monad.return (core w c) }"

definition upd_core :: "core_id \<Rightarrow> (WinIOCore \<Rightarrow> WinIOCore) \<Rightarrow> ('o, unit) prog" where
  "upd_core c f = do {
     w \<leftarrow> State_Monad.get;
     if cores w c = None then raise_fault Null_Deref
     else modify (\<lambda>w. w\<lparr>cores := (cores w)(c \<mapsto> f (core w c))\<rparr>) }"

fun pool_of :: "pool \<Rightarrow> WinIOCore \<Rightarrow> threadpool" where
  "pool_of Io_Pool k = core_io_pool k"
| "pool_of User_Pool k = core_user_pool k"

fun pool_upd :: "pool \<Rightarrow> (threadpool \<Rightarrow> threadpool) \<Rightarrow> WinIOCore \<Rightarrow> WinIOCore" where
  "pool_upd Io_Pool f k = k\<lparr>core_io_pool := f (core_io_pool k)\<rparr>"
| "pool_upd User_Pool f k = k\<lparr>core_user_pool := f (core_user_pool k)\<rparr>"

definition set_rollback :: "core_id \<Rightarrow> pool \<Rightarrow> ThreadpoolRollback \<Rightarrow> ('o, unit) prog" where
  "set_rollback this pl rb = upd_core this (pool_upd pl (\<lambda>t. t\<lparr>tp_rollback := rb\<rparr>))"

section \<open>Thread pools\<close>

text \<open>The pointer parameters of the two static functions name the members of one pool.\<close>

definition initialize_threadpool :: "'o os \<Rightarrow> core_id \<Rightarrow> pool \<Rightarrow> u32 \<Rightarrow> u32 \<Rightarrow> ('o, ErrorCode) prog" where
  "initialize_threadpool os this pl threads_min threads_max = do {
     sys os (Tp (InitializeThreadpoolEnvironment pl this));
     set_rollback this pl InitEnviron;
     r \<leftarrow> sys os (Tp Create_Threadpool);
     let threadpool = word_of_int (ret r);
     upd_core this (pool_upd pl (\<lambda>t. t\<lparr>tp_threadpool := threadpool\<rparr>));
     if threadpool \<noteq> nullptr then do {
       set_rollback this pl CreateThreadpool;
       sys os (Tp (SetThreadpoolThreadMaximum threadpool threads_max));
       res \<leftarrow> sys os (Tp (SetThreadpoolThreadMinimum threadpool threads_min));
       if ret res \<noteq> 0 then do {
         g \<leftarrow> sys os (Tp CreateThreadpoolCleanupGroup);
         let cleanup_group = word_of_int (ret g);
         upd_core this (pool_upd pl (\<lambda>t. t\<lparr>tp_cleanup_group := cleanup_group\<rparr>));
         if cleanup_group \<noteq> nullptr then do {
           set_rollback this pl CreateCleanupGroup;
           sys os (Tp (SetThreadpoolCallbackPool pl this threadpool));
           sys os (Tp (SetThreadpoolCallbackCleanupGroup pl this cleanup_group));
           State_Monad.return Success }
         else last_error os }
       else last_error os }
     else last_error os }"

definition WAIT_OBJECT_0 :: int where "WAIT_OBJECT_0 = 0"
definition WAIT_TIMEOUT :: int where "WAIT_TIMEOUT = 258"
definition WAIT_FAILED :: int where "WAIT_FAILED = 4294967295"

text \<open>The labels of the switch of \<open>release_threadpool\<close>, each falling through to the next.\<close>

definition release_environ :: "'o os \<Rightarrow> core_id \<Rightarrow> pool \<Rightarrow> ('o, unit) prog" where
  "release_environ os this pl = do {
     sys os (Tp (DestroyThreadpoolEnvironment pl this));
     set_rollback this pl Rb_None }"

definition release_pool :: "'o os \<Rightarrow> core_id \<Rightarrow> pool \<Rightarrow> ptr \<Rightarrow> ('o, unit) prog" where
  "release_pool os this pl threadpool = do {
     sys os (Tp (CloseThreadpool threadpool));
     set_rollback this pl InitEnviron;
     release_environ os this pl }"

definition release_group :: "'o os \<Rightarrow> core_id \<Rightarrow> int \<Rightarrow> pool \<Rightarrow> ptr \<Rightarrow> ptr \<Rightarrow> ('o, ErrorCode) prog" where
  "release_group os this timeout_ms pl cleanup_group threadpool = do {
     t \<leftarrow> sys os (Tp (CreateThread_CloseMembers cleanup_group));
     let cleanup_thread = word_of_int (ret t);
     return_val \<leftarrow> (if cleanup_thread \<noteq> nullptr then do {
         res \<leftarrow> sys os (Tp (WaitForSingleObject cleanup_thread timeout_ms));
         sys os (Tp (CloseHandle cleanup_thread));
         if ret res = WAIT_OBJECT_0 then State_Monad.return Success
         else if ret res = WAIT_TIMEOUT then State_Monad.return Success
         else if ret res = WAIT_FAILED then last_error os
         else State_Monad.return SystemError }
       else last_error os);
     sys os (Tp (CloseThreadpoolCleanupGroup cleanup_group));
     set_rollback this pl CreateThreadpool;
     release_pool os this pl threadpool;
     State_Monad.return return_val }"

definition release_threadpool :: "'o os \<Rightarrow> core_id \<Rightarrow> int \<Rightarrow> pool \<Rightarrow> ptr \<Rightarrow> ptr \<Rightarrow> ('o, ErrorCode) prog" where
  "release_threadpool os this timeout_ms pl cleanup_group threadpool = do {
     me \<leftarrow> read_core this;
     return_val \<leftarrow> (case tp_rollback (pool_of pl me) of
         CreateCleanupGroup \<Rightarrow> release_group os this timeout_ms pl cleanup_group threadpool
       | CreateThreadpool \<Rightarrow> do { release_pool os this pl threadpool; State_Monad.return Success }
       | InitEnviron \<Rightarrow> do { release_environ os this pl; State_Monad.return Success }
       | Rb_None \<Rightarrow> State_Monad.return Success);
     set_rollback this pl Rb_None;
     State_Monad.return return_val }"

section \<open>Extension functions\<close>

text \<open>A statement that may return from the function: \<open>Some\<close> is the value it returns.\<close>

definition or_return :: "('o, 'e option) prog \<Rightarrow> ('o, 'e) prog \<Rightarrow> ('o, 'e) prog" where
  "or_return m k = do {
     r \<leftarrow> m;
     case r of Some e \<Rightarrow> State_Monad.return e | None \<Rightarrow> k }"

text \<open>One of the four blocks of \<open>get_extended_socket_functions\<close>: a pointer already there is kept.\<close>

definition load_extension :: "'o os \<Rightarrow> NativeHandle \<Rightarrow> ext_fn \<Rightarrow> ('o world \<Rightarrow> ptr) \<Rightarrow>
    (ptr \<Rightarrow> 'o world \<Rightarrow> 'o world) \<Rightarrow> ('o, ErrorCode option) prog" where
  "load_extension os dummy_socket fn lpfn store = do {
     p \<leftarrow> gets lpfn;
     if p = nullptr then do {
       r \<leftarrow> sys os (Opt (WSAIoctl dummy_socket fn));
       if ret r \<noteq> 0 then do {
         result \<leftarrow> last_wsa_error os;
         sys os (Ws (Closesocket dummy_socket));
         State_Monad.return (Some result) }
       else do { modify (store (word_of_int (out0 r))); State_Monad.return None } }
     else State_Monad.return None }"

definition get_extended_socket_functions :: "'o os \<Rightarrow> ('o, ErrorCode) prog" where
  "get_extended_socket_functions os = do {
     r \<leftarrow> sys os (Ws (WSASocketW AF_INET 1 0));
     let dummy_socket = word_of_int (ret r);
     if dummy_socket = INVALID_SOCKET then last_wsa_error os
     else
       or_return (load_extension os dummy_socket Fn_AcceptEx lpfn_accept_ex (\<lambda>p w. w\<lparr>lpfn_accept_ex := p\<rparr>))
      (or_return (load_extension os dummy_socket Fn_GetAcceptExSockaddrs lpfn_get_accept_ex_sockaddrs
                    (\<lambda>p w. w\<lparr>lpfn_get_accept_ex_sockaddrs := p\<rparr>))
      (or_return (load_extension os dummy_socket Fn_ConnectEx lpfn_connect_ex (\<lambda>p w. w\<lparr>lpfn_connect_ex := p\<rparr>))
      (or_return (load_extension os dummy_socket Fn_DisconnectEx lpfn_disconnect_ex (\<lambda>p w. w\<lparr>lpfn_disconnect_ex := p\<rparr>))
      (do {
         r \<leftarrow> sys os (Ws (Closesocket dummy_socket));
         if ret r \<noteq> 0 then last_wsa_error os else State_Monad.return Success })))) }"

section \<open>Life of a core\<close>

definition WINSOCK_VERSION :: u16 where
  "WINSOCK_VERSION = 2 + 2 * 256"        \<comment> \<open>\<open>MAKEWORD(2, 2)\<close>\<close>

definition CLEANUP_TIMEOUT_MS :: int where "CLEANUP_TIMEOUT_MS = 5000"

definition initialize :: "'o os \<Rightarrow> core_id \<Rightarrow> ('o, ErrorCode) prog" where
  "initialize os this = do {
     res \<leftarrow> sys os (Ws (WSAStartup WINSOCK_VERSION));
     if ret res \<noteq> 0 then State_Monad.return (ec_of_int (ret res))
     else if (word_of_int (out0 res) :: u16) \<noteq> WINSOCK_VERSION then State_Monad.return NotSupported
     else do {
       err \<leftarrow> get_extended_socket_functions os;
       if err \<noteq> Success then State_Monad.return err
       else do {
         me \<leftarrow> read_core this;
         err \<leftarrow> initialize_threadpool os this Io_Pool (io_threadpool_min_threads (core_conf me))
                  (io_threadpool_max_threads (core_conf me));
         if err \<noteq> Success then State_Monad.return err
         else do {
           me \<leftarrow> read_core this;
           err \<leftarrow> initialize_threadpool os this User_Pool (user_threadpool_min_threads (core_conf me))
                    (user_threadpool_max_threads (core_conf me));
           if err \<noteq> Success then State_Monad.return err
           else do {
             upd_core this (\<lambda>k. k\<lparr>core_stop_requested := 0\<rparr>);
             State_Monad.return Success } } } } }"

definition release :: "'o os \<Rightarrow> core_id \<Rightarrow> ('o, ErrorCode) prog" where
  "release os this = do {
     me \<leftarrow> read_core this;
     result \<leftarrow> release_threadpool os this CLEANUP_TIMEOUT_MS User_Pool
                 (tp_cleanup_group (core_user_pool me)) (tp_threadpool (core_user_pool me));
     if result \<noteq> Success then State_Monad.return result
     else do {
       me \<leftarrow> read_core this;
       result \<leftarrow> release_threadpool os this CLEANUP_TIMEOUT_MS Io_Pool
                   (tp_cleanup_group (core_io_pool me)) (tp_threadpool (core_io_pool me));
       if result \<noteq> Success then State_Monad.return result
       else do {
         r \<leftarrow> sys os (Ws WSACleanup);
         if ret r = SOCKET_ERROR then last_wsa_error os else State_Monad.return Success } } }"

text \<open>
  \<open>IOCore::create\<close> with the identity of the new object.  The constructor leaves the members of the
  pools uninitialised; what they hold is an argument.  On failure the \<open>unique_ptr\<close> destroys the
  object, with the empty destructor.
\<close>

definition WinIOCore_new :: "IOCoreConfig \<Rightarrow> threadpool \<Rightarrow> threadpool \<Rightarrow> WinIOCore" where
  "WinIOCore_new config junk_io junk_user =
     \<lparr>core_conf = config, core_stop_requested = 0, core_io_pool = junk_io, core_user_pool = junk_user\<rparr>"

definition core_create :: "'o os \<Rightarrow> IOCoreConfig \<Rightarrow> threadpool \<Rightarrow> threadpool \<Rightarrow> core_id \<Rightarrow>
    ('o, ErrorCode + core_id) prog" where
  "core_create os config junk_io junk_user new_id = do {
     modify (\<lambda>w. w\<lparr>cores := (cores w)(new_id \<mapsto> WinIOCore_new config junk_io junk_user)\<rparr>);
     ec \<leftarrow> initialize os new_id;
     if ec \<noteq> Success then do {
       modify (\<lambda>w. w\<lparr>cores := (cores w)(new_id := None)\<rparr>);
       State_Monad.return (Inl ec) }
     else State_Monad.return (Inr new_id) }"

section \<open>Posting work\<close>

definition post_io_work :: "'o os \<Rightarrow> core_id \<Rightarrow> work \<Rightarrow> ('o, ErrorCode) prog" where
  "post_io_work os this func = do {
     heap_func \<leftarrow> new_fn func;
     success \<leftarrow> sys os (TrySubmitThreadpoolCallback heap_func Io_Pool this);
     if ret success = 0 then do {
       delete_fn heap_func;
       last_error os }
     else State_Monad.return Success }"

definition post_user_work :: "'o os \<Rightarrow> core_id \<Rightarrow> work \<Rightarrow> ('o, ErrorCode) prog" where
  "post_user_work os this func = do {
     heap_func \<leftarrow> new_fn func;
     success \<leftarrow> sys os (TrySubmitThreadpoolCallback heap_func User_Pool this);
     if ret success = 0 then do {
       delete_fn heap_func;
       last_error os }
     else State_Monad.return Success }"

section \<open>Contracts\<close>

text \<open>What the system promises of the thread pool calls: a failure sets an error code, a \<open>DWORD\<close>.\<close>

definition tp_fails :: "tp_call \<Rightarrow> int \<Rightarrow> bool" where
  "tp_fails c i \<longleftrightarrow>
     (case c of
        Create_Threadpool \<Rightarrow> (word_of_int i :: ptr) = nullptr
      | CreateThreadpoolCleanupGroup \<Rightarrow> (word_of_int i :: ptr) = nullptr
      | CreateThread_CloseMembers _ \<Rightarrow> (word_of_int i :: ptr) = nullptr
      | SetThreadpoolThreadMinimum _ _ \<Rightarrow> i = 0
      | _ \<Rightarrow> False)"

definition tp_contract :: "'o os \<Rightarrow> bool" where
  "tp_contract os \<longleftrightarrow>
     (\<forall>c w. tp_fails c (ret (sys_ret os (Tp c) w)) \<longrightarrow>
            0 < ret (sys_ret os GetLastError (after os (Tp c) w)) \<and>
            ret (sys_ret os GetLastError (after os (Tp c) w)) < 2 ^ 32)"

text \<open>
  The objects of the thread pool interface and the reference on Winsock, and those a trace has
  acquired and given back.
\<close>

datatype tp_obj = Winsock | Environ pool core_id | Threadpool ptr | Cleanup_Group ptr

fun tp_opened_by :: "syscall \<times> sysret \<Rightarrow> tp_obj list" where
  "tp_opened_by (Tp (InitializeThreadpoolEnvironment pl c), r) = [Environ pl c]"
| "tp_opened_by (Tp Create_Threadpool, r) =
     (if (word_of_int (ret r) :: ptr) = nullptr then [] else [Threadpool (word_of_int (ret r))])"
| "tp_opened_by (Tp CreateThreadpoolCleanupGroup, r) =
     (if (word_of_int (ret r) :: ptr) = nullptr then [] else [Cleanup_Group (word_of_int (ret r))])"
| "tp_opened_by (Ws (WSAStartup v), r) = (if ret r = 0 then [Winsock] else [])"
| "tp_opened_by _ = []"

fun tp_closed_by :: "syscall \<times> sysret \<Rightarrow> tp_obj list" where
  "tp_closed_by (Tp (DestroyThreadpoolEnvironment pl c), r) = [Environ pl c]"
| "tp_closed_by (Tp (CloseThreadpool p), r) = [Threadpool p]"
| "tp_closed_by (Tp (CloseThreadpoolCleanupGroup p), r) = [Cleanup_Group p]"
| "tp_closed_by (Ws WSACleanup, r) = (if ret r = SOCKET_ERROR then [] else [Winsock])"
| "tp_closed_by _ = []"

definition tp_opened :: "(syscall \<times> sysret) list \<Rightarrow> tp_obj multiset" where
  "tp_opened tr = mset (concat (map tp_opened_by tr))"

definition tp_closed :: "(syscall \<times> sysret) list \<Rightarrow> tp_obj multiset" where
  "tp_closed tr = mset (concat (map tp_closed_by tr))"

text \<open>What a pool owns, by the level its rollback member records.\<close>

fun tp_owned :: "ThreadpoolRollback \<Rightarrow> core_id \<Rightarrow> pool \<Rightarrow> ptr \<Rightarrow> ptr \<Rightarrow> tp_obj multiset" where
  "tp_owned Rb_None c pl g p = {#}"
| "tp_owned InitEnviron c pl g p = {#Environ pl c#}"
| "tp_owned CreateThreadpool c pl g p = {#Environ pl c, Threadpool p#}"
| "tp_owned CreateCleanupGroup c pl g p = {#Environ pl c, Threadpool p, Cleanup_Group g#}"

definition tp_held :: "core_id \<Rightarrow> pool \<Rightarrow> WinIOCore \<Rightarrow> tp_obj multiset" where
  "tp_held c pl k = (let t = pool_of pl k in tp_owned (tp_rollback t) c pl (tp_cleanup_group t) (tp_threadpool t))"

text \<open>A run has changed at most the members of one core, and has not faulted.\<close>

definition only_core :: "core_id \<Rightarrow> 'o world \<Rightarrow> 'o world \<Rightarrow> bool" where
  "only_core this w w' \<longleftrightarrow>
     (\<exists>k. cores w' = (cores w)(this \<mapsto> k)) \<and> faults w' = faults w \<and> sockets w' = sockets w \<and> umem w' = umem w \<and>
     io_heap w' = io_heap w \<and> fn_heap w' = fn_heap w \<and> next_addr w' = next_addr w \<and>
     inflight w' = inflight w \<and> posted w' = posted w \<and> invoked w' = invoked w \<and>
     os_trace w' = os_trace w @ new_trace w w'"

section \<open>Lemmas\<close>

lemma tp_resources [simp]:
  "tp_opened [] = {#}" "tp_opened (e # tr) = mset (tp_opened_by e) + tp_opened tr"
  "tp_closed [] = {#}" "tp_closed (e # tr) = mset (tp_closed_by e) + tp_closed tr"
  "tp_opened (tr @ tr') = tp_opened tr + tp_opened tr'"
  "tp_closed (tr @ tr') = tp_closed tr + tp_closed tr'"
  by (simp_all add: tp_opened_def tp_closed_def)

lemma core_after [simp]: "core (after os c w) k = core w k"
  by (simp add: core_def)

lemma core_upd [simp]: "core (w\<lparr>cores := (cores w')(c \<mapsto> x)\<rparr>) c = x"
  by (simp add: core_def)

lemma core_Some: "cores w c = Some k \<Longrightarrow> core w c = k"
  by (simp add: core_def)

lemma run_read_core [exec]:
  "run_state (read_core c) w =
     (core w c, if cores w c = None then w\<lparr>faults := faults w @ [Null_Deref]\<rparr> else w)"
  by (simp add: read_core_def)

lemma run_upd_core [exec]:
  "run_state (upd_core c f) w =
     ((), if cores w c = None then w\<lparr>faults := faults w @ [Null_Deref]\<rparr>
          else w\<lparr>cores := (cores w)(c \<mapsto> f (core w c))\<rparr>)"
  by (simp add: upd_core_def)

lemma pool_of_upd [simp]: "pool_of pl (pool_upd pl f k) = f (pool_of pl k)"
  by (cases pl) simp_all

lemma pool_of_upd_other [simp]: "pl \<noteq> pl' \<Longrightarrow> pool_of pl (pool_upd pl' f k) = pool_of pl k"
  by (cases pl; cases pl') simp_all

lemma core_conf_upd [simp]: "core_conf (pool_upd pl f k) = core_conf k"
  "core_stop_requested (pool_upd pl f k) = core_stop_requested k"
  by (cases pl; simp)+

lemma pool_upd_upd [simp]: "pool_upd pl f (pool_upd pl g k) = pool_upd pl (f \<circ> g) k"
  by (cases pl) simp_all

lemma tp_contractD:
  assumes "tp_contract os" and "tp_fails c (ret (sys_ret os (Tp c) w))"
  shows "to_int32 (ret (sys_ret os GetLastError (after os (Tp c) w))) \<noteq> 0"
proof -
  have "0 < ret (sys_ret os GetLastError (after os (Tp c) w))"
    and "ret (sys_ret os GetLastError (after os (Tp c) w)) < 2 ^ 32"
    using assms unfolding tp_contract_def by blast+
  then show ?thesis by (simp add: to_int32_zero_iff)
qed

lemma sample_tp_contract [simp]: "tp_contract sample_os"
  by (simp add: tp_contract_def tp_fails_def sample_os_def split: tp_call.splits)

lemma only_core_trans:
  assumes "only_core c w w1" and "only_core c w1 w2"
  shows "only_core c w w2" and "new_trace w w2 = new_trace w w1 @ new_trace w1 w2"
proof -
  show tr: "new_trace w w2 = new_trace w w1 @ new_trace w1 w2"
    using assms by (intro new_trace_trans) (simp_all add: only_core_def)
  show "only_core c w w2" using assms tr by (auto simp: only_core_def)
qed

subsection \<open>Setting up and tearing down a pool\<close>

lemma initialize_threadpool_run:
  assumes k: "cores w this = Some k" and c: "tp_contract os"
    and run: "run_state (initialize_threadpool os this pl tmin tmax) w = (err, w')"
  shows "only_core this w w'"
    and "\<exists>f. core w' this = pool_upd pl f k"
    and "tp_opened (new_trace w w') = tp_held this pl (core w' this)" "tp_closed (new_trace w w') = {#}"
    and "err = Success \<longleftrightarrow> tp_rollback (pool_of pl (core w' this)) = CreateCleanupGroup"
    and "lpfns_loaded w' = lpfns_loaded w"
proof -
  note e = tp_contractD [OF c, of Create_Threadpool] tp_contractD [OF c, of "SetThreadpoolThreadMinimum _ _"]
    tp_contractD [OF c, of CreateThreadpoolCleanupGroup]
  show "only_core this w w'"
    using run k by (auto simp: initialize_threadpool_def set_rollback_def exec Let_def only_core_def new_trace_def
        core_Some split: if_splits)
  show "\<exists>f. core w' this = pool_upd pl f k"
    using run k by (auto simp: initialize_threadpool_def set_rollback_def exec Let_def core_Some split: if_splits)
  show "tp_opened (new_trace w w') = tp_held this pl (core w' this)" "tp_closed (new_trace w w') = {#}"
    using run k by (auto simp: initialize_threadpool_def set_rollback_def exec Let_def new_trace_def
        core_Some tp_held_def split: if_splits)
  show "err = Success \<longleftrightarrow> tp_rollback (pool_of pl (core w' this)) = CreateCleanupGroup"
    using run k e by (auto simp: initialize_threadpool_def set_rollback_def exec Let_def core_Some tp_fails_def
        split: if_splits)
  show "lpfns_loaded w' = lpfns_loaded w"
    using run k by (auto simp: initialize_threadpool_def set_rollback_def exec Let_def lpfns_loaded_def core_Some
        split: if_splits)
qed

lemma release_threadpool_run:
  assumes k: "cores w this = Some k"
    and run: "run_state (release_threadpool os this ms pl (tp_cleanup_group (pool_of pl k))
      (tp_threadpool (pool_of pl k))) w = (err, w')"
  shows "only_core this w w'"
    and "core w' this = pool_upd pl (\<lambda>t. t\<lparr>tp_rollback := Rb_None\<rparr>) k"
    and "tp_opened (new_trace w w') = {#}" "tp_closed (new_trace w w') = tp_held this pl k"
    and "lpfns_loaded w' = lpfns_loaded w"
proof -
  note defs = release_threadpool_def release_group_def release_pool_def release_environ_def set_rollback_def exec
    Let_def core_Some comp_def
  show "only_core this w w'"
    using run k by (cases "tp_rollback (pool_of pl k)") (auto simp: defs only_core_def new_trace_def split: if_splits)
  show "core w' this = pool_upd pl (\<lambda>t. t\<lparr>tp_rollback := Rb_None\<rparr>) k"
    using run k by (cases "tp_rollback (pool_of pl k)") (auto simp: defs split: if_splits)
  show "tp_opened (new_trace w w') = {#}" "tp_closed (new_trace w w') = tp_held this pl k"
    using run k by (cases "tp_rollback (pool_of pl k)"; auto simp: defs new_trace_def tp_held_def split: if_splits)+
  show "lpfns_loaded w' = lpfns_loaded w"
    using run k by (cases "tp_rollback (pool_of pl k)") (auto simp: defs lpfns_loaded_def split: if_splits)
qed

subsection \<open>Extension functions\<close>

text \<open>The system stores a function pointer when the query succeeds.\<close>

definition ioctl_contract :: "'o os \<Rightarrow> bool" where
  "ioctl_contract os \<longleftrightarrow>
     (\<forall>h fn w. ret (sys_ret os (Opt (WSAIoctl h fn)) w) = 0 \<longrightarrow>
               (word_of_int (out0 (sys_ret os (Opt (WSAIoctl h fn)) w)) :: ptr) \<noteq> nullptr)"

text \<open>A run has changed at most pointers that were null, and has not faulted.\<close>

definition only_lpfns :: "'o world \<Rightarrow> 'o world \<Rightarrow> bool" where
  "only_lpfns w w' \<longleftrightarrow>
     (\<forall>f \<in> {lpfn_accept_ex, lpfn_get_accept_ex_sockaddrs, lpfn_connect_ex, lpfn_disconnect_ex}.
        f w \<noteq> nullptr \<longrightarrow> f w' = f w) \<and>
     cores w' = cores w \<and> faults w' = faults w \<and> sockets w' = sockets w \<and> umem w' = umem w \<and>
     io_heap w' = io_heap w \<and> fn_heap w' = fn_heap w \<and> next_addr w' = next_addr w \<and>
     inflight w' = inflight w \<and> posted w' = posted w \<and> invoked w' = invoked w \<and>
     os_trace w' = os_trace w @ new_trace w w' \<and> tp_opened (new_trace w w') = {#} \<and> tp_closed (new_trace w w') = {#}"

lemma only_lpfns_trans:
  assumes "only_lpfns w w1" and "only_lpfns w1 w2"
  shows "only_lpfns w w2" and "new_trace w w2 = new_trace w w1 @ new_trace w1 w2"
proof -
  show tr: "new_trace w w2 = new_trace w w1 @ new_trace w1 w2"
    using assms by (intro new_trace_trans) (simp_all add: only_lpfns_def)
  show "only_lpfns w w2" using assms tr by (simp add: only_lpfns_def)
qed

lemma only_lpfns_loaded: "only_lpfns w w' \<Longrightarrow> lpfns_loaded w \<Longrightarrow> lpfns_loaded w'"
  by (simp add: only_lpfns_def lpfns_loaded_def)

lemma run_or_return:
  "run_state (or_return m k) w =
     (case run_state m w of (Some e, w1) \<Rightarrow> (e, w1) | (None, w1) \<Rightarrow> run_state k w1)"
  by (simp add: or_return_def split: prod.splits option.splits)

text \<open>One block: a failure releases the dummy socket and ends the function, with an error.\<close>

lemma load_extension_run:
  assumes c: "opt_contract os" "ioctl_contract os"
    and f: "f \<in> {(lpfn_accept_ex, \<lambda>p w. w\<lparr>lpfn_accept_ex := p\<rparr>),
      (lpfn_get_accept_ex_sockaddrs, \<lambda>p w. w\<lparr>lpfn_get_accept_ex_sockaddrs := p\<rparr>),
      (lpfn_connect_ex, \<lambda>p w. w\<lparr>lpfn_connect_ex := p\<rparr>), (lpfn_disconnect_ex, \<lambda>p w. w\<lparr>lpfn_disconnect_ex := p\<rparr>)}"
    and run: "run_state (load_extension os h fn (fst f) (snd f)) w = (r, w')"
  shows "only_lpfns w w'" and "opened (new_trace w w') = {#}"
    and "r = None \<Longrightarrow> fst f w' \<noteq> nullptr \<and> closed (new_trace w w') = {#}"
    and "r \<noteq> None \<Longrightarrow> (\<exists>e. r = Some e \<and> e \<noteq> Success) \<and> closed (new_trace w w') = {#h#}"
proof -
  let ?c = "WSAIoctl h fn"
  have e: "ret (sys_ret os (Opt ?c) w) \<noteq> 0 \<Longrightarrow> ret (sys_ret os WSAGetLastError (after os (Opt ?c) w)) \<noteq> 0"
    using c(1) unfolding opt_contract_def by blast
  have p: "ret (sys_ret os (Opt ?c) w) = 0 \<Longrightarrow> (word_of_int (out0 (sys_ret os (Opt ?c) w)) :: ptr) \<noteq> nullptr"
    using c(2) unfolding ioctl_contract_def by blast
  show "only_lpfns w w'"
    using f run by (auto simp: load_extension_def exec only_lpfns_def new_trace_def split: if_splits)
  show "opened (new_trace w w') = {#}"
    and "r = None \<Longrightarrow> fst f w' \<noteq> nullptr \<and> closed (new_trace w w') = {#}"
    and "r \<noteq> None \<Longrightarrow> (\<exists>e. r = Some e \<and> e \<noteq> Success) \<and> closed (new_trace w w') = {#h#}"
    using f run e p by (auto simp: load_extension_def exec new_trace_def split: if_splits)
qed

text \<open>What the rest of the function promises once the pointers in \<open>F\<close> are there.\<close>

definition ext_tail :: "('o world \<Rightarrow> ptr) set \<Rightarrow> NativeHandle \<Rightarrow> ('o, ErrorCode) prog \<Rightarrow> bool" where
  "ext_tail F h m \<longleftrightarrow>
     (\<forall>w err w'. (\<forall>f\<in>F. f w \<noteq> nullptr) \<longrightarrow> run_state m w = (err, w') \<longrightarrow>
        only_lpfns w w' \<and> opened (new_trace w w') = {#} \<and> closed (new_trace w w') = {#h#} \<and>
        (err = Success \<longrightarrow> lpfns_loaded w'))"

lemma resources_append [simp]:
  "opened (tr @ tr') = opened tr + opened tr'" "closed (tr @ tr') = closed tr + closed tr'"
  by (simp_all add: opened_def closed_def)

lemma ext_tail_step:
  assumes c: "opt_contract os" "ioctl_contract os"
    and f: "(f, store) \<in> {(lpfn_accept_ex, \<lambda>p w. w\<lparr>lpfn_accept_ex := p\<rparr>),
      (lpfn_get_accept_ex_sockaddrs, \<lambda>p w. w\<lparr>lpfn_get_accept_ex_sockaddrs := p\<rparr>),
      (lpfn_connect_ex, \<lambda>p w. w\<lparr>lpfn_connect_ex := p\<rparr>), (lpfn_disconnect_ex, \<lambda>p w. w\<lparr>lpfn_disconnect_ex := p\<rparr>)}"
    and F: "F \<subseteq> {lpfn_accept_ex, lpfn_get_accept_ex_sockaddrs, lpfn_connect_ex, lpfn_disconnect_ex}"
    and k: "ext_tail (insert f F) h k"
  shows "ext_tail F h (or_return (load_extension os h fn f store) k)"
  unfolding ext_tail_def
proof (intro allI impI)
  fix w err w'
  assume nn: "\<forall>g\<in>F. g w \<noteq> nullptr"
    and run: "run_state (or_return (load_extension os h fn f store) k) w = (err, w')"
  obtain r w1 where run1: "run_state (load_extension os h fn f store) w = (r, w1)" by fastforce
  note l = load_extension_run [OF c f, unfolded fst_conv snd_conv, OF run1]
  show "only_lpfns w w' \<and> opened (new_trace w w') = {#} \<and> closed (new_trace w w') = {#h#} \<and>
      (err = Success \<longrightarrow> lpfns_loaded w')"
  proof (cases r)
    case None
    have "\<forall>g\<in>insert f F. g w1 \<noteq> nullptr"
      using nn F l(1) l(3) [OF None] by (auto simp: only_lpfns_def)
    moreover have "run_state k w1 = (err, w')" using run run1 None by (simp add: run_or_return)
    ultimately have t: "only_lpfns w1 w'" "opened (new_trace w1 w') = {#}" "closed (new_trace w1 w') = {#h#}"
      "err = Success \<longrightarrow> lpfns_loaded w'" using k unfolding ext_tail_def by blast+
    show ?thesis using only_lpfns_trans [OF l(1) t(1)] t l(2) l(3) [OF None] by simp
  next
    case (Some e)
    then show ?thesis using run run1 l(1,2,4) by (auto simp: run_or_return)
  qed
qed

lemma ext_tail_close:
  "ext_tail {lpfn_accept_ex, lpfn_get_accept_ex_sockaddrs, lpfn_connect_ex, lpfn_disconnect_ex} h
    (do { r \<leftarrow> sys os (Ws (Closesocket h));
          if ret r \<noteq> 0 then last_wsa_error os else State_Monad.return Success })"
  by (auto simp: ext_tail_def exec only_lpfns_def lpfns_loaded_def new_trace_def split: if_splits)

lemma ext_tail_mono: "ext_tail F h m \<Longrightarrow> F \<subseteq> G \<Longrightarrow> ext_tail G h m"
  unfolding ext_tail_def by blast

lemma get_extended_run:
  assumes c: "wsa_contract os" "opt_contract os" "ioctl_contract os"
    and run: "run_state (get_extended_socket_functions os) w = (err, w')"
  shows "only_lpfns w w'" and "opened (new_trace w w') = closed (new_trace w w')"
    and "err = Success \<Longrightarrow> lpfns_loaded w'"
proof -
  let ?c = "Ws (WSASocketW AF_INET 1 0)"
  let ?h = "word_of_int (ret (sys_ret os ?c w)) :: NativeHandle" and ?w = "after os ?c w"
  have "only_lpfns w w' \<and> opened (new_trace w w') = closed (new_trace w w') \<and> (err = Success \<longrightarrow> lpfns_loaded w')"
  proof (cases "?h = INVALID_SOCKET")
    case True
    moreover have "ret (sys_ret os WSAGetLastError ?w) \<noteq> 0"
      using True by (intro wsa_contractD [OF c(1)]) (simp add: wsa_fails_def)
    ultimately show ?thesis
      using run by (auto simp: get_extended_socket_functions_def exec only_lpfns_def new_trace_def)
  next
    case False
    obtain m where m: "run_state (get_extended_socket_functions os) w = run_state m ?w" and t: "ext_tail {} ?h m"
    proof
      show "run_state (get_extended_socket_functions os) w = run_state
          (or_return (load_extension os ?h Fn_AcceptEx lpfn_accept_ex (\<lambda>p w. w\<lparr>lpfn_accept_ex := p\<rparr>))
          (or_return (load_extension os ?h Fn_GetAcceptExSockaddrs lpfn_get_accept_ex_sockaddrs
             (\<lambda>p w. w\<lparr>lpfn_get_accept_ex_sockaddrs := p\<rparr>))
          (or_return (load_extension os ?h Fn_ConnectEx lpfn_connect_ex (\<lambda>p w. w\<lparr>lpfn_connect_ex := p\<rparr>))
          (or_return (load_extension os ?h Fn_DisconnectEx lpfn_disconnect_ex (\<lambda>p w. w\<lparr>lpfn_disconnect_ex := p\<rparr>))
          (do { r \<leftarrow> sys os (Ws (Closesocket ?h));
                if ret r \<noteq> 0 then last_wsa_error os else State_Monad.return Success }))))) ?w"
        using False by (simp add: get_extended_socket_functions_def exec Let_def)
    qed (intro ext_tail_step [OF c(2,3)] ext_tail_close [THEN ext_tail_mono]; simp)
    have tr: "os_trace w' = os_trace ?w @ new_trace ?w w'" and
      "only_lpfns ?w w'" "opened (new_trace ?w w') = {#}" "closed (new_trace ?w w') = {#?h#}"
      "err = Success \<longrightarrow> lpfns_loaded w'"
      using t run unfolding m ext_tail_def only_lpfns_def by blast+
    moreover have "only_lpfns w ?w" and "new_trace w ?w = [(?c, sys_ret os ?c w)]"
      by (simp_all add: only_lpfns_def new_trace_def)
    ultimately show ?thesis using only_lpfns_trans [of w ?w w'] False by simp
  qed
  then show "only_lpfns w w'" and "opened (new_trace w w') = closed (new_trace w w')"
    and "err = Success \<Longrightarrow> lpfns_loaded w'" by blast+
qed

subsection \<open>Life of a core\<close>

definition core_contract :: "'o os \<Rightarrow> bool" where
  "core_contract os \<longleftrightarrow> tp_contract os \<and> wsa_contract os \<and> opt_contract os \<and> ioctl_contract os"

definition core_held :: "core_id \<Rightarrow> WinIOCore \<Rightarrow> tp_obj multiset" where
  "core_held c k = tp_held c Io_Pool k + tp_held c User_Pool k"

definition initialized :: "WinIOCore \<Rightarrow> bool" where
  "initialized k \<longleftrightarrow> tp_rollback (core_io_pool k) = CreateCleanupGroup \<and>
     tp_rollback (core_user_pool k) = CreateCleanupGroup \<and> core_stop_requested k = 0"

lemma core_contractD:
  assumes "core_contract os"
  shows "tp_contract os" "wsa_contract os" "opt_contract os" "ioctl_contract os"
  using assms by (simp_all add: core_contract_def)

lemma sample_core_contract [simp]: "core_contract sample_os"
  by (simp add: core_contract_def ioctl_contract_def) (simp add: sample_os_def)

lemma ex_upd_same: "m c = Some k \<Longrightarrow> \<exists>k'. m = m(c \<mapsto> k')"
  by (metis fun_upd_triv)

lemma only_lpfns_core: "only_lpfns w w' \<Longrightarrow> cores w c = Some k \<Longrightarrow> only_core c w w'"
  using ex_upd_same [of "cores w" c k] by (simp only: only_lpfns_def only_core_def)

lemma only_core_cores: "only_core c w w' \<Longrightarrow> cores w' c = Some (core w' c)"
  by (auto simp: only_core_def core_def)

lemma tp_held_upd_other [simp]:
  "pl \<noteq> pl' \<Longrightarrow> tp_held c pl (pool_upd pl' f k) = tp_held c pl k"
  by (simp add: tp_held_def)

lemma tp_held_stop [simp]: "tp_held c pl (k\<lparr>core_stop_requested := b\<rparr>) = tp_held c pl k"
  by (cases pl) (simp_all add: tp_held_def)

lemma initialize_run:
  assumes k: "cores w this = Some k" and c: "core_contract os"
    and run: "run_state (initialize os this) w = (err, w')"
  shows "only_core this w w'" and "tp_closed (new_trace w w') = {#}"
    and "err = Success \<Longrightarrow> initialized (core w' this) \<and> lpfns_loaded w' \<and>
      core_conf (core w' this) = core_conf k \<and>
      tp_opened (new_trace w w') = {#Winsock#} + core_held this (core w' this)"
proof -
  let ?c = "Ws (WSAStartup WINSOCK_VERSION)"
  let ?P = "only_core this w w' \<and> tp_closed (new_trace w w') = {#} \<and> (err = Success \<longrightarrow>
      initialized (core w' this) \<and> lpfns_loaded w' \<and> core_conf (core w' this) = core_conf k \<and>
      tp_opened (new_trace w w') = {#Winsock#} + core_held this (core w' this))"
  let ?w = "after os ?c w"
  have f0: "only_core this w ?w" "new_trace w ?w = [(?c, sys_ret os ?c w)]"
    using ex_upd_same [of "cores w", OF k] by (simp_all add: only_core_def new_trace_def)
  obtain e1 w1 where run1: "run_state (get_extended_socket_functions os) ?w = (e1, w1)" by fastforce
  note g = get_extended_run [OF core_contractD(2-4) [OF c] run1]
  have k1: "cores w1 this = Some k" using g(1) k by (simp add: only_lpfns_def)
  obtain e2 w2 where run2: "run_state (initialize_threadpool os this Io_Pool
      (io_threadpool_min_threads (core_conf k)) (io_threadpool_max_threads (core_conf k))) w1 = (e2, w2)" by fastforce
  note i = initialize_threadpool_run [OF k1 core_contractD(1) [OF c] run2]
  have k2: "cores w2 this = Some (core w2 this)" using i(1) by (rule only_core_cores)
  have conf2: "core_conf (core w2 this) = core_conf k" using i(2) by auto
  obtain e3 w3 where run3: "run_state (initialize_threadpool os this User_Pool
      (user_threadpool_min_threads (core_conf k)) (user_threadpool_max_threads (core_conf k))) w2 = (e3, w3)" by fastforce
  note u = initialize_threadpool_run [OF k2 core_contractD(1) [OF c] run3]
  have k3: "cores w3 this = Some (core w3 this)" using u(1) by (rule only_core_cores)
  let ?w4 = "w3\<lparr>cores := (cores w3)(this \<mapsto> (core w3 this)\<lparr>core_stop_requested := 0\<rparr>)\<rparr>"
  have f4: "only_core this w3 ?w4" "new_trace w3 ?w4 = []" by (auto simp: only_core_def new_trace_def)
  have kw: "cores ?w this = Some k" using k by simp
  note t1 = only_core_trans [OF f0(1) only_lpfns_core [OF g(1) kw]]
  note t2 = only_core_trans [OF t1(1) i(1)]
  note t3 = only_core_trans [OF t2(1) u(1)]
  note t4 = only_core_trans [OF t3(1) f4(1)]
  have g': "tp_opened (new_trace ?w w1) = {#}" "tp_closed (new_trace ?w w1) = {#}"
    using g(1) by (simp_all add: only_lpfns_def)
  have "?P"
  proof (cases "ret (sys_ret os ?c w) \<noteq> 0 \<or> (word_of_int (out0 (sys_ret os ?c w)) :: u16) \<noteq> WINSOCK_VERSION")
    case True
    then have "err \<noteq> Success" "w' = ?w" using run by (auto simp: initialize_def exec split: if_splits)
    then show ?thesis using f0 by simp
  next
    case False
    then have ok: "ret (sys_ret os ?c w) = 0" by simp
    note d = initialize_def exec run1 run2 run3 k1 k2 k3 core_Some [OF k1] conf2
    show ?thesis
    proof (cases "e1 = Success \<and> e2 = Success \<and> e3 = Success")
      case True
      with run False have w': "w' = ?w4" "err = Success" by (auto simp: d)
      have "initialized (core w' this)"
        using i(5) u(2,5) True w' by (auto simp: initialized_def)
      moreover have "lpfns_loaded w'" using g(3) i(6) u(6) True w' by (simp add: lpfns_loaded_def)
      moreover have "core_conf (core w' this) = core_conf k" using u(2) conf2 w' by auto
      moreover have "tp_held this Io_Pool (core w3 this) = tp_held this Io_Pool (core w2 this)"
        using u(2) tp_held_upd_other [of Io_Pool User_Pool] by fastforce
      ultimately show ?thesis
        using t1(2) t2(2) t3(2) t4 f0(2) f4(2) g' i(3,4) u(3,4) ok w' by (simp add: core_held_def)
    next
      case fail: False
      then have "err \<noteq> Success \<and> (w' = w1 \<or> w' = w2 \<or> w' = w3)"
        using run False by (auto simp: d split: if_splits)
      then show ?thesis using t1 t2 t3 f0(2) g' i(4) u(4) by auto
    qed
  qed
  then show "only_core this w w'" and "tp_closed (new_trace w w') = {#}"
    and "err = Success \<Longrightarrow> initialized (core w' this) \<and> lpfns_loaded w' \<and>
      core_conf (core w' this) = core_conf k \<and>
      tp_opened (new_trace w w') = {#Winsock#} + core_held this (core w' this)" by blast+
qed

lemma tp_held_released [simp]: "tp_held c pl (pool_upd pl (\<lambda>t. t\<lparr>tp_rollback := Rb_None\<rparr>) k) = {#}"
  by (simp add: tp_held_def)

lemma release_run:
  assumes k: "cores w this = Some k" and c: "wsa_contract os"
    and run: "run_state (release os this) w = (err, w')"
  shows "only_core this w w'" and "tp_opened (new_trace w w') = {#}"
    and "if err = Success then tp_closed (new_trace w w') = core_held this k + {#Winsock#} \<and>
        core_held this (core w' this) = {#}
      else tp_closed (new_trace w w') + core_held this (core w' this) = core_held this k"
proof -
  let ?P = "only_core this w w' \<and> tp_opened (new_trace w w') = {#} \<and>
      (if err = Success then tp_closed (new_trace w w') = core_held this k + {#Winsock#} \<and>
         core_held this (core w' this) = {#}
       else tp_closed (new_trace w w') + core_held this (core w' this) = core_held this k)"
  obtain e1 w1 where run1: "run_state (release_threadpool os this CLEANUP_TIMEOUT_MS User_Pool
      (tp_cleanup_group (core_user_pool k)) (tp_threadpool (core_user_pool k))) w = (e1, w1)" by fastforce
  note r1 = release_threadpool_run [OF k run1 [folded pool_of.simps]]
  have k1: "cores w1 this = Some (core w1 this)" using r1(1) by (rule only_core_cores)
  obtain e2 w2 where run2: "run_state (release_threadpool os this CLEANUP_TIMEOUT_MS Io_Pool
      (tp_cleanup_group (core_io_pool (core w1 this))) (tp_threadpool (core_io_pool (core w1 this)))) w1 = (e2, w2)"
    by fastforce
  note r2 = release_threadpool_run [OF k1 run2 [folded pool_of.simps]]
  have k2: "cores w2 this = Some (core w2 this)" using r2(1) by (rule only_core_cores)
  let ?w3 = "after os (Ws WSACleanup) w2"
  let ?w4 = "after os WSAGetLastError ?w3"
  have f3: "only_core this w2 ?w3" "new_trace w2 ?w3 = [(Ws WSACleanup, sys_ret os (Ws WSACleanup) w2)]"
    using ex_upd_same [of "cores w2", OF k2] by (simp_all add: only_core_def new_trace_def)
  have f4: "only_core this ?w3 ?w4" "new_trace ?w3 ?w4 = [(WSAGetLastError, sys_ret os WSAGetLastError ?w3)]"
    using ex_upd_same [of "cores w2", OF k2] by (simp_all add: only_core_def new_trace_def)
  note t2 = only_core_trans [OF r1(1) r2(1)]
  note t3 = only_core_trans [OF t2(1) f3(1)]
  note t4 = only_core_trans [OF t3(1) f4(1)]
  have h1: "tp_held this Io_Pool (core w1 this) = tp_held this Io_Pool k" "tp_held this User_Pool (core w1 this) = {#}"
    unfolding r1(2) by (rule tp_held_upd_other, simp, rule tp_held_released)
  have h2: "tp_held this Io_Pool (core w2 this) = {#}" "tp_held this User_Pool (core w2 this) = {#}"
    unfolding r2(2) by (rule tp_held_released, subst tp_held_upd_other, simp, rule h1)
  have e: "ret (sys_ret os (Ws WSACleanup) w2) = SOCKET_ERROR \<Longrightarrow> ret (sys_ret os WSAGetLastError ?w3) \<noteq> 0"
    by (intro wsa_contractD [OF c]) (simp add: wsa_fails_def)
  note d = release_def exec k k1 core_Some [OF k] run1 run2
  have "(e1 \<noteq> Success \<and> err = e1 \<and> w' = w1) \<or> (e1 = Success \<and> e2 \<noteq> Success \<and> err = e2 \<and> w' = w2) \<or>
      (err \<noteq> Success \<and> ret (sys_ret os (Ws WSACleanup) w2) = SOCKET_ERROR \<and> w' = ?w4) \<or>
      (err = Success \<and> ret (sys_ret os (Ws WSACleanup) w2) \<noteq> SOCKET_ERROR \<and> w' = ?w3)"
    using run e by (auto simp: d split: if_splits)
  then have ?P
    by (elim disjE conjE; simp add: r1(1,3,4) r2(3,4) h1 h2 t2 t3 t4 f3(2) f4(2) core_held_def)
  then show "only_core this w w'" and "tp_opened (new_trace w w') = {#}"
    and "if err = Success then tp_closed (new_trace w w') = core_held this k + {#Winsock#} \<and>
        core_held this (core w' this) = {#}
      else tp_closed (new_trace w w') + core_held this (core w' this) = core_held this k" by blast+
qed

subsection \<open>Posting work\<close>

text \<open>
  The contract of a function that posts work on a pool: the closure is on the heap and the system
  will run it, once, or it has been freed and the error is returned.
\<close>

definition queued_or_freed :: "pool \<Rightarrow> work \<Rightarrow> 'o world \<Rightarrow> ErrorCode \<Rightarrow> 'o world \<Rightarrow> bool" where
  "queued_or_freed pl func w err w' \<longleftrightarrow>
     faults w' = faults w \<and> sockets w' = sockets w \<and> cores w' = cores w \<and> io_heap w' = io_heap w \<and>
     inflight w' = inflight w \<and> invoked w' = invoked w \<and> umem w' = umem w \<and> lpfns_loaded w' = lpfns_loaded w \<and>
     next_addr w' = next_addr w + 1 \<and>
     (if err = Success
      then fn_heap w' = (fn_heap w)(next_addr w \<mapsto> func) \<and> posted w' = posted w @ [(pl, next_addr w)]
      else fn_heap w' = fn_heap w \<and> posted w' = posted w)"

locale work_queue =
  fixes post :: "'o os \<Rightarrow> core_id \<Rightarrow> work \<Rightarrow> ('o, ErrorCode) prog"
    and pl :: pool
  assumes posts: "submit_contract os \<Longrightarrow> heap_wf w \<Longrightarrow> run_state (post os c func) w = (err, w') \<Longrightarrow>
      queued_or_freed pl func w err w'"
begin

lemma keeps_heap_wf:
  assumes "submit_contract os" "heap_wf w" "run_state (post os c func) w = (err, w')"
  shows "heap_wf w'"
  using posts [OF assms] assms(2) by (auto simp: queued_or_freed_def heap_wf_def split: if_splits)

text \<open>No closure is on the heap that the system will not run.\<close>

lemma no_leak:
  assumes "submit_contract os" "heap_wf w" "run_state (post os c func) w = (err, w')"
  shows "dom (fn_heap w') - snd ` set (posted w') \<subseteq> dom (fn_heap w) - snd ` set (posted w)"
  using posts [OF assms] by (auto simp: queued_or_freed_def split: if_splits)

end

lemma post_run:
  assumes c: "submit_contract os" and wf: "heap_wf w"
    and run: "run_state (do {
        p \<leftarrow> new_fn func;
        success \<leftarrow> sys os (TrySubmitThreadpoolCallback p pl this);
        if ret success = 0 then do { delete_fn p; last_error os } else State_Monad.return Success }) w = (err, w')"
  shows "queued_or_freed pl func w err w'"
proof -
  let ?w = "w\<lparr>fn_heap := (fn_heap w)(next_addr w \<mapsto> func), next_addr := next_addr w + 1\<rparr>"
  have n: "0 < next_addr w" "fn_heap w (next_addr w) = None" using wf by (auto simp: heap_wf_def)
  have u: "(fn_heap w)(next_addr w := None) = fn_heap w" using n by (simp add: fun_upd_idem)
  note e = submit_contractD [OF c, of "next_addr w" pl this ?w]
  show ?thesis
    using run n u e by (auto simp: exec queued_or_freed_def posted_after lpfns_loaded_def split: if_splits)
qed

interpretation io_queue: work_queue post_io_work Io_Pool
  by unfold_locales (rule post_run; simp add: post_io_work_def)

interpretation user_queue: work_queue post_user_work User_Pool
  by unfold_locales (rule post_run; simp add: post_user_work_def)

lemma core_create_run:
  assumes c: "core_contract os"
    and run: "run_state (core_create os config junk_io junk_user new_id) w = (res, w')"
  shows "case res of
      Inr c \<Rightarrow> c = new_id \<and> only_core new_id w w' \<and> initialized (core w' new_id) \<and> lpfns_loaded w' \<and>
        core_conf (core w' new_id) = config \<and> tp_closed (new_trace w w') = {#} \<and>
        tp_opened (new_trace w w') = {#Winsock#} + core_held new_id (core w' new_id)
    | Inl e \<Rightarrow> e \<noteq> Success \<and> faults w' = faults w \<and> cores w' = (cores w)(new_id := None) \<and>
        tp_closed (new_trace w w') = {#}"
proof -
  let ?k = "WinIOCore_new config junk_io junk_user"
  let ?w0 = "w\<lparr>cores := (cores w)(new_id \<mapsto> ?k)\<rparr>"
  have k: "cores ?w0 new_id = Some ?k" by simp
  have f0: "only_core new_id w ?w0" "new_trace w ?w0 = []" by (auto simp: only_core_def new_trace_def)
  obtain ec w1 where run1: "run_state (initialize os new_id) ?w0 = (ec, w1)" by fastforce
  note i = initialize_run [OF k c run1]
  note t = only_core_trans [OF f0(1) i(1)]
  show ?thesis
  proof (cases "ec = Success")
    case True
    then have "res = Inr new_id" "w' = w1" using run run1 by (auto simp: core_create_def)
    then show ?thesis using t f0(2) i(2) i(3) [OF True] by (simp add: WinIOCore_new_def)
  next
    case False
    then have r: "res = Inl ec" "w' = w1\<lparr>cores := (cores w1)(new_id := None)\<rparr>" using run run1 by (auto simp: core_create_def)
    moreover have "new_trace w (w1\<lparr>cores := (cores w1)(new_id := None)\<rparr>) = new_trace w w1"
      by (simp add: new_trace_def)
    moreover have "(cores w1)(new_id := None) = (cores w)(new_id := None)" "faults w1 = faults w"
      using t(1) by (auto simp: only_core_def)
    ultimately show ?thesis using False t(2) f0(2) i(2) by simp
  qed
qed

section \<open>Properties\<close>

text \<open>C20. Creating a core: a core that \<open>create\<close> returns has both pools set up to the last level, all
  four extension functions loaded and its stop flag clear, and the objects acquired on the way
  (Winsock, environments, pools, cleanup groups) are exactly those its rollback levels record.\<close>

theorem core_create_establishes:
  assumes "core_contract os"
    and "run_state (core_create os config junk_io junk_user new_id) w = (Inr c, w')"
  shows "cores w' c = Some (core w' c) \<and> initialized (core w' c) \<and> lpfns_loaded w' \<and> faults w' = faults w \<and>
    core_conf (core w' c) = config \<and>
    tp_opened (new_trace w w') = {#Winsock#} + core_held c (core w' c)"
  using core_create_run [OF assms] only_core_cores [of c w w'] by (auto simp: only_core_def)

definition bare_world :: "unit world" where
  "bare_world = (sample_world [])\<lparr>cores := Map.empty, lpfn_accept_ex := nullptr,
     lpfn_get_accept_ex_sockaddrs := nullptr, lpfn_connect_ex := nullptr, lpfn_disconnect_ex := nullptr\<rparr>"

lemma sample_answers:
  "sample_os WSAGetLastError u = (answer ERROR_IO_PENDING False, u)"
  "sample_os GetLastError u = (answer 8 False, u)"
  "sample_os (Ws (WSAStartup v)) u = ((answer 0 False)\<lparr>out0 := uint v\<rparr>, u)"
  "sample_os (Ws WSACleanup) u = (answer 0 False, u)"
  "sample_os (Ws (WSASocketW i j k)) u = (answer 100 False, u)"
  "sample_os (Ws (Closesocket h)) u = (answer 0 False, u)"
  "sample_os (Opt oc) u = (answer 0 False, u)"
  "sample_os (Tp Create_Threadpool) u = (answer 600 False, u)"
  "sample_os (Tp CreateThreadpoolCleanupGroup) u = (answer 700 False, u)"
  "sample_os (Tp (SetThreadpoolThreadMinimum p n)) u = (answer 1 False, u)"
  "sample_os (Tp (CreateThread_CloseMembers p)) u = (answer 800 False, u)"
  "sample_os (Tp (WaitForSingleObject p ms)) u = (answer 0 False, u)"
  "sample_os (TrySubmitThreadpoolCallback f pl c) u = (answer 1 True, u)"
  by (simp_all add: sample_os_def)

lemma fst_or_return:
  "fst (run_state (or_return m k) w) =
     (case fst (run_state m w) of Some e \<Rightarrow> e | None \<Rightarrow> fst (run_state k (snd (run_state m w))))"
  by (simp add: run_or_return split: prod.splits option.splits)

lemma sample_get_extended: "fst (run_state (get_extended_socket_functions sample_os) w) = Success"
proof -
  have l: "fst (run_state (load_extension sample_os h fn lpfn store) w) = None" for h fn lpfn store w
    by (simp add: load_extension_def exec sample_answers)
  show ?thesis
    by (simp add: get_extended_socket_functions_def exec Let_def fst_or_return l sample_answers)
qed

lemma sample_initialize_threadpool:
  "fst (run_state (initialize_threadpool sample_os this pl n m) w) = Success"
  by (simp add: initialize_threadpool_def set_rollback_def exec Let_def sample_answers)

lemma fst_bind:
  "fst (run_state (State_Monad.bind m f) w) = fst (run_state (f (fst (run_state m w))) (snd (run_state m w)))"
  by (simp split: prod.splits)

lemma sample_initialize: "fst (run_state (initialize sample_os this) w) = Success"
  by (simp add: initialize_def fst_bind sample_get_extended sample_initialize_threadpool sample_answers
      del: run_state_bind)

lemma sample_create:
  "fst (run_state (core_create sample_os sample_config junk_io junk_user 0) w) = Inr 0"
  using sample_initialize by (simp add: core_create_def split: prod.splits) (metis fst_conv)

theorem core_create_establishes_witness:
  "initialized (core (snd (run_state (core_create sample_os sample_config (pool_of Io_Pool sample_core)
     (pool_of User_Pool sample_core) 0) bare_world)) 0)"
proof -
  obtain r w' where run: "run_state (core_create sample_os sample_config (pool_of Io_Pool sample_core)
     (pool_of User_Pool sample_core) 0) bare_world = (r, w')" by fastforce
  then have "r = Inr 0" using sample_create by (metis fst_conv)
  then show ?thesis using core_create_establishes [OF sample_core_contract] run by fastforce
qed

text \<open>C17. Creating and releasing balance: when \<open>create\<close> returns a core and a later \<open>release\<close> of it
  succeeds, everything acquired since (Winsock, environments, pools, cleanup groups) has been given
  back exactly once, and the core records that it holds nothing.\<close>

theorem create_release_balanced:
  assumes "core_contract os"
    and "run_state (core_create os config junk_io junk_user new_id) w = (Inr c, w1)"
    and "run_state (release os c) w1 = (Success, w2)"
  shows "tp_opened (new_trace w w2) = tp_closed (new_trace w w2) \<and> core_held c (core w2 c) = {#} \<and>
    faults w2 = faults w"
proof -
  have c: "c = new_id" and f1: "only_core c w w1" and t1: "tp_closed (new_trace w w1) = {#}"
    and o1: "tp_opened (new_trace w w1) = {#Winsock#} + core_held c (core w1 c)"
    using core_create_run [OF assms(1,2)] by auto
  note r = release_run [OF only_core_cores [OF f1] core_contractD(2) [OF assms(1)] assms(3)]
  note t = only_core_trans [OF f1 r(1)]
  show ?thesis using t t1 o1 r(2,3) by (simp add: only_core_def)
qed

lemma sample_release: "fst (run_state (release sample_os this) w) = Success"
proof -
  have "fst (run_state (release_threadpool sample_os this ms pl g t) v) = Success" for ms pl g t and v :: "unit world"
    by (cases "tp_rollback (pool_of pl (core v this))")
      (simp_all add: release_threadpool_def release_group_def fst_bind Let_def run_read_core sample_answers
        WAIT_OBJECT_0_def del: run_state_bind)
  then show ?thesis
    by (simp add: release_def fst_bind sample_answers SOCKET_ERROR_def del: run_state_bind)
qed

theorem create_release_balanced_witness:
  "\<exists>w1 w2. run_state (core_create sample_os sample_config (pool_of Io_Pool sample_core)
       (pool_of User_Pool sample_core) 0) bare_world = (Inr 0, w1) \<and>
     run_state (release sample_os 0) w1 = (Success, w2) \<and>
     tp_opened (new_trace bare_world w2) = tp_closed (new_trace bare_world w2)"
proof -
  let ?m = "core_create sample_os sample_config (pool_of Io_Pool sample_core) (pool_of User_Pool sample_core) 0"
  obtain w1 where 1: "run_state ?m bare_world = (Inr 0, w1)"
    using sample_create by (metis prod.collapse)
  obtain w2 where 2: "run_state (release sample_os 0) w1 = (Success, w2)"
    using sample_release by (metis prod.collapse)
  show ?thesis using create_release_balanced [OF sample_core_contract 1 2] 1 2 by blast
qed

text \<open>C18. Releasing a core conserves its objects on every path: what it closes, together with what the
  core still records afterwards, is what it recorded before, so a release that stops at an error
  can be repeated without closing anything twice.\<close>

theorem release_conserves:
  assumes "wsa_contract os" and "cores w this = Some k" and "run_state (release os this) w = (err, w')"
  shows "faults w' = faults w \<and> tp_opened (new_trace w w') = {#} \<and>
    (if err = Success then tp_closed (new_trace w w') = core_held this k + {#Winsock#} \<and>
       core_held this (core w' this) = {#}
     else tp_closed (new_trace w w') + core_held this (core w' this) = core_held this k)"
  using release_run [OF assms(2,1,3)] by (simp add: only_core_def)

theorem release_conserves_witness:
  "core_held 0 (core (snd (run_state (release sample_os 0) (sample_world []))) 0) = {#}"
proof -
  obtain w' where run: "run_state (release sample_os 0) (sample_world []) = (Success, w')"
    using sample_release by (metis prod.collapse)
  have k: "cores (sample_world []) 0 = Some sample_core" by (simp add: sample_world_def)
  show ?thesis using release_conserves [OF sample_contracts(3) k run] run by simp
qed

text \<open>A creation that fails gives nothing back: the core is destroyed and its error returned, but
  nothing that was acquired before the failure is released, neither a pool already set up nor the
  reference on Winsock.\<close>

theorem core_create_failure_leaks:
  assumes "core_contract os"
    and "run_state (core_create os config junk_io junk_user new_id) w = (Inl e, w')"
  shows "e \<noteq> Success \<and> cores w' new_id = None \<and> faults w' = faults w \<and> tp_closed (new_trace w w') = {#}"
  using core_create_run [OF assms] by simp

text \<open>A system that refuses the minimum number of threads.\<close>

definition refusing_os :: "unit os" where
  "refusing_os c u =
     (case c of Tp (SetThreadpoolThreadMinimum _ _) \<Rightarrow> (answer 0 False, u) | _ \<Rightarrow> sample_os c u)"

theorem core_create_failure_leaks_witness:
  "\<exists>e w'. run_state (core_create refusing_os sample_config (pool_of Io_Pool sample_core)
       (pool_of User_Pool sample_core) 0) (sample_world []) = (Inl e, w') \<and>
     tp_opened (new_trace (sample_world []) w') = {#Winsock, Environ Io_Pool 0, Threadpool 600#} \<and>
     tp_closed (new_trace (sample_world []) w') = {#}"
proof -
  let ?w = "sample_world []"
  have c: "core_contract refusing_os"
    by (simp add: core_contract_def tp_contract_def wsa_contract_def opt_contract_def ioctl_contract_def tp_fails_def
        sys_ret_def refusing_os_def sample_os_def ERROR_IO_PENDING_def split: tp_call.splits)
  obtain r w' where run: "run_state (core_create refusing_os sample_config (pool_of Io_Pool sample_core)
       (pool_of User_Pool sample_core) 0) ?w = (r, w')" by fastforce
  have "r = Inl (ec_of_int 8) \<and> tp_opened (new_trace ?w w') = {#Winsock, Environ Io_Pool 0, Threadpool 600#}"
    using run by (auto simp: core_create_def initialize_def get_extended_socket_functions_def or_return_def
        load_extension_def initialize_threadpool_def set_rollback_def exec Let_def sys_ret_def refusing_os_def
        sample_answers sample_world_def new_trace_def to_int32_def)
  then show ?thesis using core_create_failure_leaks [OF c] run by blast
qed

text \<open>C39. Initialising a created core again, as the example programs do, loses its first pools: \<open>create\<close>
  has initialised the core already, the second \<open>initialize\<close> overwrites the members, and a release
  afterwards leaves exactly the objects of the first initialisation open.\<close>

theorem initialize_again_loses_pools:
  assumes "core_contract os"
    and "run_state (core_create os config junk_io junk_user new_id) w = (Inr c, w1)"
    and "run_state (initialize os c) w1 = (Success, w2)"
    and "run_state (release os c) w2 = (Success, w3)"
  shows "tp_opened (new_trace w w3) = tp_closed (new_trace w w3) + {#Winsock#} + core_held c (core w1 c)"
proof -
  have f1: "only_core c w w1" and t1: "tp_closed (new_trace w w1) = {#}"
    and o1: "tp_opened (new_trace w w1) = {#Winsock#} + core_held c (core w1 c)"
    using core_create_run [OF assms(1,2)] by auto
  note i = initialize_run [OF only_core_cores [OF f1] assms(1,3)]
  note r = release_run [OF only_core_cores [OF i(1)] core_contractD(2) [OF assms(1)] assms(4)]
  note t2 = only_core_trans [OF f1 i(1)]
  note t3 = only_core_trans [OF t2(1) r(1)]
  show ?thesis using t2(2) t3(2) t1 o1 i(2,3) r(2,3) by simp
qed

theorem initialize_again_loses_pools_witness:
  "\<exists>w1 w2 w3. run_state (core_create sample_os sample_config (pool_of Io_Pool sample_core)
       (pool_of User_Pool sample_core) 0) bare_world = (Inr 0, w1) \<and>
     run_state (initialize sample_os 0) w1 = (Success, w2) \<and> run_state (release sample_os 0) w2 = (Success, w3) \<and>
     tp_opened (new_trace bare_world w3) \<noteq> tp_closed (new_trace bare_world w3)"
proof -
  let ?m = "core_create sample_os sample_config (pool_of Io_Pool sample_core) (pool_of User_Pool sample_core) 0"
  obtain w1 where 1: "run_state ?m bare_world = (Inr 0, w1)"
    using sample_create by (metis prod.collapse)
  obtain w2 where 2: "run_state (initialize sample_os 0) w1 = (Success, w2)"
    using sample_initialize by (metis prod.collapse)
  obtain w3 where 3: "run_state (release sample_os 0) w2 = (Success, w3)"
    using sample_release by (metis prod.collapse)
  show ?thesis
    using initialize_again_loses_pools [OF sample_core_contract 1 2 3] 1 2 3 by (intro exI conjI) auto
qed

text \<open>C19. Posting work, on either pool: when \<open>Success\<close> is returned the closure is on the heap and the
  system will run it on that pool; otherwise it has been freed, the heap is as before, and the
  error code is one of a failure.  No other state changes and nothing faults.\<close>

theorem post_work_queued_or_freed:
  assumes "submit_contract os" and "heap_wf w"
    and "(post, pl) = (post_io_work, Io_Pool) \<or> (post, pl) = (post_user_work, User_Pool)"
    and "run_state (post os this func) w = (err, w')"
  shows "queued_or_freed pl func w err w' \<and> heap_wf w' \<and>
    dom (fn_heap w') - snd ` set (posted w') \<subseteq> dom (fn_heap w) - snd ` set (posted w)"
  using assms(3)
proof
  assume "(post, pl) = (post_io_work, Io_Pool)"
  then have run: "run_state (post_io_work os this func) w = (err, w')" and "pl = Io_Pool" using assms(4) by simp_all
  then show ?thesis
    using io_queue.posts [OF assms(1,2) run] io_queue.keeps_heap_wf [OF assms(1,2) run]
      io_queue.no_leak [OF assms(1,2) run] by simp
next
  assume "(post, pl) = (post_user_work, User_Pool)"
  then have run: "run_state (post_user_work os this func) w = (err, w')" and "pl = User_Pool" using assms(4) by simp_all
  then show ?thesis
    using user_queue.posts [OF assms(1,2) run] user_queue.keeps_heap_wf [OF assms(1,2) run]
      user_queue.no_leak [OF assms(1,2) run] by simp
qed

theorem post_work_queued_or_freed_witness:
  "queued_or_freed User_Pool (App_Work 7) (sample_world [])
     (fst (run_state (post_user_work sample_os 0 (App_Work 7)) (sample_world [])))
     (snd (run_state (post_user_work sample_os 0 (App_Work 7)) (sample_world [])))"
proof -
  have "heap_wf (sample_world [])" by (simp add: heap_wf_def sample_world_def)
  from post_work_queued_or_freed [OF sample_contracts(2) this, of post_user_work User_Pool 0 "App_Work 7"]
  show ?thesis by (metis prod.collapse)
qed

end
