(* ===== verification/Win_Completion.thy ===== *)
theory Win_Completion
  imports Win_IOCore
begin

text \<open>
  The completion side of \<open>win_socket.cpp\<close>: \<open>socket_io_routine\<close>, which the thread pool calls for
  every overlapped operation that has completed, the helpers it uses, and the callback that runs
  the work it posts.  What the application does in a handler is the parameter \<open>user\<close>: a program
  for every invocation.  The routine takes the block of the operation over from the system and
  either passes it on with a posted closure or frees it; the locale \<open>completion_branch\<close> states
  this for the five alternatives of the variant of handlers.
\<close>

type_synonym 'o user = "invocation \<Rightarrow> ('o, unit) prog"

section \<open>Helpers\<close>

definition update_accept_socket_context :: "'o os \<Rightarrow> sock_id \<Rightarrow> sock_id \<Rightarrow> ('o, ErrorCode) prog" where
  "update_accept_socket_context os listen_socket accept_socket = do {
     a \<leftarrow> read_sock accept_socket;
     l \<leftarrow> read_sock listen_socket;
     r \<leftarrow> sys os (Opt (Update_Accept_Context (ws_socket a) (ws_socket l)));
     if ret r = SOCKET_ERROR then last_wsa_error os else State_Monad.return Success }"

definition update_connect_socket_context :: "'o os \<Rightarrow> sock_id \<Rightarrow> ('o, ErrorCode) prog" where
  "update_connect_socket_context os connect_socket = do {
     s \<leftarrow> read_sock connect_socket;
     r \<leftarrow> sys os (Opt (Update_Connect_Context (ws_socket s)));
     if ret r = SOCKET_ERROR then last_wsa_error os else State_Monad.return Success }"

text \<open>
  The answer of \<open>GetAcceptExSockaddrs\<close>: whether the two pointers are set, and the addresses they
  point to with their lengths.  \<open>CopyMemory\<close> writes into two \<open>SOCKADDR_STORAGE\<close> members.
\<close>

definition get_acceptex_sockaddrs :: "'o os \<Rightarrow> addr \<Rightarrow> ('o, ErrorCode) prog" where
  "get_acceptex_sockaddrs os io_data = do {
     f \<leftarrow> load_fn lpfn_get_accept_ex_sockaddrs;
     r \<leftarrow> sys os (GetAcceptExSockaddrs f io_data acceptex_addr_len acceptex_addr_len);
     if out0 r = 0 \<or> out1 r = 0 then State_Monad.return SystemError
     else do {
       when (length (buf0 r) > sockaddr_size \<or> length (buf1 r) > sockaddr_size) (raise_fault Buffer_Overflow);
       upd_io io_data (\<lambda>d. d\<lparr>iod_local_win_addr := store_sockaddr (buf0 r) (iod_local_win_addr d)\<rparr>);
       upd_io io_data (\<lambda>d. d\<lparr>iod_peer_win_addr := store_sockaddr (buf1 r) (iod_peer_win_addr d)\<rparr>);
       State_Monad.return Success } }"

text \<open>An error is recorded unless there is one already.\<close>

definition note_error :: "addr \<Rightarrow> ErrorCode \<Rightarrow> ('o, unit) prog" where
  "note_error io_data err =
     when (err \<noteq> Success) (do {
       d \<leftarrow> read_io io_data;
       when (iod_error_code d = Success) (upd_io io_data (\<lambda>d. d\<lparr>iod_error_code := err\<rparr>)) })"

section \<open>Handlers\<close>

definition invoke :: "'o user \<Rightarrow> handler \<Rightarrow> (nat \<Rightarrow> invocation) \<Rightarrow> ('o, unit) prog" where
  "invoke user h call = do {
     let c = (case h of Some n \<Rightarrow> call n | None \<Rightarrow> Empty_Call);
     modify (\<lambda>w. w\<lparr>invoked := invoked w @ [c]\<rparr>);
     user c }"

text \<open>
  The call of the handler with what the block of the operation holds at that moment; the accepted
  socket is moved out of the block.
\<close>

fun call_handler :: "'o user \<Rightarrow> work \<Rightarrow> ('o, unit) prog" where
  "call_handler user (Accept_Work p h local_ep peer_ep) = do {
     d \<leftarrow> read_io p;
     upd_io p (\<lambda>d. d\<lparr>iod_accept_socket := None\<rparr>);
     invoke user h (\<lambda>n. Accept_Call n (iod_socket d) (iod_accept_socket d) local_ep peer_ep (iod_error_code d)) }"
| "call_handler user (Connect_Work p h) = do {
     d \<leftarrow> read_io p;
     invoke user h (\<lambda>n. Connect_Call n (iod_socket d) (iod_error_code d)) }"
| "call_handler user (Read_Work p h) = do {
     d \<leftarrow> read_io p;
     invoke user h (\<lambda>n. Read_Call n (iod_socket d) (iod_error_code d) (iod_bytes_transferred d)) }"
| "call_handler user (Write_Work p h) = do {
     d \<leftarrow> read_io p;
     invoke user h (\<lambda>n. Write_Call n (iod_socket d) (iod_error_code d) (iod_bytes_transferred d)) }"
| "call_handler user (Disconnect_Work p h) = do {
     d \<leftarrow> read_io p;
     invoke user h (\<lambda>n. Disconnect_Call n (iod_socket d) (iod_error_code d)) }"
| "call_handler user (App_Work n) = invoke user (Some n) App_Call"

fun work_block :: "work \<Rightarrow> addr" where
  "work_block (Accept_Work p h l e) = p"
| "work_block (Connect_Work p h) = p"
| "work_block (Read_Work p h) = p"
| "work_block (Write_Work p h) = p"
| "work_block (Disconnect_Work p h) = p"
| "work_block (App_Work n) = 0"

text \<open>The closures posted by \<open>socket_io_routine\<close>: call the handler, then free the block.\<close>

definition run_work :: "'o user \<Rightarrow> work \<Rightarrow> ('o, unit) prog" where
  "run_work user wk = do {
     call_handler user wk;
     delete_io (work_block wk) }"

text \<open>The callback that \<open>post_io_work\<close> and \<open>post_user_work\<close> submit.\<close>

definition pool_callback :: "'o user \<Rightarrow> addr \<Rightarrow> ('o, unit) prog" where
  "pool_callback user f = do {
     wk \<leftarrow> read_fn f;
     run_work user wk;
     delete_fn f }"

text \<open>
  The end of every branch: lock the core of the caller, post the work, and when that fails call
  the handler here.  The result says whether the work was posted.
\<close>

definition deliver :: "'o os \<Rightarrow> 'o user \<Rightarrow> sock_id option \<Rightarrow> addr \<Rightarrow> work \<Rightarrow> ('o, bool) prog" where
  "deliver os user caller io_data wk = do {
     c \<leftarrow> deref_sock caller;
     s \<leftarrow> read_sock c;
     alive \<leftarrow> lock_core (ws_io_core s);
     if alive then do {
       err \<leftarrow> post_user_work os (ws_io_core s) wk;
       if err = Success then State_Monad.return True
       else do {
         note_error io_data err;
         call_handler user wk;
         State_Monad.return False } }
     else State_Monad.return False }"

section \<open>The routine\<close>

definition visit_accept :: "'o os \<Rightarrow> 'o user \<Rightarrow> addr \<Rightarrow> sock_id option \<Rightarrow> handler \<Rightarrow> ('o, bool) prog" where
  "visit_accept os user io_data caller handler = do {
     d \<leftarrow> read_io io_data;
     (case iod_accept_socket d of
        Some a \<Rightarrow> do {
          c \<leftarrow> deref_sock caller;
          err \<leftarrow> update_accept_socket_context os c a;
          note_error io_data err }
      | None \<Rightarrow> note_error io_data SystemError);
     if handler \<noteq> None then do {
       err \<leftarrow> get_acceptex_sockaddrs os io_data;
       note_error io_data err;
       d \<leftarrow> read_io io_data;
       let (err, local_ep) = sockaddr_to_endpoint (iod_local_win_addr d) Ep_Uninit;
       note_error io_data err;
       let (err, peer_ep) = sockaddr_to_endpoint (iod_peer_win_addr d) Ep_Uninit;
       note_error io_data err;
       deliver os user caller io_data (Accept_Work io_data handler local_ep peer_ep) }
     else State_Monad.return False }"

definition visit_connect :: "'o os \<Rightarrow> 'o user \<Rightarrow> addr \<Rightarrow> sock_id option \<Rightarrow> handler \<Rightarrow> ('o, bool) prog" where
  "visit_connect os user io_data caller handler = do {
     c \<leftarrow> deref_sock caller;
     err \<leftarrow> update_connect_socket_context os c;
     note_error io_data err;
     if handler \<noteq> None then deliver os user caller io_data (Connect_Work io_data handler)
     else State_Monad.return False }"

definition visit_read :: "'o os \<Rightarrow> 'o user \<Rightarrow> addr \<Rightarrow> sock_id option \<Rightarrow> handler \<Rightarrow> ('o, bool) prog" where
  "visit_read os user io_data caller handler =
     (if handler \<noteq> None then deliver os user caller io_data (Read_Work io_data handler)
      else State_Monad.return False)"

definition visit_write :: "'o os \<Rightarrow> 'o user \<Rightarrow> addr \<Rightarrow> sock_id option \<Rightarrow> handler \<Rightarrow> ('o, bool) prog" where
  "visit_write os user io_data caller handler =
     (if handler \<noteq> None then deliver os user caller io_data (Write_Work io_data handler)
      else State_Monad.return False)"

definition visit_disconnect :: "'o os \<Rightarrow> 'o user \<Rightarrow> addr \<Rightarrow> sock_id option \<Rightarrow> handler \<Rightarrow> ('o, bool) prog" where
  "visit_disconnect os user io_data caller handler =
     (if handler \<noteq> None then deliver os user caller io_data (Disconnect_Work io_data handler)
      else State_Monad.return False)"

fun visit :: "'o os \<Rightarrow> 'o user \<Rightarrow> addr \<Rightarrow> sock_id option \<Rightarrow> user_handler \<Rightarrow> ('o, bool) prog" where
  "visit os user p c (AcceptHandler h) = visit_accept os user p c h"
| "visit os user p c (ConnectHandler h) = visit_connect os user p c h"
| "visit os user p c (ReadHandler h) = visit_read os user p c h"
| "visit os user p c (WriteHandler h) = visit_write os user p c h"
| "visit os user p c (DisconnectHandler h) = visit_disconnect os user p c h"

definition socket_io_routine :: "'o os \<Rightarrow> 'o user \<Rightarrow> addr \<Rightarrow> int \<Rightarrow> int \<Rightarrow> ('o, unit) prog" where
  "socket_io_routine os user overlapped io_result n_bytes_transferred = do {
     let io_data = overlapped;
     if io_data \<noteq> 0 then do {
       d \<leftarrow> read_io io_data;
       let caller = iod_socket d;
       upd_io io_data (\<lambda>d. d\<lparr>iod_bytes_transferred := to_int32 n_bytes_transferred\<rparr>);
       upd_io io_data (\<lambda>d. d\<lparr>iod_error_code := ec_of_int (to_int32 io_result)\<rparr>);
       work_posted \<leftarrow> visit os user io_data caller (iod_user_handler d);
       if work_posted then State_Monad.return () else delete_io io_data }
     else State_Monad.return () }"

section \<open>The contract of a branch\<close>

text \<open>The first error of a sequence of steps.\<close>

fun first_error :: "ErrorCode list \<Rightarrow> ErrorCode" where
  "first_error [] = Success"
| "first_error (e # es) = (if e = Success then first_error es else e)"

text \<open>A step has changed, of the block, nothing but addresses and the error code.\<close>

definition block_step :: "ErrorCode list \<Rightarrow> IOData \<Rightarrow> IOData \<Rightarrow> bool" where
  "block_step errs d d' \<longleftrightarrow>
     iod_socket d' = iod_socket d \<and> iod_accept_socket d' = iod_accept_socket d \<and>
     iod_user_handler d' = iod_user_handler d \<and> iod_bytes_transferred d' = iod_bytes_transferred d \<and>
     iod_error_code d' = first_error (iod_error_code d # errs)"

text \<open>A run has changed nothing but one block, and has not faulted.\<close>

definition only_block :: "addr \<Rightarrow> 'o world \<Rightarrow> 'o world \<Rightarrow> bool" where
  "only_block p w w' \<longleftrightarrow>
     faults w' = faults w \<and> sockets w' = sockets w \<and> cores w' = cores w \<and> fn_heap w' = fn_heap w \<and>
     next_addr w' = next_addr w \<and> inflight w' = inflight w \<and> posted w' = posted w \<and> invoked w' = invoked w \<and>
     umem w' = umem w \<and> lpfns_loaded w' = lpfns_loaded w \<and> os_trace w' = os_trace w @ new_trace w w'"

definition stage :: "addr \<Rightarrow> ErrorCode list \<Rightarrow> 'o world \<Rightarrow> 'o world \<Rightarrow> bool" where
  "stage p errs w w' \<longleftrightarrow> only_block p w w' \<and>
     (\<exists>d d'. io_heap w p = Some d \<and> io_heap w' = (io_heap w)(p \<mapsto> d') \<and> block_step errs d d')"

text \<open>The state in which the system hands a completed operation over.\<close>

definition completing :: "'o world \<Rightarrow> addr \<Rightarrow> sock_id \<Rightarrow> bool" where
  "completing w p c \<longleftrightarrow> heap_wf w \<and> lpfns_loaded w \<and> sockets w c \<noteq> None \<and>
     (\<exists>d. io_heap w p = Some d \<and> iod_socket d = Some c \<and>
          (case iod_accept_socket d of Some a \<Rightarrow> sockets w a \<noteq> None | None \<Rightarrow> True))"

text \<open>The addresses that \<open>GetAcceptExSockaddrs\<close> points to fit their structures.\<close>

definition acceptex_contract :: "'o os \<Rightarrow> bool" where
  "acceptex_contract os \<longleftrightarrow>
     (\<forall>f p l r w. length (buf0 (sys_ret os (GetAcceptExSockaddrs f p l r) w)) \<le> sockaddr_size \<and>
              length (buf1 (sys_ret os (GetAcceptExSockaddrs f p l r) w)) \<le> sockaddr_size)"

text \<open>
  The system calls of the steps, with what they come to: a call to update the context of a socket, and
  asking for the error when it fails; handing a closure to the user pool, and asking for the error when the pool
  refuses it.
\<close>

type_synonym trace = "(syscall \<times> sysret) list"

definition context_step :: "syscall \<Rightarrow> ErrorCode \<Rightarrow> trace \<Rightarrow> bool" where
  "context_step call e tr \<longleftrightarrow>
     (\<exists>r. if ret r = SOCKET_ERROR then \<exists>r'. tr = [(call, r), (WSAGetLastError, r')] \<and> e = ec_of_int (ret r')
          else tr = [(call, r)] \<and> e = Success)"

definition post_step :: "core_id \<Rightarrow> addr \<Rightarrow> ErrorCode \<Rightarrow> trace \<Rightarrow> bool" where
  "post_step k f e tr \<longleftrightarrow>
     (let call = TrySubmitThreadpoolCallback f User_Pool k in
      \<exists>r. if ret r = 0 then \<exists>r'. tr = [(call, r), (GetLastError, r')] \<and> e = ec_of_int (to_int32 (ret r'))
          else tr = [(call, r)] \<and> e = Success)"

text \<open>
  What each branch does before it delivers: the errors of its steps, the system calls they are made of, and the closure.
  A completed accept takes the two addresses that \<open>GetAcceptExSockaddrs\<close> gives, the first as the local and the
  second as the peer's.
\<close>

type_synonym 'o steps = "'o world \<Rightarrow> addr \<Rightarrow> sock_id \<Rightarrow> handler \<Rightarrow> IOData \<Rightarrow> ErrorCode list \<Rightarrow> trace \<Rightarrow> work \<Rightarrow> bool"

definition addresses :: "sysret \<Rightarrow> IOData \<Rightarrow> ErrorCode \<times> SOCKADDR_STORAGE \<times> SOCKADDR_STORAGE" where
  "addresses r d =
     (if out0 r = 0 \<or> out1 r = 0 then (SystemError, iod_local_win_addr d, iod_peer_win_addr d)
      else (Success, store_sockaddr (buf0 r) (iod_local_win_addr d), store_sockaddr (buf1 r) (iod_peer_win_addr d)))"

definition accept_steps :: "'o steps" where
  "accept_steps w p c h d errs tr wk \<longleftrightarrow>
     (\<exists>e tr1.
        (case iod_accept_socket d of
           Some a \<Rightarrow> context_step (Opt (Update_Accept_Context (ws_socket (sock w a)) (ws_socket (sock w c)))) e tr1
         | None \<Rightarrow> e = SystemError \<and> tr1 = []) \<and>
        (if h = None then errs = [e] \<and> tr = tr1
         else \<exists>r e2 la pa e3 l e4 q.
           tr = tr1 @ [(GetAcceptExSockaddrs (lpfn_get_accept_ex_sockaddrs w) p acceptex_addr_len acceptex_addr_len, r)] \<and>
           addresses r d = (e2, la, pa) \<and> sockaddr_to_endpoint la Ep_Uninit = (e3, l) \<and>
           sockaddr_to_endpoint pa Ep_Uninit = (e4, q) \<and> errs = [e, e2, e3, e4] \<and> wk = Accept_Work p h l q))"

definition connect_steps :: "'o steps" where
  "connect_steps w p c h d errs tr wk \<longleftrightarrow>
     (\<exists>e. context_step (Opt (Update_Connect_Context (ws_socket (sock w c)))) e tr \<and> errs = [e] \<and> wk = Connect_Work p h)"

definition no_steps :: "(addr \<Rightarrow> handler \<Rightarrow> work) \<Rightarrow> 'o steps" where
  "no_steps work w p c h d errs tr wk \<longleftrightarrow> errs = [] \<and> tr = [] \<and> wk = work p h"

text \<open>The end of a branch, with the work posted, the handler called here, or dropped with its core.\<close>

definition delivered :: "'o user \<Rightarrow> addr \<Rightarrow> sock_id \<Rightarrow> work \<Rightarrow> 'o world \<Rightarrow> bool \<Rightarrow> 'o world \<Rightarrow> bool" where
  "delivered user p c wk w b w' \<longleftrightarrow>
     (let k = ws_io_core (sock w c) in
      if cores w k = None then \<not> b \<and> w' = w
      else if b then queued_or_freed User_Pool wk w Success w' \<and> post_step k (next_addr w) Success (new_trace w w') \<and>
        os_trace w' = os_trace w @ new_trace w w'
      else \<exists>err w1 w2. err \<noteq> Success \<and> queued_or_freed User_Pool wk w err w1 \<and>
             post_step k (next_addr w) err (new_trace w w1) \<and> os_trace w1 = os_trace w @ new_trace w w1 \<and> stage p [err] w1 w2 \<and> os_trace w2 = os_trace w1 \<and>
             w' = snd (run_state (call_handler user wk) w2))"

text \<open>
  An endpoint the system has reported for an accepted connection, and what an accept handler is
  told: when the operation and every step after it has succeeded, two such endpoints.
\<close>

definition reported :: "'o os \<Rightarrow> Endpoint \<Rightarrow> bool" where
  "reported os ep \<longleftrightarrow>
     (\<exists>f p m n w sa. let r = sys_ret os (GetAcceptExSockaddrs f p m n) w in out0 r \<noteq> 0 \<and> out1 r \<noteq> 0 \<and>
        (sockaddr_to_endpoint (store_sockaddr (buf0 r) sa) Ep_Uninit = (Success, ep) \<or>
         sockaddr_to_endpoint (store_sockaddr (buf1 r) sa) Ep_Uninit = (Success, ep)))"

fun told :: "'o os \<Rightarrow> ErrorCode list \<Rightarrow> work \<Rightarrow> bool" where
  "told os errs (Accept_Work p h l e) \<longleftrightarrow> (first_error errs = Success \<longrightarrow> reported os l \<and> reported os e)"
| "told os errs _ \<longleftrightarrow> True"

locale completion_branch =
  fixes branch :: "'o os \<Rightarrow> 'o user \<Rightarrow> addr \<Rightarrow> sock_id option \<Rightarrow> handler \<Rightarrow> ('o, bool) prog"
    and steps :: "'o steps"
  assumes visits: "win_contract os \<Longrightarrow> acceptex_contract os \<Longrightarrow> completing w p c \<Longrightarrow> io_heap w p = Some d \<Longrightarrow>
      run_state (branch os user p (Some c) h) w = (b, w') \<Longrightarrow>
      \<exists>errs wk w1. steps w p c h d errs (new_trace w w1) wk \<and> stage p errs w w1 \<and>
        (if h = None then \<not> b \<and> w' = w1 else told os errs wk \<and> delivered user p c wk w1 b w')"
begin

text \<open>Without a handler, or with the core gone, the branch ends where its own steps end.\<close>

lemma not_delivered:
  assumes "win_contract os" "acceptex_contract os" "completing w p c" "io_heap w p = Some d"
    and "run_state (branch os user p (Some c) h) w = (b, w')"
    and "h = None \<or> cores w (ws_io_core (sock w c)) = None"
  shows "\<not> b \<and> (\<exists>errs. stage p errs w w')"
proof -
  from visits [OF assms(1-5)] obtain errs wk w1 where s: "stage p errs w w1"
    and r: "if h = None then \<not> b \<and> w' = w1 else told os errs wk \<and> delivered user p c wk w1 b w'" by blast
  have "cores w1 = cores w" "sock w1 c = sock w c" using s by (simp_all add: stage_def only_block_def sock_def)
  with s r assms(6) show ?thesis by (auto simp: delivered_def Let_def split: if_splits)
qed

end

section \<open>Lemmas\<close>

lemma heap_wf_block:
  assumes "heap_wf w" and "io_heap w p = Some d"
  shows "p \<noteq> 0" "p < next_addr w"
  using assms unfolding heap_wf_def by (metis linorder_not_less option.distinct(1))+

lemma unit_run:
  obtains w' where "run_state (m :: ('o, unit) prog) w = ((), w')"
  by (metis old.unit.exhaust surj_pair)

lemma first_error_append: "first_error (es @ fs) = (if first_error es = Success then first_error fs else first_error es)"
  by (induction es) auto

lemma told_append: "told os es wk \<Longrightarrow> told os (es @ fs) wk"
  by (cases wk) (auto simp: first_error_append)

lemma only_block_trans:
  assumes "only_block p w w1" and "only_block p w1 w2"
  shows "only_block p w w2"
proof -
  have "new_trace w w2 = new_trace w w1 @ new_trace w1 w2"
    using assms by (intro new_trace_trans) (simp_all add: only_block_def)
  then show ?thesis using assms by (simp add: only_block_def)
qed

lemma block_step_trans: "block_step es d d1 \<Longrightarrow> block_step fs d1 d2 \<Longrightarrow> block_step (es @ fs) d d2"
  by (auto simp: block_step_def first_error_append)

lemma stage_trans:
  assumes "stage p es w w1" and "stage p fs w1 w2"
  shows "stage p (es @ fs) w w2"
  using assms only_block_trans [of p w w1 w2] block_step_trans
  by (auto simp: stage_def) (metis fun_upd_same fun_upd_upd option.inject)

lemma stage_same:
  assumes "only_block p w w'" and "io_heap w p = Some d" and "io_heap w' = io_heap w"
    and "iod_error_code d = Success \<Longrightarrow> first_error es = Success"
  shows "stage p es w w'"
proof -
  have "io_heap w' = (io_heap w)(p \<mapsto> d)" using assms(2,3) by (simp add: fun_upd_idem)
  moreover have "block_step es d d" using assms(4) by (simp add: block_step_def)
  ultimately show ?thesis using assms(1,2) unfolding stage_def by blast
qed

lemma stage_refl: "io_heap w p = Some d \<Longrightarrow> stage p [] w w"
  by (rule stage_same) (simp_all add: only_block_def new_trace_def)

lemma stage_sockets:
  assumes "stage p es w w'"
  shows "sockets w' = sockets w" "cores w' = cores w" "sock w' c = sock w c" "next_addr w' = next_addr w"
    "lpfns_loaded w' = lpfns_loaded w" "heap_wf w \<Longrightarrow> heap_wf w'" "\<exists>d. io_heap w' p = Some d"
proof -
  obtain d d' where d: "io_heap w p = Some d" and d': "io_heap w' = (io_heap w)(p \<mapsto> d')"
    using assms by (auto simp: stage_def)
  have o: "only_block p w w'" using assms by (simp add: stage_def)
  then show "sockets w' = sockets w" "cores w' = cores w" "sock w' c = sock w c" "next_addr w' = next_addr w"
    "lpfns_loaded w' = lpfns_loaded w" by (simp_all add: only_block_def sock_def)
  show "\<exists>d. io_heap w' p = Some d" using d' by simp
  assume wf: "heap_wf w"
  with d heap_wf_block [of w p d] d' o show "heap_wf w'" by (auto simp: heap_wf_def only_block_def)
qed

lemma stage_completing:
  assumes "stage p es w w'" and "completing w p c"
  shows "completing w' p c"
  using assms stage_sockets [OF assms(1)]
  by (auto simp: completing_def stage_def block_step_def split: option.splits)

lemma note_error_stage:
  assumes "io_heap w p = Some d" and "run_state (note_error p err) w = ((), w')"
  shows "stage p [err] w w'"
proof (cases "err \<noteq> Success \<and> iod_error_code d = Success")
  case True
  then show ?thesis
    using assms by (auto simp: note_error_def exec stage_def only_block_def block_step_def new_trace_def io_Some
        lpfns_loaded_def)
next
  case False
  then have "w' = w" using assms by (auto simp: note_error_def exec io_Some split: if_splits)
  then show ?thesis
    using False by (intro stage_same [OF _ assms(1)]) (auto simp: only_block_def new_trace_def)
qed

lemma sys_stage:
  assumes "io_heap w p = Some d" and "overlapped_of c = None" and "submitted_of c = None"
  shows "stage p [] w (after os c w)"
  using assms(2,3) by (intro stage_same [OF _ assms(1)]) (simp_all add: only_block_def new_trace_def lpfns_loaded_def)

lemma last_wsa_error_stage:
  assumes "io_heap w p = Some d" and "overlapped_of c = None" and "submitted_of c = None"
  shows "stage p [] w (after os WSAGetLastError (after os c w))"
  using stage_trans [OF sys_stage [OF assms, of os] sys_stage [of "after os c w" p d WSAGetLastError os]] assms
  by simp

lemma update_context_stage:
  assumes "io_heap w p = Some d" and "sockets w c \<noteq> None"
  shows "run_state (update_connect_socket_context os c) w = (err, w') \<Longrightarrow> stage p [] w w'"
    and "sockets w a \<noteq> None \<Longrightarrow> run_state (update_accept_socket_context os c a) w = (err, w') \<Longrightarrow> stage p [] w w'"
  using assms sys_stage [OF assms(1)] last_wsa_error_stage [OF assms(1)]
  by (auto simp: update_connect_socket_context_def update_accept_socket_context_def exec split: if_splits)

lemma get_acceptex_sockaddrs_stage:
  assumes "acceptex_contract os" and "io_heap w p = Some d" and "lpfns_loaded w"
    and "run_state (get_acceptex_sockaddrs os p) w = (err, w')"
  shows "stage p [] w w'"
proof -
  let ?c = "GetAcceptExSockaddrs (lpfn_get_accept_ex_sockaddrs w) p acceptex_addr_len acceptex_addr_len"
  have l: "\<not> sockaddr_size < length (buf0 (sys_ret os ?c w))" "\<not> sockaddr_size < length (buf1 (sys_ret os ?c w))"
    using assms(1) by (simp_all add: acceptex_contract_def not_less)
  have n: "lpfn_get_accept_ex_sockaddrs w \<noteq> nullptr" using assms(3) by (simp add: lpfns_loaded_def)
  show ?thesis
  proof (cases "out0 (sys_ret os ?c w) = 0 \<or> out1 (sys_ret os ?c w) = 0")
    case True
    then have "w' = after os ?c w" using assms(4) n by (auto simp: get_acceptex_sockaddrs_def exec)
    then show ?thesis using sys_stage [OF assms(2)] by simp
  next
    case False
    then show ?thesis
      using assms(2,4) n l
      by (auto simp: get_acceptex_sockaddrs_def exec stage_def only_block_def block_step_def new_trace_def io_def
          lpfns_loaded_def)
  qed
qed

lemma get_acceptex_sockaddrs_success:
  assumes "acceptex_contract os" and "lpfns_loaded w" and "io_heap w p = Some d"
    and "run_state (get_acceptex_sockaddrs os p) w = (err, w')" and "err = Success" and "io_heap w' p = Some d'"
  shows "\<exists>f m n. let r = sys_ret os (GetAcceptExSockaddrs f p m n) w in out0 r \<noteq> 0 \<and> out1 r \<noteq> 0 \<and>
    iod_local_win_addr d' = store_sockaddr (buf0 r) (iod_local_win_addr d) \<and>
    iod_peer_win_addr d' = store_sockaddr (buf1 r) (iod_peer_win_addr d)"
proof -
  let ?c = "GetAcceptExSockaddrs (lpfn_get_accept_ex_sockaddrs w) p acceptex_addr_len acceptex_addr_len"
  have l: "\<not> sockaddr_size < length (buf0 (sys_ret os ?c w))" "\<not> sockaddr_size < length (buf1 (sys_ret os ?c w))"
    using assms(1) by (simp_all add: acceptex_contract_def not_less)
  have n: "lpfn_get_accept_ex_sockaddrs w \<noteq> nullptr" using assms(2) by (simp add: lpfns_loaded_def)
  show ?thesis
    using assms(3-6) n l
    by (intro exI [of _ "lpfn_get_accept_ex_sockaddrs w"] exI [of _ acceptex_addr_len])
      (auto simp: get_acceptex_sockaddrs_def exec io_def Let_def split: if_splits)
qed

text \<open>The system calls of the steps.\<close>

lemma note_error_trace: "run_state (note_error p err) w = ((), w') \<Longrightarrow> os_trace w' = os_trace w"
  by (auto simp: note_error_def exec split: if_splits)

lemma update_context_steps:
  assumes "sockets w c \<noteq> None"
  shows "run_state (update_connect_socket_context os c) w = (err, w') \<Longrightarrow>
      context_step (Opt (Update_Connect_Context (ws_socket (sock w c)))) err (new_trace w w')"
    and "sockets w a \<noteq> None \<Longrightarrow> run_state (update_accept_socket_context os c a) w = (err, w') \<Longrightarrow>
      context_step (Opt (Update_Accept_Context (ws_socket (sock w a)) (ws_socket (sock w c)))) err (new_trace w w')"
  using assms
  by (auto simp: update_connect_socket_context_def update_accept_socket_context_def context_step_def new_trace_def
      last_wsa_error_def exec split: if_splits)

lemma post_user_work_step:
  "run_state (post_user_work os k wk) w = (err, w') \<Longrightarrow>
     post_step k (next_addr w) err (new_trace w w') \<and> os_trace w' = os_trace w @ new_trace w w'"
  by (auto simp: post_user_work_def post_step_def new_trace_def last_error_def exec Let_def split: if_splits)

lemma new_trace_note: "os_trace w2 = os_trace w1 \<Longrightarrow> new_trace w w2 = new_trace w w1"
  by (simp add: new_trace_def)

lemma deliver_run:
  assumes c: "submit_contract os" and k: "completing w p c"
    and run: "run_state (deliver os user (Some c) p wk) w = (b, w')"
  shows "delivered user p c wk w b w'"
proof -
  let ?k = "ws_io_core (sock w c)"
  have s: "sockets w c \<noteq> None" and wf: "heap_wf w" using k by (simp_all add: completing_def)
  obtain d where d: "io_heap w p = Some d" using k by (auto simp: completing_def)
  obtain err w1 where run1: "run_state (post_user_work os ?k wk) w = (err, w1)" by fastforce
  note q = user_queue.posts [OF c wf run1] and t = post_user_work_step [OF run1]
  have d1: "io_heap w1 p = Some d" using q d by (simp add: queued_or_freed_def)
  obtain w2 where run2: "run_state (note_error p err) w1 = ((), w2)" by (rule unit_run)
  note n = note_error_stage [OF d1 run2] note_error_trace [OF run2]
  show ?thesis
    using run s run1 run2 q n t
    by (auto simp: deliver_def exec delivered_def Let_def split: if_splits prod.splits) (metis snd_conv)
qed

section \<open>The branches\<close>

lemma staged_branch:
  assumes "win_contract os" and "completing w p c" and s: "stage p es w w0" and t: "told os es wk"
    and st: "steps w p c h d es (new_trace w w0) wk"
    and run: "run_state (if h \<noteq> None then deliver os user (Some c) p wk else State_Monad.return False) w0 = (b, w')"
  shows "\<exists>errs wk w1. steps w p c h d errs (new_trace w w1) wk \<and> stage p errs w w1 \<and>
    (if h = None then \<not> b \<and> w' = w1 else told os errs wk \<and> delivered user p c wk w1 b w')"
proof -
  have "h \<noteq> None \<Longrightarrow> delivered user p c wk w0 b w'"
    using run by (intro deliver_run [OF win_contractD(2) [OF assms(1)] stage_completing [OF s assms(2)]]) simp
  then show ?thesis using run s t st by (intro exI [of _ es] exI [of _ wk] exI [of _ w0]) auto
qed

lemma plain_branch:
  assumes "win_contract os" and "completing w p c" and d: "io_heap w p = Some d" and t: "told os [] (work p h)"
    and run: "run_state (if h \<noteq> None then deliver os user (Some c) p (work p h) else State_Monad.return False) w = (b, w')"
  shows "\<exists>errs wk w1. no_steps work w p c h d errs (new_trace w w1) wk \<and> stage p errs w w1 \<and>
    (if h = None then \<not> b \<and> w' = w1 else told os errs wk \<and> delivered user p c wk w1 b w')"
  by (rule staged_branch [OF assms(1,2) stage_refl [OF d] t _ run]) (simp add: no_steps_def new_trace_def)

interpretation read_branch: completion_branch visit_read "no_steps Read_Work"
  by (unfold_locales, rule plain_branch) (simp_all add: visit_read_def)

interpretation write_branch: completion_branch visit_write "no_steps Write_Work"
  by (unfold_locales, rule plain_branch) (simp_all add: visit_write_def)

interpretation disconnect_branch: completion_branch visit_disconnect "no_steps Disconnect_Work"
  by (unfold_locales, rule plain_branch) (simp_all add: visit_disconnect_def)

interpretation connect_branch: completion_branch visit_connect connect_steps
proof (unfold_locales, goal_cases)
  case (1 os w p c d user h b w')
  have c: "sockets w c \<noteq> None" using 1(3) by (simp add: completing_def)
  obtain err w1 where r1: "run_state (update_connect_socket_context os c) w = (err, w1)" by fastforce
  note s1 = update_context_stage(1) [OF 1(4) c r1]
  obtain d1 where d1: "io_heap w1 p = Some d1" using stage_sockets(7) [OF s1] by blast
  obtain w2 where r2: "run_state (note_error p err) w1 = ((), w2)" by (rule unit_run)
  have s: "stage p [err] w w2" using stage_trans [OF s1 note_error_stage [OF d1 r2]] by simp
  have "connect_steps w p c h d [err] (new_trace w w2) (Connect_Work p h)"
    using update_context_steps(1) [OF c r1] new_trace_note [OF note_error_trace [OF r2]] by (simp add: connect_steps_def)
  moreover have "run_state (if h \<noteq> None then deliver os user (Some c) p (Connect_Work p h) else State_Monad.return False) w2 = (b, w')"
    using 1(5) r1 r2 by (simp add: visit_connect_def split: if_splits)
  ultimately show ?case by (intro staged_branch [OF 1(1,3) s, where steps = connect_steps]) simp_all
qed

text \<open>The part of \<open>visit_accept\<close> that runs with or without a handler.\<close>

lemma accept_context_stage:
  assumes k: "completing w p c" and d: "io_heap w p = Some d"
    and run: "run_state (case iod_accept_socket d of
        Some a \<Rightarrow> do { c \<leftarrow> deref_sock (Some c); err \<leftarrow> update_accept_socket_context os c a; note_error p err }
      | None \<Rightarrow> note_error p SystemError) w = ((), w')"
  obtains err where "stage p [err] w w'"
    and "case iod_accept_socket d of
        Some a \<Rightarrow> context_step (Opt (Update_Accept_Context (ws_socket (sock w a)) (ws_socket (sock w c)))) err (new_trace w w')
      | None \<Rightarrow> err = SystemError \<and> new_trace w w' = []"
proof (cases "iod_accept_socket d")
  case None
  then have r: "run_state (note_error p SystemError) w = ((), w')" using run by simp
  show ?thesis using None note_error_trace [OF r] by (intro that [OF note_error_stage [OF d r]]) (simp add: new_trace_def)
next
  case (Some a)
  have c: "sockets w c \<noteq> None" "sockets w a \<noteq> None" using k d Some by (auto simp: completing_def)
  obtain err w1 where r1: "run_state (update_accept_socket_context os c a) w = (err, w1)" by fastforce
  note s1 = update_context_stage(2) [OF d c r1]
  obtain d1 where d1: "io_heap w1 p = Some d1" using stage_sockets(7) [OF s1] by blast
  have r: "run_state (note_error p err) w1 = ((), w')" using run Some r1 by simp
  have "stage p [err] w w'" using stage_trans [OF s1 note_error_stage [OF d1 r]] by simp
  then show ?thesis
    by (rule that) (use Some update_context_steps(2) [OF c r1] new_trace_note [OF note_error_trace [OF r]] in simp)
qed

lemma accept_context_addresses:
  assumes d: "io_heap w p = Some d"
    and run: "run_state (case iod_accept_socket d of
        Some a \<Rightarrow> do { c \<leftarrow> deref_sock (Some c); err \<leftarrow> update_accept_socket_context os c a; note_error p err }
      | None \<Rightarrow> note_error p SystemError) w = ((), w')" and d': "io_heap w' p = Some d'"
  shows "iod_local_win_addr d' = iod_local_win_addr d" "iod_peer_win_addr d' = iod_peer_win_addr d"
    "lpfn_get_accept_ex_sockaddrs w' = lpfn_get_accept_ex_sockaddrs w"
  using assms
  by (auto simp: update_accept_socket_context_def note_error_def last_wsa_error_def exec io_def split: if_splits option.splits)

lemma get_acceptex_sockaddrs_steps:
  assumes "acceptex_contract os" and "lpfns_loaded w" and "io_heap w p = Some d"
    and "run_state (get_acceptex_sockaddrs os p) w = (err, w')"
  obtains r d' where "io_heap w' p = Some d'" and "addresses r d = (err, iod_local_win_addr d', iod_peer_win_addr d')"
    and "new_trace w w' = [(GetAcceptExSockaddrs (lpfn_get_accept_ex_sockaddrs w) p acceptex_addr_len acceptex_addr_len, r)]"
proof -
  let ?c = "GetAcceptExSockaddrs (lpfn_get_accept_ex_sockaddrs w) p acceptex_addr_len acceptex_addr_len"
  have l: "\<not> sockaddr_size < length (buf0 (sys_ret os ?c w))" "\<not> sockaddr_size < length (buf1 (sys_ret os ?c w))"
    using assms(1) by (simp_all add: acceptex_contract_def not_less)
  have n: "lpfn_get_accept_ex_sockaddrs w \<noteq> nullptr" using assms(2) by (simp add: lpfns_loaded_def)
  obtain d' where d': "io_heap w' p = Some d'"
    using stage_sockets(7) [OF get_acceptex_sockaddrs_stage [OF assms(1,3,2,4)]] by blast
  show ?thesis
    by (rule that [where r = "sys_ret os ?c w", OF d'])
      (use assms(3,4) n l d' in \<open>auto simp: get_acceptex_sockaddrs_def exec io_def addresses_def new_trace_def split: if_splits\<close>)
qed

interpretation accept_branch: completion_branch visit_accept accept_steps
proof (unfold_locales, goal_cases)
  case (1 os w p c d user h b w')
  obtain w1 where r1: "run_state (case iod_accept_socket d of
        Some a \<Rightarrow> do { c \<leftarrow> deref_sock (Some c); err \<leftarrow> update_accept_socket_context os c a; note_error p err }
      | None \<Rightarrow> note_error p SystemError) w = ((), w1)" by (rule unit_run)
  obtain e1 where s1: "stage p [e1] w w1" and t1: "case iod_accept_socket d of
        Some a \<Rightarrow> context_step (Opt (Update_Accept_Context (ws_socket (sock w a)) (ws_socket (sock w c)))) e1 (new_trace w w1)
      | None \<Rightarrow> e1 = SystemError \<and> new_trace w w1 = []" by (rule accept_context_stage [OF 1(3,4) r1])
  note k1 = stage_completing [OF s1 1(3)]
  show ?case
  proof (cases h)
    case None
    then have "b = False" "w' = w1" using 1(4,5) r1 by (auto simp: visit_accept_def exec io_Some)
    moreover have "accept_steps w p c h d [e1] (new_trace w w1) undefined" unfolding accept_steps_def
      using None t1 by (intro exI [of _ e1] exI [of _ "new_trace w w1"]) simp
    ultimately show ?thesis using None s1 by (intro exI [of _ "[e1]"] exI [of _ undefined] exI [of _ w1]) simp
  next
    case (Some n)
    obtain e2 w2 where r2: "run_state (get_acceptex_sockaddrs os p) w1 = (e2, w2)" by fastforce
    obtain d1 where d1: "io_heap w1 p = Some d1" using k1 by (auto simp: completing_def)
    have l1: "lpfns_loaded w1" using k1 by (simp add: completing_def)
    note s2 = get_acceptex_sockaddrs_stage [OF 1(2) d1 l1 r2]
    obtain r d2 where d2: "io_heap w2 p = Some d2"
      and ad: "addresses r d1 = (e2, iod_local_win_addr d2, iod_peer_win_addr d2)"
      and t2: "new_trace w1 w2 = [(GetAcceptExSockaddrs (lpfn_get_accept_ex_sockaddrs w1) p acceptex_addr_len acceptex_addr_len, r)]"
      by (rule get_acceptex_sockaddrs_steps [OF 1(2) l1 d1 r2])
    obtain w3 where r3: "run_state (note_error p e2) w2 = ((), w3)" by (rule unit_run)
    note s3 = note_error_stage [OF d2 r3]
    obtain d3 where d3: "io_heap w3 p = Some d3" using stage_sockets(7) [OF s3] by blast
    have a3: "iod_local_win_addr d3 = iod_local_win_addr d2" "iod_peer_win_addr d3 = iod_peer_win_addr d2"
      using r3 d2 d3 by (auto simp: note_error_def exec io_Some split: if_splits)
    have a1: "iod_local_win_addr d1 = iod_local_win_addr d" "iod_peer_win_addr d1 = iod_peer_win_addr d"
      "lpfn_get_accept_ex_sockaddrs w1 = lpfn_get_accept_ex_sockaddrs w"
      using accept_context_addresses [OF 1(4) r1 d1] by simp_all
    obtain e4 l4 where ep4: "sockaddr_to_endpoint (iod_local_win_addr d3) Ep_Uninit = (e4, l4)" by fastforce
    obtain w4 where r4: "run_state (note_error p e4) w3 = ((), w4)" by (rule unit_run)
    note s4 = note_error_stage [OF d3 r4]
    obtain d4 where d4: "io_heap w4 p = Some d4" using stage_sockets(7) [OF s4] by blast
    obtain e5 l5 where ep5: "sockaddr_to_endpoint (iod_peer_win_addr d3) Ep_Uninit = (e5, l5)" by fastforce
    obtain w5 where r5: "run_state (note_error p e5) w4 = ((), w5)" by (rule unit_run)
    note s5 = note_error_stage [OF d4 r5]
    have t: "told os [e1, e2, e4, e5] (Accept_Work p h l4 l5)"
    proof -
      have "reported os l4 \<and> reported os l5" if "first_error [e1, e2, e4, e5] = Success"
      proof -
        have e: "e2 = Success" "e4 = Success" "e5 = Success" using that by (auto split: if_splits)
        obtain f m n where "let r = sys_ret os (GetAcceptExSockaddrs f p m n) w1 in out0 r \<noteq> 0 \<and> out1 r \<noteq> 0 \<and>
            iod_local_win_addr d2 = store_sockaddr (buf0 r) (iod_local_win_addr d1) \<and>
            iod_peer_win_addr d2 = store_sockaddr (buf1 r) (iod_peer_win_addr d1)"
          using get_acceptex_sockaddrs_success [OF 1(2) l1 d1 r2 e(1) d2] by blast
        with ep4 ep5 a3 e(2,3) show ?thesis unfolding reported_def Let_def by metis
      qed
      then show ?thesis by simp
    qed
    have s: "stage p [e1, e2, e4, e5] w w5"
      using stage_trans [OF stage_trans [OF stage_trans [OF stage_trans [OF s1 s2] s3] s4] s5] by simp
    have "os_trace w5 = os_trace w2"
      using note_error_trace [OF r3] note_error_trace [OF r4] note_error_trace [OF r5] by simp
    then have "new_trace w w5 = new_trace w w2" by (rule new_trace_note)
    also have "\<dots> = new_trace w w1 @ new_trace w1 w2"
      using s1 s2 by (intro new_trace_trans) (simp_all only: stage_def only_block_def)
    finally have nt: "new_trace w w5 = new_trace w w1 @
        [(GetAcceptExSockaddrs (lpfn_get_accept_ex_sockaddrs w) p acceptex_addr_len acceptex_addr_len, r)]"
      by (simp only: t2 a1(3))
    have ad': "addresses r d = (e2, iod_local_win_addr d3, iod_peer_win_addr d3)"
      using ad by (simp only: addresses_def a1(1,2) a3)
    have "accept_steps w p c h d [e1, e2, e4, e5] (new_trace w w5) (Accept_Work p h l4 l5)"
      unfolding accept_steps_def
      by (intro exI [of _ e1] exI [of _ "new_trace w w1"] conjI t1) (use Some nt ad' ep4 ep5 in simp)
    moreover have "run_state (if h \<noteq> None then deliver os user (Some c) p (Accept_Work p h l4 l5) else State_Monad.return False) w5 = (b, w')"
      using 1(4,5) Some r1 r2 r3 r4 r5 d3 ep4 ep5 by (simp add: visit_accept_def exec io_Some Let_def)
    ultimately show ?thesis by (intro staged_branch [OF 1(1,3) s t, where steps = accept_steps])
  qed
qed

section \<open>The routine and the callback\<close>

fun handler_of :: "user_handler \<Rightarrow> handler" where
  "handler_of (AcceptHandler h) = h"
| "handler_of (ConnectHandler h) = h"
| "handler_of (ReadHandler h) = h"
| "handler_of (WriteHandler h) = h"
| "handler_of (DisconnectHandler h) = h"

text \<open>The closures a completion may post, and the steps of its own it takes before.\<close>

fun work_for :: "user_handler \<Rightarrow> addr \<Rightarrow> work \<Rightarrow> bool" where
  "work_for (AcceptHandler h) p wk \<longleftrightarrow> (\<exists>l e. wk = Accept_Work p h l e)"
| "work_for (ConnectHandler h) p wk \<longleftrightarrow> wk = Connect_Work p h"
| "work_for (ReadHandler h) p wk \<longleftrightarrow> wk = Read_Work p h"
| "work_for (WriteHandler h) p wk \<longleftrightarrow> wk = Write_Work p h"
| "work_for (DisconnectHandler h) p wk \<longleftrightarrow> wk = Disconnect_Work p h"

fun steps_for :: "user_handler \<Rightarrow> 'o world \<Rightarrow> addr \<Rightarrow> sock_id \<Rightarrow> IOData \<Rightarrow> ErrorCode list \<Rightarrow> trace \<Rightarrow> work \<Rightarrow> bool" where
  "steps_for (AcceptHandler h) w p c d = accept_steps w p c h d"
| "steps_for (ConnectHandler h) w p c d = connect_steps w p c h d"
| "steps_for (ReadHandler h) w p c d = no_steps Read_Work w p c h d"
| "steps_for (WriteHandler h) w p c d = no_steps Write_Work w p c h d"
| "steps_for (DisconnectHandler h) w p c d = no_steps Disconnect_Work w p c h d"

text \<open>The call a closure makes, given the block of its operation.\<close>

fun call_of :: "work \<Rightarrow> IOData \<Rightarrow> invocation" where
  "call_of (Accept_Work p (Some n) l e) d = Accept_Call n (iod_socket d) (iod_accept_socket d) l e (iod_error_code d)"
| "call_of (Connect_Work p (Some n)) d = Connect_Call n (iod_socket d) (iod_error_code d)"
| "call_of (Read_Work p (Some n)) d = Read_Call n (iod_socket d) (iod_error_code d) (iod_bytes_transferred d)"
| "call_of (Write_Work p (Some n)) d = Write_Call n (iod_socket d) (iod_error_code d) (iod_bytes_transferred d)"
| "call_of (Disconnect_Work p (Some n)) d = Disconnect_Call n (iod_socket d) (iod_error_code d)"
| "call_of (App_Work n) d = App_Call n"
| "call_of _ d = Empty_Call"

fun moved :: "work \<Rightarrow> IOData \<Rightarrow> IOData" where
  "moved (Accept_Work p h l e) d = d\<lparr>iod_accept_socket := None\<rparr>"
| "moved _ d = d"

text \<open>
  What the library relies on in a handler: blocks and closures are private to the library, so a
  handler can add some by calling it but cannot change or free those that are there.
\<close>

definition keeps_blocks :: "'o user \<Rightarrow> bool" where
  "keeps_blocks user \<longleftrightarrow>
     (\<forall>call w. heap_wf w \<longrightarrow>
        (let w' = snd (run_state (user call) w) in
         heap_wf w' \<and> next_addr w \<le> next_addr w' \<and>
         (\<forall>p < next_addr w. io_heap w' p = io_heap w p \<and> fn_heap w' p = fn_heap w p)))"

lemma visit_run:
  assumes c: "win_contract os" "acceptex_contract os" "completing w p c" "io_heap w p = Some d"
    and run: "run_state (visit os user p (Some c) uh) w = (b, w')"
  shows "\<exists>errs wk w1. steps_for uh w p c d errs (new_trace w w1) wk \<and> stage p errs w w1 \<and>
    (if handler_of uh = None then \<not> b \<and> w' = w1 else told os errs wk \<and> delivered user p c wk w1 b w')"
proof (cases uh)
  case (AcceptHandler h)
  with accept_branch.visits [OF c, of user h b w'] run show ?thesis
    by (simp only: visit.simps handler_of.simps steps_for.simps)
next
  case (ConnectHandler h)
  with connect_branch.visits [OF c, of user h b w'] run show ?thesis
    by (simp only: visit.simps handler_of.simps steps_for.simps)
next
  case (ReadHandler h)
  with read_branch.visits [OF c, of user h b w'] run show ?thesis
    by (simp only: visit.simps handler_of.simps steps_for.simps)
next
  case (WriteHandler h)
  with write_branch.visits [OF c, of user h b w'] run show ?thesis
    by (simp only: visit.simps handler_of.simps steps_for.simps)
next
  case (DisconnectHandler h)
  with disconnect_branch.visits [OF c, of user h b w'] run show ?thesis
    by (simp only: visit.simps handler_of.simps steps_for.simps)
qed

lemma steps_for_work: "steps_for uh w p c d errs tr wk \<Longrightarrow> handler_of uh \<noteq> None \<Longrightarrow> work_for uh p wk"
  by (cases uh) (auto simp: accept_steps_def connect_steps_def no_steps_def)

text \<open>The steps depend on the sockets, the addresses in the block and the extension function only.\<close>

lemma steps_for_cong:
  assumes "sockets w' = sockets w" "lpfn_get_accept_ex_sockaddrs w' = lpfn_get_accept_ex_sockaddrs w"
    and "iod_accept_socket d' = iod_accept_socket d" "iod_local_win_addr d' = iod_local_win_addr d"
      "iod_peer_win_addr d' = iod_peer_win_addr d"
  shows "steps_for uh w' p c d' = steps_for uh w p c d"
proof -
  have "sock w' = sock w" using assms(1) by (auto simp: sock_def)
  then show ?thesis
    by (cases uh; intro ext; simp only: steps_for.simps accept_steps_def connect_steps_def no_steps_def addresses_def assms)
qed

lemma work_for_block: "work_for uh p wk \<Longrightarrow> work_block wk = p"
  by (cases uh) auto

lemma run_call_handler:
  assumes "work_for uh p wk" and "io_heap w p = Some d"
  shows "run_state (call_handler user wk) w =
    run_state (user (call_of wk d)) (w\<lparr>io_heap := (io_heap w)(p \<mapsto> moved wk d), invoked := invoked w @ [call_of wk d]\<rparr>)"
proof -
  have "(io_heap w)(p \<mapsto> d) = io_heap w" using assms(2) by (simp add: fun_upd_idem)
  moreover have "w\<lparr>io_heap := io_heap w, invoked := x\<rparr> = w\<lparr>invoked := x\<rparr>" for x by simp
  ultimately show ?thesis
    using assms by (cases uh; cases "handler_of uh") (auto simp: exec invoke_def io_Some Let_def)
qed

text \<open>The block after the routine has recorded the result of the operation.\<close>

definition completed :: "int \<Rightarrow> int \<Rightarrow> ErrorCode list \<Rightarrow> IOData \<Rightarrow> IOData \<Rightarrow> bool" where
  "completed io_result n errs d d' \<longleftrightarrow>
     iod_socket d' = iod_socket d \<and> iod_accept_socket d' = iod_accept_socket d \<and>
     iod_user_handler d' = iod_user_handler d \<and> iod_bytes_transferred d' = to_int32 n \<and>
     iod_error_code d' = first_error (ec_of_int (to_int32 io_result) # errs)"

text \<open>
  How the routine leaves: with the work handed over, with the handler called here after the system calls
  \<open>tr\<close>, or with the block freed.  Sockets, cores and extension functions are as before.
\<close>

definition outer_frame :: "'o world \<Rightarrow> 'o world \<Rightarrow> bool" where
  "outer_frame w w' \<longleftrightarrow> sockets w' = sockets w \<and> cores w' = cores w \<and> lpfns_loaded w' = lpfns_loaded w"

definition handed_over :: "addr \<Rightarrow> work \<Rightarrow> IOData \<Rightarrow> 'o world \<Rightarrow> 'o world \<Rightarrow> bool" where
  "handed_over p wk d' w w' \<longleftrightarrow>
     faults w' = faults w \<and> invoked w' = invoked w \<and> inflight w' = inflight w \<and> outer_frame w w' \<and>
     next_addr w' = next_addr w + 1 \<and>
     io_heap w' = (io_heap w)(p \<mapsto> d') \<and> fn_heap w' = (fn_heap w)(next_addr w \<mapsto> wk) \<and>
     posted w' = posted w @ [(User_Pool, next_addr w)]"

definition called_here :: "'o user \<Rightarrow> addr \<Rightarrow> work \<Rightarrow> IOData \<Rightarrow> trace \<Rightarrow> 'o world \<Rightarrow> 'o world \<Rightarrow> bool" where
  "called_here user p wk d' tr w w' \<longleftrightarrow>
     (\<exists>w1. os_trace w1 = os_trace w @ tr \<and> faults w1 = faults w \<and> invoked w1 = invoked w @ [call_of wk d'] \<and> inflight w1 = inflight w \<and>
        io_heap w1 = (io_heap w)(p \<mapsto> moved wk d') \<and> fn_heap w1 = fn_heap w \<and> posted w1 = posted w \<and>
        heap_wf w1 \<and> outer_frame w w1 \<and>
        (let w2 = snd (run_state (user (call_of wk d')) w1) in w' = w2\<lparr>io_heap := (io_heap w2)(p := None)\<rparr>))"

definition dropped :: "addr \<Rightarrow> 'o world \<Rightarrow> 'o world \<Rightarrow> bool" where
  "dropped p w w' \<longleftrightarrow> faults w' = faults w \<and> invoked w' = invoked w \<and> inflight w' = inflight w \<and>
     outer_frame w w' \<and> next_addr w' = next_addr w \<and> io_heap w' = (io_heap w)(p := None) \<and> fn_heap w' = fn_heap w \<and> posted w' = posted w"

text \<open>The block with the result recorded, at which the branches start.\<close>

lemma routine_start:
  assumes k: "completing w p c" and d: "io_heap w p = Some d"
  obtains d0 w0 where "d0 = d\<lparr>iod_bytes_transferred := to_int32 n, iod_error_code := ec_of_int (to_int32 res)\<rparr>"
    and "w0 = w\<lparr>io_heap := (io_heap w)(p \<mapsto> d0)\<rparr>" and "completing w0 p c" and "p \<noteq> 0"
    and "run_state (socket_io_routine os user p res n) w =
      (case run_state (visit os user p (Some c) (iod_user_handler d)) w0 of
         (b, w1) \<Rightarrow> run_state (if b then State_Monad.return () else delete_io p) w1)"
proof -
  let ?d0 = "d\<lparr>iod_bytes_transferred := to_int32 n, iod_error_code := ec_of_int (to_int32 res)\<rparr>"
  let ?w0 = "w\<lparr>io_heap := (io_heap w)(p \<mapsto> ?d0)\<rparr>"
  have p: "p \<noteq> 0" "p < next_addr w"
    using k heap_wf_block [OF _ d] by (simp_all add: completing_def)
  have s: "iod_socket d = Some c" using k d by (auto simp: completing_def)
  have "completing ?w0 p c"
    using k d p by (auto simp: completing_def heap_wf_def lpfns_loaded_def split: option.splits)
  then show ?thesis
    by (rule that [OF refl refl _ p(1)])
      (use d s p in \<open>simp add: socket_io_routine_def exec Let_def io_Some io_def split: prod.splits\<close>)
qed

lemma block_step_completed:
  assumes "block_step errs (d\<lparr>iod_bytes_transferred := to_int32 n, iod_error_code := ec_of_int (to_int32 res)\<rparr>) d'"
  shows "completed res n errs d d'"
  using assms by (simp add: block_step_def completed_def)

text \<open>The handler called here, and the block freed after it.\<close>

lemma inline_call:
  assumes u: "keeps_blocks user" and wf: "heap_wf w" and wk: "work_for uh p wk" and d: "io_heap w p = Some d"
  obtains w1 where "w1 = w\<lparr>io_heap := (io_heap w)(p \<mapsto> moved wk d), invoked := invoked w @ [call_of wk d]\<rparr>"
    and "heap_wf w1"
    and "let w2 = snd (run_state (user (call_of wk d)) w1) in
      snd (run_state (delete_io p) (snd (run_state (call_handler user wk) w))) = w2\<lparr>io_heap := (io_heap w2)(p := None)\<rparr>"
proof -
  let ?w1 = "w\<lparr>io_heap := (io_heap w)(p \<mapsto> moved wk d), invoked := invoked w @ [call_of wk d]\<rparr>"
  let ?w2 = "snd (run_state (user (call_of wk d)) ?w1)"
  note p = heap_wf_block [OF wf d]
  have wf1: "heap_wf ?w1" using wf p by (simp add: heap_wf_def)
  then have "io_heap ?w2 p = Some (moved wk d)"
    using u p by (auto simp: keeps_blocks_def Let_def)
  then show ?thesis
    using that [OF refl wf1] p run_call_handler [OF wk d] by (simp add: Let_def exec)
qed

lemma inline_outcome:
  assumes u: "keeps_blocks user" and wf: "heap_wf wa" and wk: "work_for uh p wk" and d1: "io_heap wa = (io_heap w)(p \<mapsto> d1)"
    and fr: "only_block p w wa" and q: "queued_or_freed User_Pool wk wa err wb" "err \<noteq> Success"
    and tr: "os_trace wb = os_trace wa @ tr"
    and sc: "stage p [err] wb wc" "os_trace wc = os_trace wb"
    and w': "w' = snd (run_state (delete_io p) (snd (run_state (call_handler user wk) wc)))"
  obtains d2 where "block_step [err] d1 d2" and "called_here user p wk d2 (new_trace w wa @ tr) w w'"
proof -
  from sc q d1 obtain d2 where d2: "io_heap wc = (io_heap w)(p \<mapsto> d2)" and b2: "block_step [err] d1 d2"
    by (auto simp: stage_def queued_or_freed_def)
  have "called_here user p wk d2 (new_trace w wa @ tr) w w'"
  proof (rule inline_call [OF u _ wk, of wc d2])
    have "heap_wf wb" using wf q by (auto simp: heap_wf_def queued_or_freed_def)
    then show "heap_wf wc" by (rule stage_sockets(6) [OF sc(1)])
  next
    fix wd assume wd: "wd = wc\<lparr>io_heap := (io_heap wc)(p \<mapsto> moved wk d2), invoked := invoked wc @ [call_of wk d2]\<rparr>"
      "heap_wf wd" and l: "let w2 = snd (run_state (user (call_of wk d2)) wd) in
      snd (run_state (delete_io p) (snd (run_state (call_handler user wk) wc))) = w2\<lparr>io_heap := (io_heap w2)(p := None)\<rparr>"
    have "os_trace wd = os_trace w @ new_trace w wa @ tr" using wd sc(2) tr fr by (simp add: only_block_def)
    with wd l fr q sc(1) d2 w' show "called_here user p wk d2 (new_trace w wa @ tr) w w'"
      unfolding called_here_def
      by (intro exI [of _ wd]) (simp add: queued_or_freed_def stage_def only_block_def outer_frame_def lpfns_loaded_def)
  qed (use d2 in simp)
  with that b2 show ?thesis by blast
qed

lemma routine_outcome:
  assumes c: "win_contract os" "acceptex_contract os" and u: "keeps_blocks user"
    and k: "completing w p c" and d: "io_heap w p = Some d"
    and run: "run_state (socket_io_routine os user p res n) w = ((), w')"
  shows "\<exists>errs tr wk. steps_for (iod_user_handler d) w p c d errs tr wk \<and>
    (if handler_of (iod_user_handler d) = None \<or> cores w (ws_io_core (sock w c)) = None
     then dropped p w w' \<and> os_trace w' = os_trace w @ tr
     else told os errs wk \<and>
       (\<exists>e tr' d'. post_step (ws_io_core (sock w c)) (next_addr w) e tr' \<and>
         (if e = Success then completed res n errs d d' \<and> handed_over p wk d' w w' \<and> os_trace w' = os_trace w @ tr @ tr'
          else completed res n (errs @ [e]) d d' \<and> called_here user p wk d' (tr @ tr') w w')))"
proof -
  let ?uh = "iod_user_handler d"
  obtain d0 w0 where d0: "d0 = d\<lparr>iod_bytes_transferred := to_int32 n, iod_error_code := ec_of_int (to_int32 res)\<rparr>"
    and w0: "w0 = w\<lparr>io_heap := (io_heap w)(p \<mapsto> d0)\<rparr>" and k0: "completing w0 p c" and p: "p \<noteq> 0"
    and r: "run_state (socket_io_routine os user p res n) w =
      (case run_state (visit os user p (Some c) ?uh) w0 of
         (b, w1) \<Rightarrow> run_state (if b then State_Monad.return () else delete_io p) w1)"
    by (rule routine_start [OF k d])
  obtain b w1 where r1: "run_state (visit os user p (Some c) ?uh) w0 = (b, w1)" by fastforce
  have h0: "io_heap w0 p = Some d0" by (simp add: w0)
  from visit_run [OF c k0 h0 r1] obtain errs wk wa where sf: "steps_for ?uh w0 p c d0 errs (new_trace w0 wa) wk"
    and st: "stage p errs w0 wa"
    and v: "if handler_of ?uh = None then \<not> b \<and> w1 = wa else told os errs wk \<and> delivered user p c wk wa b w1"
    by blast
  have sf': "steps_for ?uh w p c d errs (new_trace w wa) wk"
    using sf steps_for_cong [of w0 w d0 d ?uh p c] by (simp add: w0 d0 new_trace_def)
  from st obtain d1 where d1: "io_heap wa = (io_heap w)(p \<mapsto> d1)" and b1: "block_step errs d0 d1"
    by (auto simp: stage_def w0)
  have fr: "only_block p w wa" using st by (simp add: stage_def only_block_def w0 new_trace_def lpfns_loaded_def)
  note fr' = fr [unfolded only_block_def]
  have c1: "completed res n errs d d1" using b1 unfolding d0 by (rule block_step_completed)
  have end0: "w' = (if b then w1 else snd (run_state (delete_io p) w1))"
    using run r r1 by (auto split: if_splits)
  have same: "cores wa = cores w" "sock wa c = sock w c" "next_addr wa = next_addr w" using fr' by (simp_all add: sock_def)
  show ?thesis
  proof (cases "handler_of ?uh = None \<or> cores w (ws_io_core (sock w c)) = None")
    case True
    then have "\<not> b \<and> w1 = wa" using v same by (auto simp: delivered_def Let_def split: if_splits)
    then have "dropped p w w' \<and> os_trace w' = os_trace w @ new_trace w wa"
      using end0 fr' d1 p by (simp add: dropped_def outer_frame_def exec lpfns_loaded_def)
    then show ?thesis using True sf' by (intro exI [of _ errs] exI [of _ "new_trace w wa"] exI [of _ wk]) simp
  next
    case False
    with v same have t: "told os errs wk" and dl: "delivered user p c wk wa b w1" by simp_all
    have wk: "work_for ?uh p wk" using steps_for_work [OF sf] False by simp
    have wf: "heap_wf wa" using stage_sockets(6) [OF st] k0 by (simp add: completing_def)
    let ?post = "post_step (ws_io_core (sock w c)) (next_addr w)"
    have "\<exists>e tr' d'. ?post e tr' \<and>
        (if e = Success then completed res n errs d d' \<and> handed_over p wk d' w w' \<and> os_trace w' = os_trace w @ new_trace w wa @ tr'
         else completed res n (errs @ [e]) d d' \<and> called_here user p wk d' (new_trace w wa @ tr') w w')"
    proof (cases b)
      case True
      with dl False same have q: "queued_or_freed User_Pool wk wa Success w1" and ps: "?post Success (new_trace wa w1)"
        and "os_trace w1 = os_trace wa @ new_trace wa w1"
        by (auto simp: delivered_def Let_def split: if_splits)
      then have "handed_over p wk d1 w w' \<and> os_trace w' = os_trace w @ new_trace w wa @ new_trace wa w1"
        using True end0 fr' d1 q by (simp add: handed_over_def queued_or_freed_def outer_frame_def lpfns_loaded_def)
      with c1 ps show ?thesis by (intro exI [of _ Success] exI [of _ "new_trace wa w1"] exI [of _ d1]) simp
    next
      case notb: False
      with dl False same obtain err wb wc where e: "err \<noteq> Success" and q: "queued_or_freed User_Pool wk wa err wb"
        and ps: "?post err (new_trace wa wb)" and tb: "os_trace wb = os_trace wa @ new_trace wa wb" and sc: "stage p [err] wb wc" "os_trace wc = os_trace wb"
        and w1: "w1 = snd (run_state (call_handler user wk) wc)" by (auto simp: delivered_def Let_def)
      have "w' = snd (run_state (delete_io p) (snd (run_state (call_handler user wk) wc)))" using end0 notb w1 by simp
      from inline_outcome [OF u wf wk d1 fr q e tb sc this] obtain d2 where b2: "block_step [err] d1 d2"
        and ch: "called_here user p wk d2 (new_trace w wa @ new_trace wa wb) w w'" by blast
      have "completed res n (errs @ [err]) d d2"
        using block_step_trans [OF b1 b2] unfolding d0 by (rule block_step_completed)
      with e ps ch show ?thesis by (intro exI [of _ err] exI [of _ "new_trace wa wb"] exI [of _ d2]) simp
    qed
    with t have "told os errs wk \<and> (\<exists>e tr' d'. ?post e tr' \<and>
        (if e = Success then completed res n errs d d' \<and> handed_over p wk d' w w' \<and> os_trace w' = os_trace w @ new_trace w wa @ tr'
         else completed res n (errs @ [e]) d d' \<and> called_here user p wk d' (new_trace w wa @ tr') w w'))" by blast
    with sf' show ?thesis
      by (intro exI [of _ errs] exI [of _ "new_trace w wa"] exI [of _ wk] conjI) (simp_all only: False if_False)
  qed
qed

text \<open>The same without the system calls, as the ownership of the block needs it.\<close>

lemma routine_run:
  assumes "win_contract os" "acceptex_contract os" and "keeps_blocks user"
    and "completing w p c" and "io_heap w p = Some d"
    and "run_state (socket_io_routine os user p res n) w = ((), w')"
  shows "if handler_of (iod_user_handler d) = None \<or> cores w (ws_io_core (sock w c)) = None then dropped p w w'
    else \<exists>wk d' errs. work_for (iod_user_handler d) p wk \<and> told os errs wk \<and> completed res n errs d d' \<and>
      (handed_over p wk d' w w' \<or> (\<exists>tr. called_here user p wk d' tr w w'))"
proof -
  from routine_outcome [OF assms] obtain errs tr wk where sf: "steps_for (iod_user_handler d) w p c d errs tr wk"
    and r: "if handler_of (iod_user_handler d) = None \<or> cores w (ws_io_core (sock w c)) = None
     then dropped p w w' \<and> os_trace w' = os_trace w @ tr
     else told os errs wk \<and>
       (\<exists>e tr' d'. post_step (ws_io_core (sock w c)) (next_addr w) e tr' \<and>
         (if e = Success then completed res n errs d d' \<and> handed_over p wk d' w w' \<and> os_trace w' = os_trace w @ tr @ tr'
          else completed res n (errs @ [e]) d d' \<and> called_here user p wk d' (tr @ tr') w w'))" by blast
  show ?thesis
  proof (cases "handler_of (iod_user_handler d) = None \<or> cores w (ws_io_core (sock w c)) = None")
    case True
    with r show ?thesis by simp
  next
    case False
    with r obtain e tr' d' where t: "told os errs wk"
      and x: "if e = Success then completed res n errs d d' \<and> handed_over p wk d' w w' \<and> os_trace w' = os_trace w @ tr @ tr'
          else completed res n (errs @ [e]) d d' \<and> called_here user p wk d' (tr @ tr') w w'" by auto
    have "work_for (iod_user_handler d) p wk" using steps_for_work [OF sf] False by simp
    with False x t told_append [OF t, of "[e]"] show ?thesis by (auto split: if_splits)
  qed
qed

lemma heap_wf_fn:
  assumes "heap_wf w" and "fn_heap w f = Some wk"
  shows "f \<noteq> 0" "f < next_addr w"
  using assms unfolding heap_wf_def by (metis linorder_not_less option.distinct(1))+

lemma pool_callback_run:
  assumes u: "keeps_blocks user" and wf: "heap_wf w" and f: "fn_heap w f = Some wk"
    and wk: "work_for uh p wk" and d: "io_heap w p = Some d"
    and run: "run_state (pool_callback user f) w = ((), w')"
  obtains w1 where "w1 = w\<lparr>io_heap := (io_heap w)(p \<mapsto> moved wk d), invoked := invoked w @ [call_of wk d]\<rparr>"
    and "heap_wf w1"
    and "let w2 = snd (run_state (user (call_of wk d)) w1) in
      w' = w2\<lparr>io_heap := (io_heap w2)(p := None), fn_heap := (fn_heap w2)(f := None)\<rparr>"
proof -
  obtain w1 where w1: "w1 = w\<lparr>io_heap := (io_heap w)(p \<mapsto> moved wk d), invoked := invoked w @ [call_of wk d]\<rparr>"
    and wf1: "heap_wf w1"
    and l: "let w2 = snd (run_state (user (call_of wk d)) w1) in
      snd (run_state (delete_io p) (snd (run_state (call_handler user wk) w))) = w2\<lparr>io_heap := (io_heap w2)(p := None)\<rparr>"
    by (rule inline_call [OF u wf wk d])
  let ?w2 = "snd (run_state (user (call_of wk d)) w1)"
  note fn = heap_wf_fn [OF wf f]
  have "fn_heap ?w2 f = Some wk" using u wf1 fn f by (auto simp: keeps_blocks_def Let_def w1)
  moreover obtain wa where ra: "run_state (call_handler user wk) w = ((), wa)" by (rule unit_run)
  moreover obtain wb where rb: "run_state (delete_io p) wa = ((), wb)" by (rule unit_run)
  moreover have "run_state (pool_callback user f) w = run_state (delete_fn f) wb"
    using f ra rb work_for_block [OF wk] by (simp add: pool_callback_def run_work_def run_read_fn)
  ultimately have "w' = ?w2\<lparr>io_heap := (io_heap ?w2)(p := None), fn_heap := (fn_heap ?w2)(f := None)\<rparr>"
    using run fn l by (simp add: run_delete_fn Let_def)
  with that [OF w1 wf1] show ?thesis by simp
qed

section \<open>Systems that accept all work\<close>

text \<open>
  A system that accepts all the work it is given.  On it a completion calls no handler itself: it
  does the same for all handlers.
\<close>

definition accepting :: "'o os \<Rightarrow> bool" where
  "accepting os \<longleftrightarrow> (\<forall>f pl c w. ret (sys_ret os (TrySubmitThreadpoolCallback f pl c) w) \<noteq> 0)"

lemma post_accepting:
  assumes "accepting os"
  shows "fst (run_state (post_user_work os c wk) w) = Success"
  using assms by (simp add: accepting_def post_user_work_def exec)

lemma deliver_accepting:
  assumes "accepting os"
  shows "deliver os user c p wk = deliver os user' c p wk"
proof -
  have "do { err \<leftarrow> post_user_work os k wk;
      if err = Success then State_Monad.return True else do { note_error p err; call_handler user wk; State_Monad.return False } } =
    do { err \<leftarrow> post_user_work os k wk;
      if err = Success then State_Monad.return True else do { note_error p err; call_handler user' wk; State_Monad.return False } }"
    for k :: core_id
    by (rule bind_same) (simp add: post_accepting [OF assms])
  then show ?thesis by (simp only: deliver_def)
qed

lemma routine_accepting:
  assumes "accepting os"
  shows "socket_io_routine os user p res n = socket_io_routine os user' p res n"
proof -
  have "visit os user p c uh = visit os user' p c uh" for c uh
    by (cases uh) (simp_all add: visit_accept_def visit_connect_def visit_read_def visit_write_def visit_disconnect_def
        deliver_accepting [OF assms, of user _ _ _ user'])
  then show ?thesis by (simp add: socket_io_routine_def)
qed

section \<open>Properties\<close>

text \<open>C1. Every completion is handled once.  \<open>socket_io_routine\<close> takes the steps of the branch for the kind of
  the operation, each made of the system calls the code makes for it and with the error that these calls report:
  updating the context of an accepted or connected socket, and for an accept that has a handler reading the local and the peer's
  address that the system gives.  Then, without a handler or with the core gone, it frees the block.  Otherwise it
  asks the user pool of the socket's core to take the work, once.  When the pool takes it, the closure, which holds the
  handler and for an accept the two endpoints, owns the block from then on, and the block holds the bytes
  transferred and the first error of the operation and the steps.  When the pool refuses, its error counts as one more step; the
  handler is called here, once, and the block is freed after it.  Nothing else changes, and up to the call of the
  handler nothing faults.\<close>

theorem completion_outcome:
  assumes "win_contract os" and "acceptex_contract os" and "keeps_blocks user"
    and "completing w p c" and "io_heap w p = Some d"
    and "run_state (socket_io_routine os user p io_result n) w = ((), w')"
  shows "\<exists>errs tr wk. steps_for (iod_user_handler d) w p c d errs tr wk \<and>
    (if handler_of (iod_user_handler d) = None \<or> cores w (ws_io_core (sock w c)) = None
     then dropped p w w' \<and> os_trace w' = os_trace w @ tr
     else \<exists>e tr' d'. post_step (ws_io_core (sock w c)) (next_addr w) e tr' \<and>
         (if e = Success then completed io_result n errs d d' \<and> handed_over p wk d' w w' \<and> os_trace w' = os_trace w @ tr @ tr'
          else completed io_result n (errs @ [e]) d d' \<and> called_here user p wk d' (tr @ tr') w w'))"
  using routine_outcome [OF assms] by (elim exE conjE) (intro exI conjI, assumption, auto split: if_splits)

text \<open>A world in which a receive of one socket has completed, and a handler that does nothing.\<close>

definition sample_block :: "user_handler \<Rightarrow> IOData" where
  "sample_block uh = IOData_default\<lparr>iod_socket := Some 0, iod_user_handler := uh\<rparr>"

definition sample_completion :: "user_handler \<Rightarrow> unit world" where
  "sample_completion uh = (sample_world [sample_socket])\<lparr>io_heap := [1 \<mapsto> sample_block uh], next_addr := 2\<rparr>"

definition idle_user :: "unit user" where
  "idle_user call = State_Monad.return ()"

lemma sample_block_handler [simp]: "iod_user_handler (sample_block uh) = uh"
  by (simp add: sample_block_def)

lemma sample_completing: "completing (sample_completion uh) 1 0"
  by (simp add: completing_def sample_completion_def sample_world_def heap_wf_def lpfns_loaded_def sample_block_def
      IOData_default_def)

lemma sample_completion_block: "io_heap (sample_completion uh) 1 = Some (sample_block uh)"
  by (simp add: sample_completion_def)

lemma idle_keeps_blocks [simp]: "keeps_blocks idle_user"
  by (simp add: keeps_blocks_def idle_user_def)

lemma sample_acceptex_contract [simp]: "acceptex_contract sample_os"
  by (simp add: acceptex_contract_def sample_os_def)

theorem completion_outcome_witness:
  "\<exists>d' r. completed 0 5 [] (sample_block (ReadHandler (Some 7))) d' \<and>
     handed_over 1 (Read_Work 1 (Some 7)) d' (sample_completion (ReadHandler (Some 7)))
       (snd (run_state (socket_io_routine sample_os idle_user 1 0 5) (sample_completion (ReadHandler (Some 7))))) \<and>
     os_trace (snd (run_state (socket_io_routine sample_os idle_user 1 0 5) (sample_completion (ReadHandler (Some 7))))) =
       [(TrySubmitThreadpoolCallback 2 User_Pool 0, r)]"
proof -
  let ?uh = "ReadHandler (Some 7)"
  let ?w = "sample_completion ?uh"
  obtain w' where run: "run_state (socket_io_routine sample_os idle_user 1 0 5) ?w = ((), w')"
    by (rule unit_run)
  have w: "cores ?w (ws_io_core (sock ?w 0)) = Some sample_core" "next_addr ?w = 2" "ws_io_core (sock ?w 0) = 0"
    "os_trace ?w = []"
    by (simp_all add: sample_completion_def sample_world_def sample_socket_def sock_def)
  have "length (os_trace (snd (run_state (socket_io_routine sample_os idle_user 1 0 5) ?w))) = 1" by code_simp
  then have l: "length (os_trace w') = 1" using run by simp
  from completion_outcome [OF sample_win_contract sample_acceptex_contract idle_keeps_blocks sample_completing
      sample_completion_block run] w
  obtain e tr d' where p: "post_step 0 2 e tr"
    and x: "if e = Success then completed 0 5 [] (sample_block ?uh) d' \<and> handed_over 1 (Read_Work 1 (Some 7)) d' ?w w' \<and>
        os_trace w' = tr
      else completed 0 5 [e] (sample_block ?uh) d' \<and> called_here idle_user 1 (Read_Work 1 (Some 7)) d' tr ?w w'"
    by (auto simp: no_steps_def simp del: One_nat_def) (metis append_Nil)
  have "os_trace w' = tr" using x w(4) by (auto simp: called_here_def idle_user_def split: if_splits)
  with l p have "\<exists>r. e = Success \<and> tr = [(TrySubmitThreadpoolCallback 2 User_Pool 0, r)]"
    by (auto simp: post_step_def Let_def split: if_splits)
  with x run show ?thesis by auto
qed

text \<open>The core of a socket is held weakly.  When it is gone at the time an operation completes, the
  block is freed but the handler that was given is neither called nor posted: its caller is never
  told.\<close>

theorem completion_without_core_drops_handler:
  assumes "win_contract os" and "acceptex_contract os" and "keeps_blocks user" and "completing w p c"
    and "cores w (ws_io_core (sock w c)) = None"
    and "run_state (socket_io_routine os user p io_result n) w = ((), w')"
  shows "invoked w' = invoked w \<and> posted w' = posted w \<and> io_heap w' = (io_heap w)(p := None) \<and> faults w' = faults w"
proof -
  obtain d where d: "io_heap w p = Some d" using assms(4) by (auto simp: completing_def)
  show ?thesis using routine_run [OF assms(1-4) d assms(6)] assms(5) by (simp add: dropped_def)
qed

theorem completion_without_core_drops_handler_witness:
  "invoked (snd (run_state (socket_io_routine sample_os idle_user 1 0 5)
     ((sample_completion (ReadHandler (Some 7)))\<lparr>cores := Map.empty\<rparr>))) = []"
proof -
  let ?w = "(sample_completion (ReadHandler (Some 7)))\<lparr>cores := Map.empty\<rparr>"
  obtain w' where run: "run_state (socket_io_routine sample_os idle_user 1 0 5) ?w = ((), w')" by (rule unit_run)
  have k: "completing ?w 1 0" using sample_completing [of "ReadHandler (Some 7)"]
    by (simp add: completing_def heap_wf_def lpfns_loaded_def cong: option.case_cong)
  show ?thesis
    using completion_without_core_drops_handler [OF sample_win_contract sample_acceptex_contract idle_keeps_blocks k _ run] run
    by (simp add: sample_completion_def sample_world_def)
qed

text \<open>C9. The callback of posted work runs it once and frees what it owns: the handler is called with what
  the block of its operation holds, then the block and the closure are freed, and nothing faults
  except what the handler itself does.\<close>

theorem callback_runs_work_once:
  assumes "keeps_blocks user" and "heap_wf w" and "fn_heap w f = Some wk" and "work_for uh p wk"
    and "io_heap w p = Some d" and "run_state (pool_callback user f) w = ((), w')"
  shows "\<exists>w1. faults w1 = faults w \<and> invoked w1 = invoked w @ [call_of wk d] \<and> posted w1 = posted w \<and>
    (let w2 = snd (run_state (user (call_of wk d)) w1) in
     w' = w2\<lparr>io_heap := (io_heap w2)(p := None), fn_heap := (fn_heap w2)(f := None)\<rparr>)"
proof (rule pool_callback_run [OF assms])
  fix w1 assume "w1 = w\<lparr>io_heap := (io_heap w)(p \<mapsto> moved wk d), invoked := invoked w @ [call_of wk d]\<rparr>"
    and "let w2 = snd (run_state (user (call_of wk d)) w1) in
      w' = w2\<lparr>io_heap := (io_heap w2)(p := None), fn_heap := (fn_heap w2)(f := None)\<rparr>"
  then show ?thesis by (intro exI [of _ w1]) simp
qed

theorem callback_runs_work_once_witness:
  "invoked (snd (run_state (pool_callback idle_user 2) ((sample_completion (ReadHandler (Some 7)))
     \<lparr>fn_heap := [2 \<mapsto> Read_Work 1 (Some 7)], next_addr := 3\<rparr>))) = [Read_Call 7 (Some 0) Success 0]"
proof -
  let ?w = "(sample_completion (ReadHandler (Some 7)))\<lparr>fn_heap := [2 \<mapsto> Read_Work 1 (Some 7)], next_addr := 3\<rparr>"
  obtain w' where run: "run_state (pool_callback idle_user 2) ?w = ((), w')" by (rule unit_run)
  have "heap_wf ?w" "fn_heap ?w 2 = Some (Read_Work 1 (Some 7))" "work_for (ReadHandler (Some 7)) 1 (Read_Work 1 (Some 7))"
    "io_heap ?w 1 = Some (sample_block (ReadHandler (Some 7)))"
    by (auto simp: heap_wf_def sample_completion_def)
  from callback_runs_work_once [OF idle_keeps_blocks this run] run show ?thesis
    by (auto simp: idle_user_def sample_block_def IOData_default_def sample_completion_def sample_world_def Let_def)
qed

end
