(* ===== verification/Async_System.thy ===== *)
theory Async_System
  imports Win_Completion
begin

named_theorems client_rules
named_theorems logs_rules
named_theorems private_rules

text \<open>
  The asynchronous operations as a system: the application starts operations, the operating system
  completes them in any order and runs posted callbacks in any order, and the handlers the library
  calls start further operations.  A step is the whole of a library call, a completion or a
  callback.  The invariant \<open>owned\<close> says who owns the blocks and closures on the heap: every block
  belongs to exactly one of an operation in flight, a posted closure, or code that runs; it is
  shown to hold in every reachable state, so that no interleaving frees a block twice, uses one
  after it was freed, or forgets one.
\<close>

section \<open>Ownership\<close>

text \<open>The blocks that posted closures own.\<close>

fun closure_block :: "work option \<Rightarrow> addr list" where
  "closure_block None = []"
| "closure_block (Some wk) = (if work_block wk = 0 then [] else [work_block wk])"

definition posted_blocks :: "'o world \<Rightarrow> addr list" where
  "posted_blocks w = concat (map (\<lambda>c. closure_block (fn_heap w (snd c))) (posted w))"

definition block_ok :: "'o world \<Rightarrow> IOData \<Rightarrow> bool" where
  "block_ok w d \<longleftrightarrow> (\<exists>c. iod_socket d = Some c \<and> sockets w c \<noteq> None) \<and> acceptor_alive w d"

definition closure_ok :: "work \<Rightarrow> bool" where
  "closure_ok wk \<longleftrightarrow> (\<exists>n. wk = App_Work n) \<or> (\<exists>uh p. work_for uh p wk \<and> handler_of uh \<noteq> None \<and> p \<noteq> 0)"

text \<open>\<open>rs\<close> and \<open>fs\<close> are the blocks and closures in other hands: those of the callbacks that run, and lost blocks.\<close>

definition owned :: "addr list \<Rightarrow> addr list \<Rightarrow> 'o world \<Rightarrow> bool" where
  "owned rs fs w \<longleftrightarrow>
     heap_wf w \<and> lpfns_loaded w \<and>
     distinct (inflight w @ posted_blocks w @ rs) \<and> set (inflight w @ posted_blocks w @ rs) = dom (io_heap w) \<and>
     distinct (map snd (posted w) @ fs) \<and> set (map snd (posted w) @ fs) = dom (fn_heap w) \<and>
     (\<forall>d \<in> ran (io_heap w). block_ok w d) \<and> (\<forall>wk \<in> ran (fn_heap w). closure_ok wk)"

text \<open>
  The account of the operations: what the system has accepted, by its answers, and the handlers of
  operations that have been called.
\<close>

definition started :: "'o world \<Rightarrow> nat" where
  "started w = length (filter (\<lambda>(c, r). queued r \<and> overlapped_of c \<noteq> None) (os_trace w))"

fun operation_call :: "invocation \<Rightarrow> bool" where
  "operation_call (App_Call n) \<longleftrightarrow> False"
| "operation_call c \<longleftrightarrow> True"

definition calls :: "'o world \<Rightarrow> nat" where
  "calls w = length (filter operation_call (invoked w))"

text \<open>\<open>k\<close> operations have ended without a call.\<close>

definition accounted :: "nat \<Rightarrow> 'o world \<Rightarrow> bool" where
  "accounted k w \<longleftrightarrow> started w = length (inflight w) + length (posted_blocks w) + calls w + k"

text \<open>A run has only added faults, and has put in flight what the system has accepted.\<close>

definition logged :: "'o world \<Rightarrow> 'o world \<Rightarrow> bool" where
  "logged w w' \<longleftrightarrow> (\<exists>us. faults w' = faults w @ us) \<and>
     started w' + length (inflight w) = started w + length (inflight w')"

text \<open>
  A client call: run in a state that keeps the invariant it keeps it, unless it faults; it calls no
  handler itself.  A client program does so in every state.
\<close>

definition client_at :: "('o, 'a) prog \<Rightarrow> 'o world \<Rightarrow> bool" where
  "client_at m w \<longleftrightarrow>
     (let w' = snd (run_state m w) in logged w w' \<and>
      (\<forall>rs fs. owned rs fs w \<longrightarrow> faults w' = faults w \<longrightarrow>
         owned rs fs w' \<and> invoked w' = invoked w \<and> posted_blocks w' = posted_blocks w))"

definition client :: "('o, 'a) prog \<Rightarrow> bool" where
  "client m \<longleftrightarrow> (\<forall>w. client_at m w)"

section \<open>The system\<close>

text \<open>The calls of the library that an application makes.\<close>

datatype api =
    Api_socket sock_id AddressFamily SocketType Protocol
  | Api_bind sock_id Endpoint
  | Api_listen sock_id int
  | Api_shutdown sock_id ShutdownHow
  | Api_close sock_id
  | Api_accept sock_id "sock_id option"
  | Api_connect sock_id Endpoint
  | Api_recv sock_id span
  | Api_recv_from sock_id span Endpoint
  | Api_send sock_id span
  | Api_send_to sock_id span Endpoint
  | Api_get_sock_name sock_id Endpoint
  | Api_get_peer_name sock_id Endpoint
  | Api_start_accept sock_id "sock_id option" handler
  | Api_start_connect sock_id Endpoint handler
  | Api_start_recv sock_id span handler
  | Api_start_recv_from sock_id span handler
  | Api_start_send sock_id span handler
  | Api_start_send_to sock_id span Endpoint handler
  | Api_start_disconnect sock_id bool handler
  | Api_post_user_work core_id nat

definition ignore :: "('o, 'a) prog \<Rightarrow> ('o, unit) prog" where
  "ignore m = do { m; State_Monad.return () }"

fun api_prog :: "'o os \<Rightarrow> api \<Rightarrow> ('o, unit) prog" where
  "api_prog os (Api_socket s f t p) = ignore (socket os s f t p)"
| "api_prog os (Api_bind s e) = ignore (bind_ep os s e)"
| "api_prog os (Api_listen s n) = ignore (listen os s n)"
| "api_prog os (Api_shutdown s h) = ignore (shutdown os s h)"
| "api_prog os (Api_close s) = ignore (close os s)"
| "api_prog os (Api_accept s a) = ignore (accept os s a)"
| "api_prog os (Api_connect s e) = ignore (connect os s e)"
| "api_prog os (Api_recv s b) = ignore (recv os s b)"
| "api_prog os (Api_recv_from s b e) = ignore (recv_from os s b e)"
| "api_prog os (Api_send s b) = ignore (send os s b)"
| "api_prog os (Api_send_to s b e) = ignore (send_to os s b e)"
| "api_prog os (Api_get_sock_name s e) = ignore (get_sock_name os s e)"
| "api_prog os (Api_get_peer_name s e) = ignore (get_peer_name os s e)"
| "api_prog os (Api_start_accept s a h) = ignore (start_accept a h os s)"
| "api_prog os (Api_start_connect s e h) = ignore (start_connect e h os s)"
| "api_prog os (Api_start_recv s b h) = ignore (start_recv b h os s)"
| "api_prog os (Api_start_recv_from s b h) = ignore (start_recv_from b h os s)"
| "api_prog os (Api_start_send s b h) = ignore (start_send b h os s)"
| "api_prog os (Api_start_send_to s b e h) = ignore (start_send_to b e h os s)"
| "api_prog os (Api_start_disconnect s r h) = ignore (start_disconnect r h os s)"
| "api_prog os (Api_post_user_work c n) = ignore (post_user_work os c (App_Work n))"

text \<open>
  \<open>start_connect\<close> and \<open>start_send_to\<close> can give up between allocating the block and the overlapped call:
  the address cannot be encoded, or the implicit bind fails.  Then they return without freeing the block, which is
  lost.
\<close>

fun allocates_first :: "api \<Rightarrow> bool" where
  "allocates_first (Api_start_connect s e h) \<longleftrightarrow> True"
| "allocates_first (Api_start_send_to s b e h) \<longleftrightarrow> True"
| "allocates_first _ \<longleftrightarrow> False"

definition lost_by :: "'o os \<Rightarrow> api \<Rightarrow> 'o world \<Rightarrow> addr list" where
  "lost_by os a w =
     (if allocates_first a \<and> ov_made (new_trace w (snd (run_state (api_prog os a) w))) = [] then [next_addr w] else [])"

text \<open>
  What the operating system does: it completes an operation in flight, with any result, or runs a
  posted callback.
\<close>

definition complete :: "'o os \<Rightarrow> 'o user \<Rightarrow> addr \<Rightarrow> int \<Rightarrow> int \<Rightarrow> 'o world \<Rightarrow> 'o world" where
  "complete os user p io_result n w =
     snd (run_state (socket_io_routine os user p io_result n) (w\<lparr>inflight := remove1 p (inflight w)\<rparr>))"

definition run_callback :: "'o user \<Rightarrow> pool \<times> addr \<Rightarrow> 'o world \<Rightarrow> 'o world" where
  "run_callback user c w = snd (run_state (pool_callback user (snd c)) (w\<lparr>posted := remove1 c (posted w)\<rparr>))"

text \<open>The completion of this operation ends without a call: it has no handler, or its core is gone.\<close>

definition silent :: "'o world \<Rightarrow> addr \<Rightarrow> bool" where
  "silent w p \<longleftrightarrow> handler_of (iod_user_handler (io w p)) = None \<or>
     (case iod_socket (io w p) of Some c \<Rightarrow> cores w (ws_io_core (sock w c)) = None | None \<Rightarrow> True)"

text \<open>
  The states that can be reached, with the number of operations that have ended without a call and the
  blocks that calls of the application have lost.
\<close>

inductive async_reachable :: "'o os \<Rightarrow> 'o user \<Rightarrow> 'o world \<Rightarrow> nat \<Rightarrow> addr list \<Rightarrow> 'o world \<Rightarrow> bool" for os user w0 where
  start: "async_reachable os user w0 0 [] w0"
| call: "async_reachable os user w0 k ls w \<Longrightarrow>
    async_reachable os user w0 k (lost_by os a w @ ls) (snd (run_state (api_prog os a) w))"
| completion: "async_reachable os user w0 k ls w \<Longrightarrow> p \<in> set (inflight w) \<Longrightarrow>
    async_reachable os user w0 (if silent w p then Suc k else k) ls (complete os user p io_result n w)"
| callback: "async_reachable os user w0 k ls w \<Longrightarrow> c \<in> set (posted w) \<Longrightarrow>
    async_reachable os user w0 k ls (run_callback user c w)"

section \<open>Lemmas\<close>

lemma ownedD:
  assumes "owned rs fs w"
  shows "heap_wf w" "lpfns_loaded w" "distinct (inflight w @ posted_blocks w @ rs)"
    "set (inflight w @ posted_blocks w @ rs) = dom (io_heap w)" "distinct (map snd (posted w) @ fs)"
    "set (map snd (posted w) @ fs) = dom (fn_heap w)"
  using assms unfolding owned_def by simp_all

lemma owned_block_ok:
  assumes "owned rs fs w" and "io_heap w p = Some d"
  shows "block_ok w d"
proof -
  have "\<forall>d \<in> ran (io_heap w). block_ok w d" using assms(1) unfolding owned_def by simp
  then show ?thesis using ranI [of "io_heap w", OF assms(2)] by (rule bspec)
qed

lemma owned_closure_ok:
  assumes "owned rs fs w" and "fn_heap w f = Some wk"
  shows "closure_ok wk"
proof -
  have "\<forall>wk \<in> ran (fn_heap w). closure_ok wk" using assms(1) unfolding owned_def by simp
  then show ?thesis using ranI [of "fn_heap w", OF assms(2)] by (rule bspec)
qed

lemma block_ok_dom:
  assumes "dom (sockets w') = dom (sockets w)"
  shows "block_ok w' d = block_ok w d"
proof -
  have "sockets w' c \<noteq> None \<longleftrightarrow> sockets w c \<noteq> None" for c using assms by (metis domIff)
  then show ?thesis by (simp add: block_ok_def acceptor_alive_def split: option.splits)
qed

lemma posted_blocks_cong:
  assumes "posted w' = posted w" and "\<And>f. f \<in> snd ` set (posted w) \<Longrightarrow> fn_heap w' f = fn_heap w f"
  shows "posted_blocks w' = posted_blocks w"
  unfolding posted_blocks_def using assms by (intro arg_cong [where f = concat] map_cong) simp_all

text \<open>A run that leaves the heap and the lists alone keeps the invariant.\<close>

lemma owned_frame:
  assumes "owned rs fs w" and "io_heap w' = io_heap w" "fn_heap w' = fn_heap w" "next_addr w' = next_addr w"
    "inflight w' = inflight w" "posted w' = posted w" "lpfns_loaded w \<Longrightarrow> lpfns_loaded w'"
    "dom (sockets w') = dom (sockets w)"
  shows "owned rs fs w'"
proof -
  have "posted_blocks w' = posted_blocks w" using assms by (intro posted_blocks_cong) simp_all
  then show ?thesis using assms block_ok_dom [OF assms(8)] by (simp add: owned_def heap_wf_def)
qed

text \<open>A started operation adds a block that the system owns.\<close>

lemma submitted_owned:
  assumes o: "owned rs fs w" and s: "submitted this records w err w'" and e: "sockets w this \<noteq> None"
  shows "owned rs fs w'"
proof -
  have fr: "fn_heap w' = fn_heap w" "posted w' = posted w" "dom (sockets w') = dom (sockets w)"
    "lpfns_loaded w'" using s ownedD(2) [OF o] by (auto simp: submitted_def start_frame_def sockets_kept_def)
  have pb: "posted_blocks w' = posted_blocks w" using fr by (intro posted_blocks_cong) simp_all
  have bk: "block_ok w' d = block_ok w d" for d by (rule block_ok_dom [OF fr(3)])
  show ?thesis
  proof (cases "err = Success")
    case True
    then obtain d where d: "io_heap w' = (io_heap w)(next_addr w \<mapsto> d)" "iod_socket d = Some this" "acceptor_alive w' d"
      "inflight w' = inflight w @ [next_addr w]" "next_addr w' = next_addr w + 1"
      using s by (auto simp: submitted_def)
    have n: "io_heap w (next_addr w) = None" "fn_heap w (next_addr w) = None"
      using ownedD(1) [OF o] by (auto simp: heap_wf_def)
    then have "next_addr w \<notin> set (inflight w @ posted_blocks w @ rs)" using ownedD(4) [OF o] by auto
    moreover have "block_ok w' d" using d e fr(3) by (auto simp: block_ok_def)
    moreover have "ran ((io_heap w)(next_addr w \<mapsto> d)) = insert d (ran (io_heap w))" using n(1) by simp
    ultimately show ?thesis
      using o d fr pb bk by (auto simp: owned_def heap_wf_def)
  next
    case False
    then show ?thesis
      using o s fr pb bk by (auto simp: submitted_def owned_def heap_wf_def)
  qed
qed

text \<open>A run that changes one block, frees one, or posts a closure.\<close>

definition same_lists :: "'o world \<Rightarrow> 'o world \<Rightarrow> bool" where
  "same_lists w w' \<longleftrightarrow> heap_wf w' \<and> (lpfns_loaded w \<longrightarrow> lpfns_loaded w') \<and> sockets w' = sockets w \<and> inflight w' = inflight w"

lemma owned_change:
  assumes o: "owned rs fs w" and f: "same_lists w w'" "fn_heap w' = fn_heap w" "posted w' = posted w"
    and i: "io_heap w' = (io_heap w)(p \<mapsto> d)" and p: "p \<in> dom (io_heap w)" and b: "block_ok w d"
  shows "owned rs fs w'" "posted_blocks w' = posted_blocks w"
proof -
  show pb: "posted_blocks w' = posted_blocks w" using f by (intro posted_blocks_cong) simp_all
  have "dom (io_heap w') = dom (io_heap w)" using i p by auto
  moreover have "ran (io_heap w') \<subseteq> insert d (ran (io_heap w))" using i by (auto simp: ran_def)
  moreover have "block_ok w' x = block_ok w x" for x using f by (intro block_ok_dom) (simp add: same_lists_def)
  ultimately show "owned rs fs w'" using o f pb b by (auto simp: owned_def same_lists_def)
qed

lemma owned_free:
  assumes o: "owned (p # rs) fs w" and f: "same_lists w w'" "fn_heap w' = fn_heap w" "posted w' = posted w"
    and i: "io_heap w' = (io_heap w)(p := None)"
  shows "owned rs fs w'" "posted_blocks w' = posted_blocks w"
proof -
  show pb: "posted_blocks w' = posted_blocks w" using f by (intro posted_blocks_cong) simp_all
  have "dom (io_heap w') = dom (io_heap w) - {p}" using i by auto
  moreover have "ran (io_heap w') \<subseteq> ran (io_heap w)" using i by (auto simp: ran_def)
  moreover have "block_ok w' x = block_ok w x" for x using f by (intro block_ok_dom) (simp add: same_lists_def)
  moreover have "distinct (inflight w @ posted_blocks w @ p # rs)" "set (inflight w @ posted_blocks w @ p # rs) = dom (io_heap w)"
    using ownedD(3,4) [OF o] by simp_all
  then have "set (inflight w @ posted_blocks w @ rs) = dom (io_heap w) - {p}" by auto
  ultimately show "owned rs fs w'" using o f pb by (auto simp: owned_def same_lists_def)
qed

lemma owned_free_fn:
  assumes o: "owned rs (f # fs) w" and s: "same_lists w w'" "io_heap w' = io_heap w" "posted w' = posted w"
    and i: "fn_heap w' = (fn_heap w)(f := None)"
  shows "owned rs fs w'" "posted_blocks w' = posted_blocks w"
proof -
  have d: "distinct (map snd (posted w) @ f # fs)" "set (map snd (posted w) @ f # fs) = dom (fn_heap w)"
    using ownedD(5,6) [OF o] by simp_all
  show pb: "posted_blocks w' = posted_blocks w" using s i d by (intro posted_blocks_cong) auto
  have "dom (fn_heap w') = dom (fn_heap w) - {f}" using i by auto
  moreover have "ran (fn_heap w') \<subseteq> ran (fn_heap w)" using i by (auto simp: ran_def)
  moreover have "block_ok w' x = block_ok w x" for x using s by (intro block_ok_dom) (simp add: same_lists_def)
  moreover have "set (map snd (posted w) @ fs) = dom (fn_heap w) - {f}" using d by auto
  ultimately show "owned rs fs w'" using o s pb by (auto simp: owned_def same_lists_def)
qed

lemma owned_post:
  assumes o: "owned (closure_block (Some wk) @ rs) fs w" and s: "same_lists w w'" "io_heap w' = io_heap w"
    and i: "fn_heap w' = (fn_heap w)(next_addr w \<mapsto> wk)" "posted w' = posted w @ [(pl, next_addr w)]"
    and k: "closure_ok wk"
  shows "owned rs fs w'" "posted_blocks w' = posted_blocks w @ closure_block (Some wk)"
proof -
  have n: "fn_heap w (next_addr w) = None" using ownedD(1) [OF o] by (simp add: heap_wf_def)
  then have nd: "next_addr w \<notin> set (map snd (posted w) @ fs)" using ownedD(6) [OF o] by auto
  have m: "map (\<lambda>c. closure_block (fn_heap w' (snd c))) (posted w) = map (\<lambda>c. closure_block (fn_heap w (snd c))) (posted w)"
    using nd i by (intro map_cong) force+
  show pb: "posted_blocks w' = posted_blocks w @ closure_block (Some wk)"
    unfolding posted_blocks_def i(2) map_append concat_append m by (simp add: i(1))
  have "ran (fn_heap w') = insert wk (ran (fn_heap w))" using i n by simp
  moreover have "block_ok w' x = block_ok w x" for x using s by (intro block_ok_dom) (simp add: same_lists_def)
  ultimately show "owned rs fs w'" using o s pb nd k i by (auto simp: owned_def same_lists_def)
qed

section \<open>Clients\<close>

lemma logged_trans: "logged w w1 \<Longrightarrow> logged w1 w2 \<Longrightarrow> logged w w2"
  by (auto simp: logged_def)

lemma clientI:
  assumes "\<And>w. logged w (snd (run_state m w))"
    and "\<And>w rs fs. owned rs fs w \<Longrightarrow> faults (snd (run_state m w)) = faults w \<Longrightarrow>
      owned rs fs (snd (run_state m w)) \<and> invoked (snd (run_state m w)) = invoked w \<and>
      posted_blocks (snd (run_state m w)) = posted_blocks w"
  shows "client m"
  using assms by (simp add: client_def client_at_def)

lemma clientD:
  assumes "client_at m w" and "run_state m w = (x, w')"
  shows "logged w w'"
    and "owned rs fs w \<Longrightarrow> faults w' = faults w \<Longrightarrow> owned rs fs w'"
    and "owned rs fs w \<Longrightarrow> faults w' = faults w \<Longrightarrow> invoked w' = invoked w"
    and "owned rs fs w \<Longrightarrow> faults w' = faults w \<Longrightarrow> posted_blocks w' = posted_blocks w"
  using assms unfolding client_at_def by (metis snd_conv)+

lemma client_client_at: "client m \<Longrightarrow> client_at m w"
  by (simp add: client_def)

text \<open>A program that touches neither heap nor lists is one.\<close>

lemma client_inert:
  assumes "\<And>w. let w' = snd (run_state m w) in (\<exists>us. faults w' = faults w @ us) \<and> started w' = started w \<and>
      io_heap w' = io_heap w \<and> fn_heap w' = fn_heap w \<and> next_addr w' = next_addr w \<and> inflight w' = inflight w \<and>
      posted w' = posted w \<and> invoked w' = invoked w \<and> (lpfns_loaded w \<longrightarrow> lpfns_loaded w') \<and>
      dom (sockets w') = dom (sockets w)"
  shows "client m"
proof (rule clientI)
  fix w rs fs
  let ?w = "snd (run_state m w)"
  show "logged w ?w" using assms [of w] by (simp add: Let_def logged_def)
  assume "owned rs fs w"
  moreover have "posted_blocks ?w = posted_blocks w" using assms [of w] by (simp add: Let_def posted_blocks_def)
  ultimately show "owned rs fs ?w \<and> invoked ?w = invoked w \<and> posted_blocks ?w = posted_blocks w"
    using assms [of w] by (auto simp: Let_def intro: owned_frame)
qed

lemma client_bind [client_rules]:
  assumes m: "client m" and f: "\<And>x. client (f x)"
  shows "client (State_Monad.bind m f)"
proof (rule clientI)
  fix w
  obtain x w1 where r1: "run_state m w = (x, w1)" by fastforce
  obtain y w2 where r2: "run_state (f x) w1 = (y, w2)" by fastforce
  have r: "snd (run_state (State_Monad.bind m f) w) = w2" using r1 r2 by simp
  note d1 = clientD [OF client_client_at [OF m] r1] and d2 = clientD [OF client_client_at [OF f] r2]
  show "logged w (snd (run_state (State_Monad.bind m f) w))"
    unfolding r using d1(1) d2(1) by (rule logged_trans)
  obtain us vs where u: "faults w1 = faults w @ us" "faults w2 = faults w1 @ vs"
    using d1(1) d2(1) by (auto simp: logged_def)
  fix rs fs assume o: "owned rs fs w" and nf: "faults (snd (run_state (State_Monad.bind m f) w)) = faults w"
  then have n1: "faults w1 = faults w" and n2: "faults w2 = faults w1" using u unfolding r by simp_all
  show "owned rs fs (snd (run_state (State_Monad.bind m f) w)) \<and>
      invoked (snd (run_state (State_Monad.bind m f) w)) = invoked w \<and>
      posted_blocks (snd (run_state (State_Monad.bind m f) w)) = posted_blocks w"
    unfolding r using d2(2-4) [OF d1(2) [OF o n1] n2] d1(3,4) [OF o n1] by simp
qed

lemma started_update [simp]:
  "started (w\<lparr>faults := f\<rparr>) = started w" "started (w\<lparr>sockets := s\<rparr>) = started w"
  "started (w\<lparr>cores := c\<rparr>) = started w" "started (w\<lparr>umem := u\<rparr>) = started w"
  "started (w\<lparr>io_heap := h\<rparr>) = started w" "started (w\<lparr>fn_heap := g\<rparr>) = started w"
  "started (w\<lparr>next_addr := a\<rparr>) = started w" "started (w\<lparr>invoked := i\<rparr>) = started w"
  "started (w\<lparr>inflight := l\<rparr>) = started w" "started (w\<lparr>posted := p\<rparr>) = started w"
  by (simp_all add: started_def)

lemma started_after:
  "started (after os c w) = started w + (if queued (sys_ret os c w) \<and> overlapped_of c \<noteq> None then 1 else 0)"
  by (simp add: started_def after_def)

lemma client_basic [client_rules]:
  "client (State_Monad.return x)" "client (gets g)" "client (raise_fault u)" "client (lock_core c)"
  "client (read_sock s)" "client (read_core c)" "client (upd_core c k)"
  "client (lift_cpp d r)"
  by (rule client_inert; auto simp: exec Let_def lpfns_loaded_def split: cpp.splits)+

lemma client_upd_sock [client_rules]: "client (upd_sock s k)"
  by (rule client_inert) (auto simp: exec Let_def lpfns_loaded_def)

lemma client_sys [client_rules]: "overlapped_of c = None \<Longrightarrow> submitted_of c = None \<Longrightarrow> client (sys os c)"
  by (rule client_inert) (simp add: Let_def lpfns_loaded_def started_after)

lemma client_if [client_rules]: "client m \<Longrightarrow> client m' \<Longrightarrow> client (if b then m else m')"
  by simp

lemma client_when [client_rules]: "client m \<Longrightarrow> client (when b m)"
  by (simp add: when_def client_basic)

lemma client_prod [client_rules]: "(\<And>x y. client (f x y)) \<Longrightarrow> client (case z of (x, y) \<Rightarrow> f x y)"
  by (cases z) simp

lemma client_option [client_rules]: "client m \<Longrightarrow> (\<And>x. client (f x)) \<Longrightarrow> client (case z of None \<Rightarrow> m | Some x \<Rightarrow> f x)"
  by (cases z) simp_all

lemma client_umem [client_rules]: "client (modify (\<lambda>w. w\<lparr>umem := g w\<rparr>))"
  by (rule client_inert) (simp add: Let_def lpfns_loaded_def)

lemma client_ignore [client_rules]: "client m \<Longrightarrow> client (ignore m)"
  unfolding ignore_def by (intro client_rules)

lemma client_calls [client_rules]:
  "client (sys os (Ws c))" "client (sys os (Opt q))" "client (sys os (Io i))" "client (sys os (Tp t))"
  "client (sys os WSAGetLastError)" "client (sys os GetLastError)" "client (sys os GetTickCount64)"
  by (rule client_sys; simp add: overlapped_of_def submitted_of_def)+

lemma client_helpers [client_rules]:
  "client (last_wsa_error os)" "client (last_error os)" "client (associate_handle os c h)"
  "client (deref_sock s)" "client (store_received b r)" "client (load_fn l)"
  unfolding last_wsa_error_def last_error_def associate_handle_def deref_sock_def store_received_def load_fn_def
  by (intro client_rules)+

lemma client_socket [client_rules]: "client (socket os s f t p)"
  unfolding socket_def by (intro client_rules)

lemma client_close [client_rules]: "client (close os s)"
  unfolding close_def by (intro client_rules)

lemma client_handle [client_rules]:
  "client (bind_ep os s e)" "client (listen os s n)" "client (shutdown os s h)"
  unfolding bind_ep_def listen_def shutdown_def by (intro client_rules)+

lemma client_connection [client_rules]: "client (accept os s a)" "client (connect os s e)"
  unfolding accept_def connect_def Let_def by (intro client_rules)+

lemma client_data [client_rules]:
  "client (recv os s b)" "client (recv_from os s b e)" "client (send os s b)" "client (send_to os s b e)"
  unfolding recv_def recv_from_def send_def send_to_def Let_def by (intro client_rules)+

lemma client_options [client_rules]:
  "client (set_socket_option os s l q b)" "client (get_socket_option os s l q b z)"
  unfolding set_socket_option_def get_socket_option_def by (intro client_rules)+

lemma client_names [client_rules]: "client (get_sock_name os s e)" "client (get_peer_name os s e)"
  unfolding get_sock_name_def get_peer_name_def name_query_def by (intro client_rules)+

text \<open>Programs whose runs are logged.\<close>

definition logs :: "('o, 'a) prog \<Rightarrow> bool" where
  "logs m \<longleftrightarrow> (\<forall>w. logged w (snd (run_state m w)))"

lemma logs_client: "client m \<Longrightarrow> logs m"
  unfolding client_def client_at_def logs_def by (simp add: Let_def)

lemma logs_bind [logs_rules]: "logs m \<Longrightarrow> (\<And>x. logs (f x)) \<Longrightarrow> logs (State_Monad.bind m f)"
  unfolding logs_def by (auto split: prod.split) (metis logged_trans snd_conv)

lemma logs_memory [logs_rules]:
  "logs (new_io d)" "logs (read_io p)" "logs (upd_io p k)" "logs (delete_io p)"
  "logs (new_fn wk)" "logs (read_fn f)" "logs (delete_fn f)"
  by (simp_all add: logs_def logged_def exec)

lemmas logs_basic [logs_rules] = client_basic [THEN logs_client] client_upd_sock [THEN logs_client]
  client_helpers [THEN logs_client] client_socket [THEN logs_client] client_handle [THEN logs_client]

lemma logs_sys [logs_rules]: "logs (sys os c)"
  by (auto simp: logs_def logged_def started_def after_def split: option.splits)

lemma logs_if [logs_rules]: "logs m \<Longrightarrow> logs m' \<Longrightarrow> logs (if b then m else m')"
  by simp

lemma logs_when [logs_rules]: "logs m \<Longrightarrow> logs (when b m)"
  by (simp add: when_def logs_client client_basic)

lemma logs_prod [logs_rules]: "(\<And>x y. logs (f x y)) \<Longrightarrow> logs (case z of (x, y) \<Rightarrow> f x y)"
  by (cases z) simp

lemma logs_option [logs_rules]: "logs m \<Longrightarrow> (\<And>x. logs (f x)) \<Longrightarrow> logs (case z of None \<Rightarrow> m | Some x \<Rightarrow> f x)"
  by (cases z) simp_all

lemma logs_submit [logs_rules]: "logs (submit_overlapped os h call p)"
  unfolding submit_overlapped_def by (intro logs_rules)

text \<open>The operations that start an operation.\<close>

lemma logs_start [logs_rules]:
  "logs (start_accept a h os s)" "logs (start_connect e h os s)" "logs (start_recv b h os s)"
  "logs (start_recv_from b h os s)" "logs (start_send b h os s)" "logs (start_send_to b e h os s)"
  "logs (start_disconnect r h os s)" "logs (post_user_work os c wk)"
  unfolding start_accept_def start_connect_def start_recv_def start_recv_from_def start_send_def
    start_send_to_def start_disconnect_def Let_def post_user_work_def
  by (intro logs_rules)+

lemma submits_client_at:
  assumes "logs m"
    and "\<And>err w'. heap_wf w \<Longrightarrow> run_state m w = (err, w') \<Longrightarrow> faults w' = faults w \<Longrightarrow>
      submitted this records w err w' \<and> sockets w this \<noteq> None"
  shows "client_at m w"
proof -
  obtain err w' where run: "run_state m w = (err, w')" by fastforce
  have "owned rs fs w' \<and> invoked w' = invoked w \<and> posted_blocks w' = posted_blocks w"
    if o: "owned rs fs w" and nf: "faults w' = faults w" for rs fs
  proof -
    have s: "submitted this records w err w'" and e: "sockets w this \<noteq> None"
      using assms(2) [OF ownedD(1) [OF o] run nf] by simp_all
    have "posted_blocks w' = posted_blocks w"
      using s by (simp add: submitted_def start_frame_def posted_blocks_def)
    with submitted_owned [OF o s e] s show ?thesis by (simp add: submitted_def start_frame_def)
  qed
  moreover have "logged w w'" using assms(1) run unfolding logs_def by (metis snd_conv)
  ultimately show ?thesis by (simp add: client_at_def run)
qed

lemma client_start [client_rules]:
  assumes "overlapped_contract os"
  shows "client (start_recv buffer handler os this)" "client (start_send buffer handler os this)"
    "client (start_recv_from buffer handler os this)" "client (start_disconnect reuse handler os this)"
  unfolding client_def
  by (intro allI submits_client_at [where this = this] logs_start;
      rule start_recv_submits start_send_submits start_recv_from_submits start_disconnect_submits;
      (rule assms | assumption))+

text \<open>Work of the application that is posted owns a closure and no block.\<close>

lemma client_post [client_rules]:
  assumes "submit_contract os"
  shows "client (post_user_work os c (App_Work n))"
proof (rule clientI)
  fix w rs fs
  let ?m = "post_user_work os c (App_Work n)"
  obtain err w' where run: "run_state ?m w = (err, w')" by fastforce
  show "logged w (snd (run_state ?m w))" using logs_start(8) [of os c "App_Work n"] by (simp add: logs_def)
  assume o: "owned rs fs w"
  note q = user_queue.posts [OF assms ownedD(1) [OF o] run]
  have s: "same_lists w w'"
    using q user_queue.keeps_heap_wf [OF assms ownedD(1) [OF o] run] by (simp add: queued_or_freed_def same_lists_def)
  have "owned rs fs w' \<and> posted_blocks w' = posted_blocks w"
  proof (cases "err = Success")
    case True
    with owned_post [of "App_Work n" rs fs w w' User_Pool] o s q show ?thesis
      by (simp add: queued_or_freed_def closure_ok_def)
  next
    case False
    with q have "fn_heap w' = fn_heap w" "posted w' = posted w" "io_heap w' = io_heap w" by (simp_all add: queued_or_freed_def)
    then show ?thesis using o s block_ok_dom [of w' w] by (simp add: owned_def same_lists_def posted_blocks_def)
  qed
  then show "owned rs fs (snd (run_state ?m w)) \<and> invoked (snd (run_state ?m w)) = invoked w \<and>
      posted_blocks (snd (run_state ?m w)) = posted_blocks w"
    using q by (simp add: run queued_or_freed_def)
qed

text \<open>A call that reads its socket and does not fault has one.\<close>

lemma reads_socket:
  assumes "\<And>p me. logs (m p me)" and "run_state (do { p \<leftarrow> new_io d; me \<leftarrow> read_sock this; m p me }) w = (r, w')"
    and "faults w' = faults w"
  shows "sockets w this \<noteq> None"
proof
  assume n: "sockets w this = None"
  let ?v = "w\<lparr>io_heap := (io_heap w)(next_addr w \<mapsto> d), next_addr := next_addr w + 1, faults := faults w @ [Null_Deref]\<rparr>"
  have "run_state (m (next_addr w) (sock ?v this)) ?v = (r, w')" using assms(2) n by (simp add: exec sock_def)
  then have "logged ?v w'" using assms(1) unfolding logs_def by (metis snd_conv)
  with assms(3) show False by (auto simp: logged_def)
qed

text \<open>\<open>start_accept\<close>: the tail, on whatever the accepting object is.\<close>

lemma accept_tail_submits:
  assumes c: "overlapped_contract os" and wf: "heap_wf w"
    and d: "iod_socket d = Some this" "iod_error_code d = Success" "iod_accept_socket d = Some acc"
    and run: "run_state (do {
        p \<leftarrow> new_io d; me \<leftarrow> read_sock this; a \<leftarrow> read_sock acc; f \<leftarrow> load_fn lpfn_accept_ex;
        submit_overlapped os (ws_io_handle me) (call me a f) p }) w = (err, w')"
    and nf: "faults w' = faults w"
  shows "submitted this (\<lambda>_ _ _. True) w err w' \<and> sockets w this \<noteq> None"
proof -
  let ?w1 = "w\<lparr>io_heap := (io_heap w)(next_addr w \<mapsto> d), next_addr := next_addr w + 1\<rparr>"
  have s: "sockets w this \<noteq> None" by (rule reads_socket [OF _ run nf]) (intro logs_rules)
  have sub: "\<exists>us. faults w' = faults v @ us" if "run_state (submit_overlapped os h k p) v = (err, w')" for h k p v
    using submit_made [OF that] by blast
  have a: "sockets w acc \<noteq> None" and l: "lpfn_accept_ex w \<noteq> nullptr"
    using run s nf by (auto simp: exec sock_def dest!: sub split: if_splits)
  have r: "run_state (submit_overlapped os (ws_io_handle (sock w this)) (call (sock w this) (sock w acc) (lpfn_accept_ex w))
      (next_addr w)) ?w1 = (err, w')"
    using run s a l by (auto simp: exec sock_def)
  have h: "ws_io_handle (sock w this) \<noteq> nullptr"
    using r nf by (auto simp: submit_overlapped_def exec split: if_splits)
  have p: "prepared this d w ?w1" using d a by (intro prepared_new) (simp_all add: acceptor_alive_def)
  show ?thesis using prepared_submit_handle [OF c wf h p, of "\<lambda>_ _ _. True", OF TrueI r] s by simp
qed

lemma client_start_accept [client_rules]:
  assumes "overlapped_contract os"
  shows "client (start_accept a h os s)"
proof -
  have t: "client (do {
       p \<leftarrow> new_io (IOData_default\<lparr>iod_socket := Some s, iod_accept_socket := Some acc, iod_user_handler := AcceptHandler h\<rparr>);
       me \<leftarrow> read_sock s; a \<leftarrow> read_sock acc; f \<leftarrow> load_fn lpfn_accept_ex;
       submit_overlapped os (ws_io_handle me)
         (AcceptEx f (ws_socket me) (ws_socket a) acceptex_addr_len acceptex_addr_len) p })" for acc
    unfolding client_def
  proof (intro allI submits_client_at [where this = s and records = "\<lambda>_ _ _. True"])
    fix w err w' assume "heap_wf w" and nf: "faults w' = faults w" and run: "run_state (do {
       p \<leftarrow> new_io (IOData_default\<lparr>iod_socket := Some s, iod_accept_socket := Some acc, iod_user_handler := AcceptHandler h\<rparr>);
       me \<leftarrow> read_sock s; a \<leftarrow> read_sock acc; f \<leftarrow> load_fn lpfn_accept_ex;
       submit_overlapped os (ws_io_handle me)
         (AcceptEx f (ws_socket me) (ws_socket a) acceptex_addr_len acceptex_addr_len) p }) w = (err, w')"
    then show "submitted s (\<lambda>_ _ _. True) w err w' \<and> sockets w s \<noteq> None"
      by (intro accept_tail_submits [OF assms _ _ _ _ run nf]) simp_all
  qed (intro logs_rules)
  show ?thesis unfolding start_accept_def by (intro client_rules t)
qed

text \<open>
  What \<open>start_connect\<close> and \<open>start_send_to\<close> come to when they do not fault, whatever the socket and the
  endpoint: they hand the block to the tail, or they return before, with the block allocated.
\<close>

definition gives_up_or_submits :: "'o os \<Rightarrow> sock_id \<Rightarrow> 'o world \<Rightarrow> ErrorCode \<Rightarrow> 'o world \<Rightarrow> bool" where
  "gives_up_or_submits os this w err w' \<longleftrightarrow> sockets w this \<noteq> None \<and> (\<exists>d w1. prepared this d w w1 \<and>
     (w' = w1 \<or> (\<exists>call. run_state (submit_overlapped os (ws_io_handle (sock w this)) call (next_addr w)) w1 = (err, w'))))"

lemma start_send_to_outcome:
  assumes run: "run_state (start_send_to data dst handler os this) w = (err, w')" and nf: "faults w' = faults w"
  shows "gives_up_or_submits os this w err w'"
proof -
  have s: "sockets w this \<noteq> None"
    by (rule reads_socket [OF _ run [unfolded start_send_to_def] nf]) (intro logs_rules)
  then obtain me where me: "sockets w this = Some me" by blast
  let ?d = "IOData_default\<lparr>iod_socket := Some this, iod_user_handler := WriteHandler handler, iod_user_buffer := data\<rparr>"
  let ?w = "\<lambda>sa. w\<lparr>next_addr := next_addr w + 1, io_heap := (io_heap w)(next_addr w \<mapsto> ?d\<lparr>iod_peer_win_addr := sa\<rparr>)\<rparr>"
  have p: "prepared this (?d\<lparr>iod_peer_win_addr := sa\<rparr>) w (?w sa)" for sa
    by (simp add: prepared_def start_frame_def lpfns_loaded_def new_trace_def)
  have sub: "\<exists>us. faults w' = faults v @ us" if "run_state (submit_overlapped os h k p) v = (err, w')" for h k p v
    using submit_made [OF that] by blast
  show ?thesis
  proof (cases "endpoint_to_sockaddr (ws_addr_family (sock w this)) dst")
    case (Ret x)
    obtain e sa where x: "x = (e, sa)" by (cases x)
    show ?thesis unfolding gives_up_or_submits_def
      by (intro conjI s exI [of _ "?d\<lparr>iod_peer_win_addr := sa\<rparr>"] exI [of _ "?w sa"] p)
        (use run Ret x me in \<open>simp_all add: start_send_to_def exec io_Some sock_Some split: if_splits, blast+\<close>)
  next
    case (Throws x)
    show ?thesis unfolding gives_up_or_submits_def
      by (intro conjI s exI [of _ "?d\<lparr>iod_peer_win_addr := zero_storage\<rparr>"] exI [of _ "?w zero_storage"] p)
        (use run Throws me in \<open>simp_all add: start_send_to_def exec io_Some sock_Some\<close>)
  next
    case (Undefined u)
    then show ?thesis using run nf me by (auto simp: start_send_to_def exec io_Some sock_Some)
  qed
qed

lemma start_connect_outcome:
  assumes run: "run_state (start_connect dst handler os this) w = (err, w')" and nf: "faults w' = faults w"
  shows "gives_up_or_submits os this w err w'"
proof -
  have s: "sockets w this \<noteq> None"
    by (rule reads_socket [OF _ run [unfolded start_connect_def] nf]) (intro logs_rules)
  then obtain me where me: "sockets w this = Some me" by blast
  let ?d = "IOData_default\<lparr>iod_socket := Some this, iod_user_handler := ConnectHandler handler\<rparr>"
  let ?w = "\<lambda>sa. w\<lparr>next_addr := next_addr w + 1, io_heap := (io_heap w)(next_addr w \<mapsto> ?d\<lparr>iod_peer_win_addr := sa\<rparr>)\<rparr>"
  have p: "prepared this (?d\<lparr>iod_peer_win_addr := sa\<rparr>) w (?w sa)" for sa
    by (simp add: prepared_def start_frame_def lpfns_loaded_def new_trace_def)
  have sub: "\<exists>us. faults w' = faults v @ us" if "run_state (submit_overlapped os h k p) v = (err, w')" for h k p v
    using submit_made [OF that] by blast
  show ?thesis
  proof (cases "endpoint_to_sockaddr (ws_addr_family (sock w this)) dst")
    case (Ret x)
    obtain e sa where x: "x = (e, sa)" by (cases x)
    let ?me = "sock w this"
    define bind where "bind = (if ss_family sa = AF_INET then
                 (if ws_is_bound ?me = False then bind_ep os this (Ep_V4 (IPv4Address_any 0))
                  else State_Monad.return Success)
               else if ss_family sa = AF_INET6 then
                 (if ws_is_bound ?me = False then bind_ep os this (Ep_V6 (IPv6Address_any 0))
                  else State_Monad.return Success)
               else State_Monad.return Success)"
    obtain e1 w1 where b: "run_state bind (?w sa) = (e1, w1)" by fastforce
    have fr: "(\<exists>us. faults w1 = faults (?w sa) @ us) \<and> (faults w1 = faults w \<longrightarrow> prepared this (?d\<lparr>iod_peer_win_addr := sa\<rparr>) w w1)"
      using b bind_ep_frame [of os this _ "?w sa" e1 w1] prepared_frame [OF p, of sa w1] p [of sa]
      by (auto simp: bind_def split: if_splits)
    have rest: "run_state (if e1 \<noteq> Success then State_Monad.return e1 else do {
         f \<leftarrow> load_fn lpfn_connect_ex;
         submit_overlapped os (ws_io_handle ?me) (ConnectEx f (ws_socket ?me) sa sizeof_sockaddr) (next_addr w) }) w1 = (err, w')"
      if "e = Success"
      using run Ret x me that b by (simp add: start_connect_def exec io_Some bind_def sock_Some cong: if_cong)
    show ?thesis
    proof (cases "e = Success")
      case False
      show ?thesis unfolding gives_up_or_submits_def
        by (intro conjI s exI [of _ "?d\<lparr>iod_peer_win_addr := sa\<rparr>"] exI [of _ "?w sa"] p)
          (use run Ret x me False in \<open>simp_all add: start_connect_def exec io_Some sock_Some\<close>)
    next
      case True
      note r = rest [OF True]
      have "faults w1 = faults w \<and> (e1 = Success \<longrightarrow> lpfn_connect_ex w1 \<noteq> nullptr)"
        using r nf fr by (auto dest!: sub split: if_splits)
      then show ?thesis unfolding gives_up_or_submits_def
        by (intro conjI s exI [of _ "?d\<lparr>iod_peer_win_addr := sa\<rparr>"] exI [of _ w1])
          (use r fr in \<open>auto split: if_splits\<close>)
    qed
  next
    case (Throws x)
    show ?thesis unfolding gives_up_or_submits_def
      by (intro conjI s exI [of _ "?d\<lparr>iod_peer_win_addr := zero_storage\<rparr>"] exI [of _ "?w zero_storage"] p)
        (use run Throws me in \<open>simp_all add: start_connect_def exec io_Some sock_Some\<close>)
  next
    case (Undefined u)
    then show ?thesis using run nf me by (auto simp: start_connect_def exec io_Some sock_Some)
  qed
qed

text \<open>A block that was allocated and given up is in nobody's hands.\<close>

lemma prepared_owned:
  assumes o: "owned rs fs w" and p: "prepared this d w w1" and e: "sockets w this \<noteq> None"
  shows "owned (next_addr w # rs) fs w1 \<and> posted_blocks w1 = posted_blocks w \<and> invoked w1 = invoked w"
proof -
  have fr: "fn_heap w1 = fn_heap w" "posted w1 = posted w" "invoked w1 = invoked w" "dom (sockets w1) = dom (sockets w)"
    "lpfns_loaded w1"
    using p ownedD(2) [OF o] by (auto simp: prepared_def start_frame_def sockets_kept_def)
  have d: "io_heap w1 = (io_heap w)(next_addr w \<mapsto> d)" "inflight w1 = inflight w" "next_addr w1 = next_addr w + 1"
    "iod_socket d = Some this" "acceptor_alive w1 d" using p by (simp_all add: prepared_def)
  have pb: "posted_blocks w1 = posted_blocks w" using fr by (intro posted_blocks_cong) simp_all
  have n: "io_heap w (next_addr w) = None" "fn_heap w (next_addr w) = None"
    using ownedD(1) [OF o] by (auto simp: heap_wf_def)
  have "next_addr w \<notin> set (inflight w @ posted_blocks w @ rs)" using n(1) ownedD(4) [OF o] by auto
  moreover have "block_ok w1 d" using d e fr(4) by (auto simp: block_ok_def)
  moreover have "ran ((io_heap w)(next_addr w \<mapsto> d)) = insert d (ran (io_heap w))" using n(1) by simp
  ultimately have "owned (next_addr w # rs) fs w1"
    using o d fr pb block_ok_dom [OF fr(4)] by (auto simp: owned_def heap_wf_def)
  with pb fr(3) show ?thesis by simp
qed

lemma gives_up_owned:
  assumes c: "overlapped_contract os" and o: "owned rs fs w" and g: "gives_up_or_submits os this w err w'"
    and nf: "faults w' = faults w"
  shows "owned ((if ov_made (new_trace w w') = [] then [next_addr w] else []) @ rs) fs w' \<and>
    invoked w' = invoked w \<and> posted_blocks w' = posted_blocks w"
proof -
  obtain d w1 where s: "sockets w this \<noteq> None" and p: "prepared this d w w1"
    and x: "w' = w1 \<or> (\<exists>call. run_state (submit_overlapped os (ws_io_handle (sock w this)) call (next_addr w)) w1 = (err, w'))"
    using g unfolding gives_up_or_submits_def by blast
  have t: "ov_made (new_trace w w1) = []" "os_trace w1 = os_trace w @ new_trace w w1" using p by (simp_all add: prepared_def start_frame_def)
  from x show ?thesis
  proof (elim disjE exE)
    assume "w' = w1"
    with prepared_owned [OF o p s] t(1) show ?thesis by simp
  next
    fix call assume r: "run_state (submit_overlapped os (ws_io_handle (sock w this)) call (next_addr w)) w1 = (err, w')"
    from submit_made [OF r] obtain tr where tr: "os_trace w' = os_trace w1 @ tr" "ov_made tr = [(call, next_addr w)]" by blast
    then have "new_trace w w' = new_trace w w1 @ tr" using t(2) unfolding new_trace_def by (metis append.assoc append_eq_conv_conj)
    then have n: "ov_made (new_trace w w') \<noteq> []" using tr(2) by simp
    have h: "ws_io_handle (sock w this) \<noteq> nullptr"
      using r nf p by (auto simp: submit_overlapped_def exec prepared_def start_frame_def split: if_splits)
    have sb: "submitted this (\<lambda>_ _ _. True) w err w'"
      using prepared_submit_handle [OF c ownedD(1) [OF o] h p, of "\<lambda>_ _ _. True", OF TrueI r] .
    have "posted_blocks w' = posted_blocks w" "invoked w' = invoked w"
      using sb by (simp_all add: submitted_def start_frame_def posted_blocks_def)
    with submitted_owned [OF o sb s] n show ?thesis by simp
  qed
qed

text \<open>Every call an application makes keeps the invariant, up to the block it loses.\<close>

lemma api_logs: "win_contract os \<Longrightarrow> logs (api_prog os a)"
  by (cases a; simp only: api_prog.simps ignore_def)
    (intro logs_rules logs_client client_rules win_contractD; assumption)+

lemma api_owned:
  assumes c: "win_contract os" and o: "owned rs fs w" and w': "w' = snd (run_state (api_prog os a) w)"
    and nf: "faults w' = faults w"
  shows "owned (lost_by os a w @ rs) fs w' \<and> invoked w' = invoked w \<and> posted_blocks w' = posted_blocks w"
proof (cases "allocates_first a")
  case True
  then consider s e h where "a = Api_start_connect s e h" | s b e h where "a = Api_start_send_to s b e h"
    by (cases a) auto
  then have "\<exists>this err. gives_up_or_submits os this w err w'"
  proof cases
    case 1
    obtain err v where "run_state (start_connect e h os s) w = (err, v)" by fastforce
    with start_connect_outcome [of e h os s w err v] 1 w' nf show ?thesis by (auto simp: ignore_def)
  next
    case 2
    obtain err v where "run_state (start_send_to b e h os s) w = (err, v)" by fastforce
    with start_send_to_outcome [of b e h os s w err v] 2 w' nf show ?thesis by (auto simp: ignore_def)
  qed
  then obtain this err where "gives_up_or_submits os this w err w'" by blast
  from gives_up_owned [OF win_contractD(1) [OF c] o this nf] True w' show ?thesis by (simp add: lost_by_def)
next
  case False
  have "client (api_prog os a)"
    using False by (cases a; simp only: api_prog.simps allocates_first.simps simp_thms)
      (intro client_rules win_contractD [OF c])+
  then have "client_at (api_prog os a) w" by (rule client_client_at)
  with False o nf show ?thesis unfolding client_at_def Let_def w' by (simp add: lost_by_def)
qed

section \<open>Completions and callbacks\<close>

lemma logs_invoked [logs_rules]: "logs (modify (\<lambda>w. w\<lparr>invoked := g w\<rparr>))"
  by (simp add: logs_def logged_def)

lemma logs_call_handler:
  assumes "\<And>call. logs (user call)"
  shows "logs (call_handler user wk)"
  by (cases wk) (auto simp: invoke_def Let_def intro!: logs_rules assms)

lemma logs_deliver [logs_rules]:
  assumes "\<And>call. logs (user call)"
  shows "logs (deliver os user c p wk)"
  unfolding deliver_def note_error_def by (intro logs_rules logs_call_handler assms)

lemma logs_visit_steps [logs_rules]:
  "logs (note_error p err)" "logs (update_accept_socket_context os l a)" "logs (update_connect_socket_context os c)"
  "logs (get_acceptex_sockaddrs os p)"
  unfolding note_error_def update_accept_socket_context_def update_connect_socket_context_def
    get_acceptex_sockaddrs_def by (intro logs_rules)+

lemma logs_visit:
  assumes "\<And>call. logs (user call)"
  shows "logs (visit os user p c uh)"
  by (cases uh; simp only: visit.simps visit_accept_def visit_connect_def visit_read_def visit_write_def
      visit_disconnect_def Let_def; intro logs_rules assms)

lemma logs_routine:
  assumes "\<And>call. logs (user call)"
  shows "logs (socket_io_routine os user p res n)"
  unfolding socket_io_routine_def Let_def by (intro logs_rules logs_visit assms)

lemma logs_callback:
  assumes "\<And>call. logs (user call)"
  shows "logs (pool_callback user f)"
  unfolding pool_callback_def run_work_def by (intro logs_rules logs_call_handler assms)

lemma called_operation: "work_for uh p wk \<Longrightarrow> handler_of uh \<noteq> None \<Longrightarrow> operation_call (call_of wk d)"
  by (cases uh) auto

text \<open>The system hands a block over to the code that runs, and the code gives it back.\<close>

lemma owned_take_over:
  assumes o: "owned rs fs w" and p: "p \<in> set (inflight w)" and v: "v = w\<lparr>inflight := remove1 p (inflight w)\<rparr>"
  obtains d c where "owned (p # rs) fs v" and "io_heap v p = Some d" and "iod_socket d = Some c" and "completing v p c"
    and "silent w p \<longleftrightarrow> handler_of (iod_user_handler d) = None \<or> cores v (ws_io_core (sock v c)) = None"
    and "block_ok v d"
proof -
  note d = ownedD [OF o]
  have m: "mset (inflight v @ posted_blocks w @ p # rs) = mset (inflight w @ posted_blocks w @ rs)" using p v by simp
  have "posted_blocks v = posted_blocks w" using v by (simp add: posted_blocks_def)
  then have ov: "owned (p # rs) fs v"
    using o v mset_eq_imp_distinct_iff [OF m] mset_eq_setD [OF m]
    by (simp add: owned_def heap_wf_def lpfns_loaded_def block_ok_def acceptor_alive_def cong: option.case_cong)
  obtain x where x: "io_heap v p = Some x" using d(4) p v by auto
  note b = owned_block_ok [OF ov x]
  then obtain c where c: "iod_socket x = Some c" "sockets v c \<noteq> None" "acceptor_alive v x" by (auto simp: block_ok_def)
  have "completing v p c"
    using x c ownedD(1,2) [OF ov] by (auto simp: completing_def acceptor_alive_def split: option.splits)
  moreover have "silent w p \<longleftrightarrow> handler_of (iod_user_handler x) = None \<or> cores v (ws_io_core (sock v c)) = None"
    using x c v by (simp add: silent_def io_def sock_def)
  ultimately show ?thesis by (rule that [OF ov x c(1) _ _ b])
qed

lemma owned_handler_ends:
  assumes u: "client m" and o: "owned (p # rs) fs w" and r: "w2 = snd (run_state m w)"
    and nf: "faults w2 = faults w" and e: "w' = w2\<lparr>io_heap := (io_heap w2)(p := None)\<rparr>"
  shows "owned rs fs w' \<and> posted_blocks w' = posted_blocks w \<and> invoked w' = invoked w"
proof -
  obtain x where run: "run_state m w = (x, w2)" using r by (metis prod.collapse)
  note c = clientD(2-4) [OF client_client_at [OF u] run o nf]
  have "heap_wf w'" using ownedD(1) [OF c(1)] e by (auto simp: heap_wf_def)
  then have "same_lists w2 w'" using e by (simp add: same_lists_def lpfns_loaded_def)
  with owned_free [OF c(1), of w'] e c show ?thesis by simp
qed

lemma handed_over_owned:
  assumes o: "owned (p # rs) fs v" and d: "io_heap v p = Some d" and wk: "work_for uh p wk" "handler_of uh \<noteq> None"
    and b: "block_ok v d'" and h: "handed_over p wk d' v w'"
  shows "owned rs fs w'" "posted_blocks w' = posted_blocks v @ [p]"
proof -
  note p = heap_wf_block [OF ownedD(1) [OF o] d]
  define v1 where "v1 = v\<lparr>io_heap := (io_heap v)(p \<mapsto> d')\<rparr>"
  have wf: "heap_wf v1" using ownedD(1) [OF o] p by (simp add: heap_wf_def v1_def)
  then have s1: "same_lists v v1" by (simp add: same_lists_def v1_def lpfns_loaded_def)
  have o1: "owned (p # rs) fs v1" and pb1: "posted_blocks v1 = posted_blocks v"
    using owned_change [OF o s1, of p d'] d b by (auto simp: v1_def)
  have cb: "closure_block (Some wk) = [p]" using work_for_block [OF wk(1)] p(1) by simp
  have "same_lists v1 w'" using h wf
    by (auto simp: same_lists_def handed_over_def v1_def outer_frame_def heap_wf_def lpfns_loaded_def)
  moreover have "closure_ok wk" using wk p(1) by (auto simp: closure_ok_def)
  ultimately show "owned rs fs w'" "posted_blocks w' = posted_blocks v @ [p]"
    using owned_post [of wk rs fs v1 w' User_Pool] o1 cb h pb1 by (simp_all add: handed_over_def v1_def)
qed

lemma called_here_owned:
  assumes o: "owned (p # rs) fs v" and d: "io_heap v p = Some d" and u: "\<And>call. client (user call)"
    and b: "block_ok v (moved wk d')" and h: "called_here user p wk d' tr v w'" and nf: "faults w' = faults v"
  shows "owned rs fs w' \<and> posted_blocks w' = posted_blocks v \<and> invoked w' = invoked v @ [call_of wk d']"
proof -
  obtain w1 where w1: "faults w1 = faults v" "invoked w1 = invoked v @ [call_of wk d']" "inflight w1 = inflight v"
      "io_heap w1 = (io_heap v)(p \<mapsto> moved wk d')" "fn_heap w1 = fn_heap v" "posted w1 = posted v"
      "heap_wf w1" "outer_frame v w1"
    and e: "let w2 = snd (run_state (user (call_of wk d')) w1) in w' = w2\<lparr>io_heap := (io_heap w2)(p := None)\<rparr>"
    using h unfolding called_here_def by blast
  have "same_lists v w1" using w1 by (simp add: same_lists_def outer_frame_def)
  from owned_change [OF o this w1(5,6,4)] d b have o1: "owned (p # rs) fs w1" "posted_blocks w1 = posted_blocks v" by auto
  have "faults (snd (run_state (user (call_of wk d')) w1)) = faults w1" using e nf w1(1) by (simp add: Let_def)
  from owned_handler_ends [OF u o1(1) refl this] e o1(2) w1(2) show ?thesis by (simp add: Let_def)
qed

lemma block_ok_completed:
  assumes "block_ok v d" "completed res n errs d d'"
  shows "block_ok v d'" "block_ok v (moved wk d')"
  using assms by (cases wk; simp add: block_ok_def completed_def acceptor_alive_def)+

lemma complete_owned:
  assumes c: "win_contract os" "acceptex_contract os" and u: "\<And>call. client (user call)" "keeps_blocks user"
    and o: "owned rs fs w" and p: "p \<in> set (inflight w)"
    and w': "w' = complete os user p res n w" and nf: "faults w' = faults w"
  shows "owned rs fs w' \<and> length (posted_blocks w') + calls w' =
    (if silent w p then 0 else 1) + length (posted_blocks w) + calls w"
proof -
  define v where "v = w\<lparr>inflight := remove1 p (inflight w)\<rparr>"
  obtain d k where ov: "owned (p # rs) fs v" and d: "io_heap v p = Some d" and k: "completing v p k"
    and s: "silent w p \<longleftrightarrow> handler_of (iod_user_handler d) = None \<or> cores v (ws_io_core (sock v k)) = None"
    and sk: "iod_socket d = Some k" and b: "block_ok v d"
    by (rule owned_take_over [OF o p v_def])
  have vw: "posted_blocks v = posted_blocks w" "calls v = calls w" "faults v = faults w"
    by (simp_all add: v_def posted_blocks_def calls_def)
  have run: "run_state (socket_io_routine os user p res n) v = ((), w')" using w' by (simp add: complete_def v_def prod_eq_iff)
  note rr = routine_run [OF c u(2) k d run]
  show ?thesis
  proof (cases "silent w p")
    case True
    then have dr: "dropped p v w'" using rr s by simp
    then have "same_lists v w'" using ownedD(1) [OF ov] by (auto simp: dropped_def same_lists_def outer_frame_def heap_wf_def)
    with owned_free [OF ov, of w'] dr True vw show ?thesis by (simp add: dropped_def calls_def)
  next
    case False
    with rr s obtain wk d' errs where wk: "work_for (iod_user_handler d) p wk" and cd: "completed res n errs d d'"
      and alt: "handed_over p wk d' v w' \<or> (\<exists>tr. called_here user p wk d' tr v w')" by (simp only: if_False) blast
    have h: "handler_of (iod_user_handler d) \<noteq> None" using False s by simp
    from alt show ?thesis
    proof
      assume ho: "handed_over p wk d' v w'"
      from handed_over_owned [OF ov d wk h block_ok_completed(1) [OF b cd] ho] ho False vw
      show ?thesis by (simp add: handed_over_def calls_def)
    next
      assume "\<exists>tr. called_here user p wk d' tr v w'"
      then obtain tr where "called_here user p wk d' tr v w'" by blast
      from called_here_owned [OF ov d u(1) block_ok_completed(2) [OF b cd] this] nf vw False called_operation [OF wk h]
      show ?thesis by (simp add: calls_def)
    qed
  qed
qed

text \<open>A completion on a system that accepts all work does not fault, whatever the handlers are.\<close>

lemma quiet_completion:
  assumes c: "win_contract (os :: 'o os)" "acceptex_contract os" and a: "accepting os" and o: "owned [] [] w"
    and p: "p \<in> set (inflight w)" and w': "w' = complete os user p res n w"
  shows "faults w' = faults w \<and> owned [] [] w' \<and> sockets w' = sockets w \<and> cores w' = cores w"
proof -
  define idle :: "'o user" where "idle = (\<lambda>_. State_Monad.return ())"
  have u: "\<And>call. client (idle call)" "keeps_blocks idle"
    by (simp_all add: idle_def client_basic keeps_blocks_def)
  have w'i: "w' = complete os idle p res n w"
    using w' by (simp add: complete_def routine_accepting [OF a, of user _ _ _ idle])
  define v where "v = w\<lparr>inflight := remove1 p (inflight w)\<rparr>"
  obtain d s where d: "io_heap v p = Some d" and k: "completing v p s" by (rule owned_take_over [OF o p v_def])
  have run: "run_state (socket_io_routine os idle p res n) v = ((), w')"
    using w'i by (simp add: complete_def v_def prod_eq_iff)
  have "dropped p v w' \<or> (\<exists>wk d'. handed_over p wk d' v w') \<or> (\<exists>wk d' tr. called_here idle p wk d' tr v w')"
    using routine_run [OF c u(2) k d run] by (auto split: if_splits)
  then have f: "faults w' = faults v \<and> outer_frame v w'"
    by (elim disjE exE) (auto simp: dropped_def handed_over_def called_here_def idle_def outer_frame_def lpfns_loaded_def)
  then have "faults w' = faults w" by (simp add: v_def)
  with complete_owned [OF c u o p w'i] f show ?thesis by (simp add: v_def outer_frame_def)
qed

text \<open>A posted callback that starts owns its closure and what the closure owns.\<close>

lemma mset_concat_remove1:
  "c \<in> set xs \<Longrightarrow> mset (concat (map g xs)) = mset (g c) + mset (concat (map g (remove1 c xs)))"
  by (induction xs) auto

lemma owned_start_callback:
  assumes o: "owned rs fs w" and c: "c \<in> set (posted w)" and v: "v = w\<lparr>posted := remove1 c (posted w)\<rparr>"
  obtains wk where "fn_heap v (snd c) = Some wk" and "closure_ok wk"
    and "owned (closure_block (Some wk) @ rs) (snd c # fs) v"
    and "length (posted_blocks w) = length (closure_block (Some wk)) + length (posted_blocks v)"
proof -
  let ?f = "snd c"
  note d = ownedD [OF o]
  obtain wk where wk: "fn_heap w ?f = Some wk" using d(6) c by fastforce
  have k: "closure_ok wk" by (rule owned_closure_ok [OF o wk])
  have p: "mset (posted_blocks w) = mset (closure_block (Some wk)) + mset (posted_blocks v)"
    using mset_concat_remove1 [OF c, of "\<lambda>c. closure_block (fn_heap w (snd c))"] wk v by (simp add: posted_blocks_def)
  have m: "mset (inflight w @ posted_blocks v @ closure_block (Some wk) @ rs) = mset (inflight w @ posted_blocks w @ rs)"
    using p by simp
  have n: "mset (map snd (remove1 c (posted w)) @ ?f # fs) = mset (map snd (posted w) @ fs)"
    using c by (simp add: image_mset_Diff)
  have "owned (closure_block (Some wk) @ rs) (?f # fs) v"
    using o v mset_eq_imp_distinct_iff [OF m] mset_eq_setD [OF m] mset_eq_imp_distinct_iff [OF n] mset_eq_setD [OF n]
    by (simp add: owned_def heap_wf_def lpfns_loaded_def block_ok_def acceptor_alive_def cong: option.case_cong
        del: closure_block.simps)
  moreover have "length (posted_blocks w) = length (closure_block (Some wk)) + length (posted_blocks v)"
    using arg_cong [OF p, of size] by (simp del: closure_block.simps)
  moreover have "fn_heap v ?f = Some wk" using wk v by simp
  ultimately show ?thesis using k by (intro that)
qed

lemma owned_callback_ends:
  assumes o: "owned rs (f # fs) w2" and e: "w' = w2\<lparr>fn_heap := (fn_heap w2)(f := None)\<rparr>"
  shows "owned rs fs w'" "posted_blocks w' = posted_blocks w2"
proof -
  have "heap_wf w'" using ownedD(1) [OF o] e by (auto simp: heap_wf_def)
  then have "same_lists w2 w'" using e by (simp add: same_lists_def lpfns_loaded_def)
  with owned_free_fn [OF o, of w'] e show "owned rs fs w'" "posted_blocks w' = posted_blocks w2" by simp_all
qed

lemma app_callback_run:
  assumes u: "keeps_blocks user" and wf: "heap_wf v" and f: "fn_heap v f = Some (App_Work n)"
    and run: "run_state (pool_callback user f) v = ((), w')"
  obtains v1 w2 where "v1 = v\<lparr>invoked := invoked v @ [App_Call n]\<rparr>"
    and "run_state (user (App_Call n)) v1 = ((), w2)" and "w' = w2\<lparr>fn_heap := (fn_heap w2)(f := None)\<rparr>"
proof -
  let ?v1 = "v\<lparr>invoked := invoked v @ [App_Call n]\<rparr>"
  obtain w2 where r2: "run_state (user (App_Call n)) ?v1 = ((), w2)" by (rule unit_run)
  note fn = heap_wf_fn [OF wf f]
  have "heap_wf ?v1" using wf by (simp add: heap_wf_def)
  then have "fn_heap w2 f = Some (App_Work n)"
    using u [unfolded keeps_blocks_def, rule_format, of ?v1 "App_Call n"] r2 fn f by (simp add: Let_def)
  moreover have "run_state (call_handler user (App_Work n)) v = ((), w2)" using r2 by (simp add: invoke_def Let_def)
  moreover have "run_state (delete_io (work_block (App_Work n))) w2 = ((), w2)" by (simp add: exec)
  ultimately have "w' = w2\<lparr>fn_heap := (fn_heap w2)(f := None)\<rparr>"
    using run f fn by (simp add: pool_callback_def run_work_def run_read_fn run_delete_fn)
  with that [OF refl r2] show ?thesis by blast
qed

lemma app_callback_owned:
  assumes u: "\<And>call. client (user call)" "keeps_blocks user" and o: "owned rs (f # fs) v"
    and f: "fn_heap v f = Some (App_Work n)"
    and run: "run_state (pool_callback user f) v = ((), w')" and nf: "faults w' = faults v"
  shows "owned rs fs w' \<and> posted_blocks w' = posted_blocks v \<and> calls w' = calls v"
proof (rule app_callback_run [OF u(2) ownedD(1) [OF o] f run])
  fix v1 w2 assume v1: "v1 = v\<lparr>invoked := invoked v @ [App_Call n]\<rparr>"
    and r2: "run_state (user (App_Call n)) v1 = ((), w2)" and w': "w' = w2\<lparr>fn_heap := (fn_heap w2)(f := None)\<rparr>"
  have o1: "owned rs (f # fs) v1" "posted_blocks v1 = posted_blocks v"
    using o by (auto simp: v1 posted_blocks_def lpfns_loaded_def intro: owned_frame)
  have "faults w2 = faults v1" using w' nf v1 by simp
  note c = clientD(2-4) [OF client_client_at [OF u(1)] r2 o1(1) this]
  from owned_callback_ends [OF c(1) w'] c(2,3) o1(2) v1 w' show ?thesis by (simp add: calls_def)
qed

lemma callback_owned:
  assumes u: "\<And>call. client (user call)" "keeps_blocks user"
    and o: "owned rs fs w" and c: "c \<in> set (posted w)" and w': "w' = run_callback user c w" and nf: "faults w' = faults w"
  shows "owned rs fs w' \<and> length (posted_blocks w') + calls w' = length (posted_blocks w) + calls w"
proof -
  define v where "v = w\<lparr>posted := remove1 c (posted w)\<rparr>"
  obtain wk where f: "fn_heap v (snd c) = Some wk" and k: "closure_ok wk"
    and ov: "owned (closure_block (Some wk) @ rs) (snd c # fs) v"
    and l: "length (posted_blocks w) = length (closure_block (Some wk)) + length (posted_blocks v)"
    by (rule owned_start_callback [OF o c v_def])
  have vw: "calls v = calls w" "faults v = faults w" by (simp_all add: v_def calls_def)
  have run: "run_state (pool_callback user (snd c)) v = ((), w')" using w' by (simp add: run_callback_def v_def prod_eq_iff)
  from k consider n where "wk = App_Work n" | uh p where "work_for uh p wk" "handler_of uh \<noteq> None" "p \<noteq> 0"
    by (auto simp: closure_ok_def)
  then show ?thesis
  proof cases
    case 1
    with app_callback_owned [OF u _ _ run] ov f nf vw l show ?thesis by simp
  next
    case (2 uh p)
    note cb = work_for_block [OF 2(1)]
    then have op: "owned (p # rs) (snd c # fs) v" using ov 2(3) by simp
    obtain d where d: "io_heap v p = Some d" using ownedD(4) [OF op] by auto
    obtain w1 where w1: "w1 = v\<lparr>io_heap := (io_heap v)(p \<mapsto> moved wk d), invoked := invoked v @ [call_of wk d]\<rparr>"
      and wf: "heap_wf w1"
      and e: "let w2 = snd (run_state (user (call_of wk d)) w1) in
        w' = w2\<lparr>io_heap := (io_heap w2)(p := None), fn_heap := (fn_heap w2)(snd c := None)\<rparr>"
      by (rule pool_callback_run [OF u(2) ownedD(1) [OF op] f 2(1) d run])
    have "block_ok v (moved wk d)"
      using owned_block_ok [OF op d] by (cases wk; simp add: block_ok_def acceptor_alive_def)
    moreover have "same_lists v w1" using wf w1 by (simp add: same_lists_def lpfns_loaded_def)
    ultimately have o1: "owned (p # rs) (snd c # fs) w1" "posted_blocks w1 = posted_blocks v"
      using owned_change [OF op, of w1 p "moved wk d"] d w1 by auto
    define w2 where "w2 = snd (run_state (user (call_of wk d)) w1)"
    define w3 where "w3 = w2\<lparr>io_heap := (io_heap w2)(p := None)\<rparr>"
    have "faults w2 = faults w1" and w'3: "w' = w3\<lparr>fn_heap := (fn_heap w3)(snd c := None)\<rparr>"
      using e nf vw w1 by (simp_all add: Let_def w2_def w3_def)
    from owned_handler_ends [OF u(1) o1(1) w2_def this(1) w3_def]
    have o3: "owned rs (snd c # fs) w3" "posted_blocks w3 = posted_blocks w1" "invoked w3 = invoked w1" by simp_all
    from owned_callback_ends [OF o3(1) w'3] o3 o1(2) w'3 w1 l cb 2 vw called_operation [OF 2(1,2)]
    show ?thesis by (simp add: calls_def)
  qed
qed

section \<open>Applications\<close>

text \<open>
  What the library asks of the handlers of an application: to leave the blocks and closures alone,
  and to make the calls of the library where they are allowed.  Everything else follows from the
  code of the library.
\<close>

locale application =
  fixes user :: "'o os \<Rightarrow> 'o user"
  assumes handlers: "win_contract os \<Longrightarrow> client (user os call)"
    and blocks_private: "keeps_blocks (user os)"
begin

lemma handlers_log: "win_contract os \<Longrightarrow> logs (user os call)"
  by (rule logs_client [OF handlers])

lemma completion_logged:
  assumes "win_contract os" and "p \<in> set (inflight w)" and "w' = complete os (user os) p res n w"
  shows "(\<exists>us. faults w' = faults w @ us) \<and> started w' + length (inflight w) = Suc (started w + length (inflight w'))"
proof -
  let ?v = "w\<lparr>inflight := remove1 p (inflight w)\<rparr>"
  have "logged ?v w'"
    using logs_routine [of "user os", OF handlers_log [OF assms(1)]] unfolding assms(3) complete_def logs_def by blast
  moreover have "length (inflight w) = Suc (length (remove1 p (inflight w)))"
    using assms(2) by (simp add: length_remove1) (metis One_nat_def Suc_pred length_pos_if_in_set)
  ultimately show ?thesis by (simp add: logged_def)
qed

lemma callback_logged:
  assumes "win_contract os" and "w' = run_callback (user os) c w"
  shows "logged w w'"
proof -
  have "logged (w\<lparr>posted := remove1 c (posted w)\<rparr>) w'"
    using logs_callback [of "user os", OF handlers_log [OF assms(1)]] unfolding assms(2) run_callback_def logs_def by blast
  then show ?thesis by (simp add: logged_def)
qed

lemma api_logged: "win_contract os \<Longrightarrow> logged w (snd (run_state (api_prog os a) w))"
  using api_logs unfolding logs_def by blast

lemma faults_grow:
  assumes c: "win_contract os" and r: "async_reachable os (user os) w0 k ls w"
  shows "\<exists>us. faults w = faults w0 @ us"
  using r
proof induction
  case start
  then show ?case by simp
next
  case (call k ls w a)
  then show ?case using api_logged [OF c, of w a] by (auto simp: logged_def)
next
  case (completion k ls w p io_result n)
  then show ?case using completion_logged [OF c completion.hyps(2) refl] by (metis append.assoc)
next
  case (callback k ls w cb)
  then show ?case using callback_logged [OF c refl, of w cb] by (auto simp: logged_def)
qed

text \<open>
  In every reachable state without a fault every block has one owner or was lost by a call, and every
  operation is accounted for.
\<close>

lemma reachable_owned:
  assumes c: "win_contract os" "acceptex_contract os" and r: "async_reachable os (user os) w0 k ls w"
    and o: "owned [] [] w0" "accounted 0 w0" and nf: "faults w = faults w0"
  shows "owned ls [] w \<and> accounted k w"
  using r nf
proof induction
  case start
  then show ?case using o by simp
next
  case (call k ls w a)
  obtain us where us: "faults w = faults w0 @ us" using faults_grow [OF c(1) call.hyps(1)] by blast
  note l = api_logged [OF c(1), of w a]
  have n: "faults w = faults w0" "faults (snd (run_state (api_prog os a) w)) = faults w"
    using us l call.prems by (auto simp: logged_def)
  then have ow: "owned ls [] w" "accounted k w" using call.IH by simp_all
  with api_owned [OF c(1) ow(1) refl n(2)] l show ?case
    by (simp add: accounted_def logged_def calls_def)
next
  case (completion k ls w p io_result n)
  obtain us where us: "faults w = faults w0 @ us" using faults_grow [OF c(1) completion.hyps(1)] by blast
  note l = completion_logged [OF c(1) completion.hyps(2) refl, of io_result n]
  have n: "faults w = faults w0" "faults (complete os (user os) p io_result n w) = faults w"
    using us l completion.prems by auto
  then have ow: "owned ls [] w" "accounted k w" using completion.IH by simp_all
  from complete_owned [of os "user os", OF c handlers [OF c(1)] blocks_private ow(1) completion.hyps(2) refl n(2)] l ow(2)
  show ?case by (auto simp: accounted_def)
next
  case (callback k ls w cb)
  obtain us where us: "faults w = faults w0 @ us" using faults_grow [OF c(1) callback.hyps(1)] by blast
  note l = callback_logged [OF c(1) refl, of w cb]
  have n: "faults w = faults w0" "faults (run_callback (user os) cb w) = faults w"
    using us l callback.prems by (auto simp: logged_def)
  then have ow: "owned ls [] w" "accounted k w" using callback.IH by simp_all
  from callback_owned [of "user os", OF handlers [OF c(1)] blocks_private ow(1) callback.hyps(2) refl n(2)] l ow(2)
  show ?case by (auto simp: accounted_def logged_def)
qed

end

subsection \<open>Programs that leave the blocks of others alone\<close>

text \<open>Nothing below the address \<open>a\<close> is changed or freed.\<close>

definition private_from :: "addr \<Rightarrow> ('o, 'a) prog \<Rightarrow> bool" where
  "private_from a m \<longleftrightarrow>
     (\<forall>w. heap_wf w \<longrightarrow> a \<le> next_addr w \<longrightarrow>
        (let w' = snd (run_state m w) in
         heap_wf w' \<and> next_addr w \<le> next_addr w' \<and> (\<forall>p < a. io_heap w' p = io_heap w p \<and> fn_heap w' p = fn_heap w p)))"

lemma private_keeps_blocks:
  assumes "\<And>a call. private_from a (user call)"
  shows "keeps_blocks user"
  using assms unfolding keeps_blocks_def private_from_def by blast

lemma private_inert:
  assumes "\<And>w. let w' = snd (run_state m w) in io_heap w' = io_heap w \<and> fn_heap w' = fn_heap w \<and> next_addr w' = next_addr w"
  shows "private_from a m"
  using assms by (simp add: private_from_def Let_def heap_wf_def)

lemma private_bind [private_rules]:
  assumes m: "private_from a (m :: ('o, 'a) prog)" and f: "\<And>x. private_from a (f x)"
  shows "private_from a (State_Monad.bind m f)"
  unfolding private_from_def
proof (intro allI impI)
  fix w :: "'o world"
  assume w: "heap_wf w" "a \<le> next_addr w"
  obtain x w1 where r1: "run_state m w = (x, w1)" by fastforce
  have p1: "heap_wf w1" "next_addr w \<le> next_addr w1" "\<forall>p < a. io_heap w1 p = io_heap w p \<and> fn_heap w1 p = fn_heap w p"
    using m w r1 unfolding private_from_def Let_def by (metis snd_conv)+
  have "a \<le> next_addr w1" using p1(2) w(2) by simp
  with f [of x] p1(1) have "let w2 = snd (run_state (f x) w1) in
      heap_wf w2 \<and> next_addr w1 \<le> next_addr w2 \<and> (\<forall>p < a. io_heap w2 p = io_heap w1 p \<and> fn_heap w2 p = fn_heap w1 p)"
    unfolding private_from_def by blast
  with p1 r1 show "let w' = snd (run_state (State_Monad.bind m f) w) in
      heap_wf w' \<and> next_addr w \<le> next_addr w' \<and> (\<forall>p < a. io_heap w' p = io_heap w p \<and> fn_heap w' p = fn_heap w p)"
    by (simp add: Let_def)
qed

text \<open>A new block is one's own.\<close>

lemma private_new_io:
  assumes f: "\<And>p. a \<le> p \<Longrightarrow> private_from a (f p :: ('o, 'a) prog)"
  shows "private_from a (State_Monad.bind (new_io d) f)"
  unfolding private_from_def
proof (intro allI impI)
  fix w :: "'o world"
  assume w: "heap_wf w" "a \<le> next_addr w"
  let ?w1 = "w\<lparr>io_heap := (io_heap w)(next_addr w \<mapsto> d), next_addr := next_addr w + 1\<rparr>"
  have "heap_wf ?w1" "a \<le> next_addr ?w1" using w by (auto simp: heap_wf_def)
  with f [OF w(2)] have "let w2 = snd (run_state (f (next_addr w)) ?w1) in
      heap_wf w2 \<and> next_addr ?w1 \<le> next_addr w2 \<and> (\<forall>p < a. io_heap w2 p = io_heap ?w1 p \<and> fn_heap w2 p = fn_heap ?w1 p)"
    unfolding private_from_def by blast
  with w(2) show "let w' = snd (run_state (State_Monad.bind (new_io d) f) w) in
      heap_wf w' \<and> next_addr w \<le> next_addr w' \<and> (\<forall>p < a. io_heap w' p = io_heap w p \<and> fn_heap w' p = fn_heap w p)"
    by (simp add: Let_def exec)
qed

lemma private_own: "a \<le> p \<Longrightarrow> private_from a (delete_io p)" "a \<le> p \<Longrightarrow> private_from a (upd_io p k)"
  by (auto simp: private_from_def exec heap_wf_def Let_def)

lemma private_basic [private_rules]:
  "private_from a (State_Monad.return x)" "private_from a (gets g)" "private_from a (raise_fault u)"
  "private_from a (lock_core c)" "private_from a (read_sock s)" "private_from a (read_core c)"
  "private_from a (upd_core c k)" "private_from a (lift_cpp d r)" "private_from a (upd_sock s j)"
  "private_from a (sys os call)" "private_from a (modify (\<lambda>w. w\<lparr>umem := h w\<rparr>))" "private_from a (read_io p)"
  by (rule private_inert; auto simp: exec Let_def split: cpp.splits)+

lemma private_if [private_rules]: "private_from a m \<Longrightarrow> private_from a m' \<Longrightarrow> private_from a (if b then m else m')"
  by simp

lemma private_when [private_rules]: "private_from a m \<Longrightarrow> private_from a (when b m)"
  by (simp add: when_def private_basic)

lemma private_prod [private_rules]: "(\<And>x y. private_from a (f x y)) \<Longrightarrow> private_from a (case z of (x, y) \<Rightarrow> f x y)"
  by (cases z) simp

lemma private_option [private_rules]:
  "private_from a m \<Longrightarrow> (\<And>x. private_from a (f x)) \<Longrightarrow> private_from a (case z of None \<Rightarrow> m | Some x \<Rightarrow> f x)"
  by (cases z) simp_all

lemma private_helpers [private_rules]:
  "private_from a (last_wsa_error os)" "private_from a (last_error os)" "private_from a (associate_handle os c h)"
  "private_from a (deref_sock s)" "private_from a (store_received b r)" "private_from a (load_fn l)"
  unfolding last_wsa_error_def last_error_def associate_handle_def deref_sock_def store_received_def load_fn_def
  by (intro private_rules)+

lemma private_names [private_rules]: "private_from a (get_sock_name os s e)" "private_from a (get_peer_name os s e)"
  unfolding get_sock_name_def get_peer_name_def name_query_def by (intro private_rules)+

lemma private_submit: "a \<le> p \<Longrightarrow> private_from a (submit_overlapped os h call p)"
  unfolding submit_overlapped_def by (intro private_rules private_own)

lemma private_start [private_rules]:
  "private_from a (start_recv b h os s)" "private_from a (start_recv_from b h os s)"
  "private_from a (start_send b h os s)" "private_from a (start_disconnect r h os s)"
  unfolding start_recv_def start_recv_from_def start_send_def start_disconnect_def Let_def
  by (rule private_new_io, intro private_rules private_submit; assumption)+

lemma faults_update_io: "faults (w\<lparr>io_heap := h\<rparr>) = faults w" "faults (w\<lparr>invoked := i\<rparr>) = faults w"
  by simp_all

context application
begin

text \<open>A completion or a callback faults only where the handler it calls does.\<close>

lemma step_faults:
  assumes c: "win_contract os" "acceptex_contract os" and r: "async_reachable os (user os) w0 k ls w"
    and o: "owned [] [] w0" "accounted 0 w0" and nf: "faults w = faults w0"
    and s: "p \<in> set (inflight w) \<and> w' = complete os (user os) p io_result n w \<or>
      cb \<in> set (posted w) \<and> w' = run_callback (user os) cb w"
  shows "faults w' = faults w \<or>
    (\<exists>call w1. faults w1 = faults w \<and> faults w' = faults (snd (run_state (user os call) w1)))"
  using s
proof (elim disjE conjE)
  have ow: "owned ls [] w" using reachable_owned [OF c r o nf] by blast
  assume p: "p \<in> set (inflight w)" and w': "w' = complete os (user os) p io_result n w"
  define v where "v = w\<lparr>inflight := remove1 p (inflight w)\<rparr>"
  obtain d s where d: "io_heap v p = Some d" and k: "completing v p s" by (rule owned_take_over [OF ow p v_def])
  have run: "run_state (socket_io_routine os (user os) p io_result n) v = ((), w')"
    using w' by (simp add: complete_def v_def prod_eq_iff)
  have "faults v = faults w" by (simp add: v_def)
  moreover have "dropped p v w' \<or> (\<exists>wk d'. handed_over p wk d' v w') \<or> (\<exists>wk d' tr. called_here (user os) p wk d' tr v w')"
    using routine_run [OF c blocks_private k d run] by (auto split: if_splits)
  ultimately show ?thesis
    by (elim disjE exE) (simp_all add: dropped_def handed_over_def called_here_def Let_def, metis faults_update_io)
next
  have ow: "owned ls [] w" using reachable_owned [OF c r o nf] by blast
  assume cb: "cb \<in> set (posted w)" and w': "w' = run_callback (user os) cb w"
  define v where "v = w\<lparr>posted := remove1 cb (posted w)\<rparr>"
  obtain wk where f: "fn_heap v (snd cb) = Some wk" and ok: "closure_ok wk"
    and ov: "owned (closure_block (Some wk) @ ls) (snd cb # []) v"
    by (rule owned_start_callback [OF ow cb v_def])
  have run: "run_state (pool_callback (user os) (snd cb)) v = ((), w')"
    using w' by (simp add: run_callback_def v_def prod_eq_iff)
  have fv: "faults v = faults w" by (simp add: v_def)
  from ok consider m where "wk = App_Work m" | uh q where "work_for uh q wk" "q \<noteq> 0" by (auto simp: closure_ok_def)
  then show ?thesis
  proof cases
    case (1 m)
    with f have "fn_heap v (snd cb) = Some (App_Work m)" by simp
    then show ?thesis
      by (rule app_callback_run [OF blocks_private ownedD(1) [OF ov] _ run])
        (use fv in \<open>simp, metis faults_update_io(2) snd_conv\<close>)
  next
    case (2 uh q)
    then obtain d where d: "io_heap v q = Some d" using ownedD(4) [OF ov] work_for_block [OF 2(1)] by auto
    obtain w1 where w1: "w1 = v\<lparr>io_heap := (io_heap v)(q \<mapsto> moved wk d), invoked := invoked v @ [call_of wk d]\<rparr>"
      and e: "let w2 = snd (run_state (user os (call_of wk d)) w1) in
        w' = w2\<lparr>io_heap := (io_heap w2)(q := None), fn_heap := (fn_heap w2)(snd cb := None)\<rparr>"
      by (rule pool_callback_run [OF blocks_private ownedD(1) [OF ov] f 2(1) d run])
    have "faults w1 = faults w" using w1 fv by simp
    moreover have "faults w' = faults (snd (run_state (user os (call_of wk d)) w1))" using e by (simp add: Let_def)
    ultimately show ?thesis by blast
  qed
qed

end

section \<open>Properties\<close>

text \<open>C2. Memory safety of the asynchronous operations.  The application makes any calls of the library in any
  order, the system completes the operations and runs the posted callbacks in any order, and the handlers
  start further operations.  In every state that is reached without a fault each block belongs to exactly
  one of an operation in flight and a posted closure, but for the blocks \<open>ls\<close>: those that calls of
  \<open>start_connect\<close> and \<open>start_send_to\<close> allocated before they gave up without making their overlapped
  call, which the code never frees.  Each closure belongs to one posted callback.  Every operation that the
  system has accepted is in flight, has a posted handler, has had its handler called exactly once, or has
  ended silently, which happens only to operations without a handler or whose core is gone.  Once nothing is in
  flight and nothing is posted, the blocks on the heap are the lost ones and no closure is left.  The handlers
  (\<open>application\<close>) leave the library's blocks alone and make calls that lose no block: that is the side
  condition on them.\<close>

theorem async_operations_owned:
  assumes "application user" and "win_contract os" and "acceptex_contract os"
    and "async_reachable os (user os) w0 k ls w" and "owned [] [] w0" and "accounted 0 w0" and "faults w = faults w0"
  shows "owned ls [] w \<and> accounted k w \<and>
    (inflight w = [] \<and> posted w = [] \<longrightarrow>
       dom (io_heap w) = set ls \<and> fn_heap w = Map.empty \<and> started w = calls w + k)"
  using application.reachable_owned [OF assms] by (auto simp: owned_def accounted_def posted_blocks_def)
    (metis dom_eq_empty_conv)

lemma idle_application: "application (\<lambda>os. idle_user)"
  by unfold_locales (simp_all add: idle_user_def client_basic)

text \<open>
  A receive is started, completes with five bytes, and its callback runs; then a connection is started on an
  object that was never opened, which loses its block.
\<close>

definition sample_w0 :: "unit world" where
  "sample_w0 = sample_world [sample_socket, WinSocket_default 0]"

definition sample_start :: "unit world" where
  "sample_start = snd (run_state (api_prog sample_os (Api_start_recv 0 \<lparr>sp_data = 0, sp_size = 8\<rparr> (Some 7))) sample_w0)"

definition sample_complete :: "unit world" where
  "sample_complete = complete sample_os idle_user 1 0 5 sample_start"

definition sample_received :: "unit world" where
  "sample_received = run_callback idle_user (User_Pool, 2) sample_complete"

definition sample_connect :: api where
  "sample_connect = Api_start_connect 1 (Ep_V4 (IPv4Address_loopback 80)) None"

definition sample_lost :: "unit world" where
  "sample_lost = snd (run_state (api_prog sample_os sample_connect) sample_received)"

lemma sample_owned: "owned [] [] sample_w0" "accounted 0 sample_w0"
  by (simp_all add: owned_def accounted_def sample_w0_def sample_world_def heap_wf_def lpfns_loaded_def posted_blocks_def
      started_def calls_def)

lemma sample_runs:
  "inflight sample_start = [1]" "\<not> silent sample_start 1" "posted sample_complete = [(User_Pool, 2)]"
  "faults sample_start = []" "faults sample_lost = []" "faults sample_w0 = []"
  "inflight sample_lost = []" "posted sample_lost = []" "lost_by sample_os sample_connect sample_received = [3]"
  by code_simp+

lemma sample_reached:
  "async_reachable sample_os idle_user sample_w0 0 [] sample_start"
  "async_reachable sample_os idle_user sample_w0 0 [3] sample_lost"
proof -
  have "lost_by sample_os (Api_start_recv 0 \<lparr>sp_data = 0, sp_size = 8\<rparr> (Some 7)) sample_w0 = []"
    by (simp add: lost_by_def)
  then show s: "async_reachable sample_os idle_user sample_w0 0 [] sample_start"
    using async_reachable.call [OF async_reachable.start] unfolding sample_start_def by (metis append_Nil)
  have "async_reachable sample_os idle_user sample_w0 (if silent sample_start 1 then Suc 0 else 0) [] sample_complete"
    unfolding sample_complete_def by (rule async_reachable.completion [OF s]) (simp add: sample_runs)
  then have "async_reachable sample_os idle_user sample_w0 0 [] sample_complete"
    by (simp only: sample_runs if_False)
  then have "async_reachable sample_os idle_user sample_w0 0 [] sample_received"
    unfolding sample_received_def by (rule async_reachable.callback) (simp add: sample_runs)
  from async_reachable.call [OF this, of sample_connect]
  show "async_reachable sample_os idle_user sample_w0 0 [3] sample_lost"
    by (simp add: sample_runs(9) flip: sample_lost_def)
qed

theorem async_operations_owned_witness:
  "owned [] [] sample_start \<and> accounted 0 sample_start \<and> inflight sample_start = [1] \<and>
   owned [3] [] sample_lost \<and> dom (io_heap sample_lost) = {3} \<and> fn_heap sample_lost = Map.empty \<and>
   started sample_lost = calls sample_lost + 0"
  using async_operations_owned [OF idle_application sample_win_contract sample_acceptex_contract sample_reached(1)
      sample_owned]
    async_operations_owned [OF idle_application sample_win_contract sample_acceptex_contract sample_reached(2)
      sample_owned] sample_runs(1,4-8) by simp

text \<open>C10. The library itself never faults in what it does on its own account: in a reachable state a
  completion or a callback adds a fault only where the handler of the application that it calls
  does; it never uses a block after it was freed or frees one twice.\<close>

theorem async_steps_never_fault:
  assumes "application user" and "win_contract os" and "acceptex_contract os"
    and "async_reachable os (user os) w0 k ls w" and "owned [] [] w0" and "accounted 0 w0" and "faults w = faults w0"
    and "p \<in> set (inflight w) \<and> w' = complete os (user os) p io_result n w \<or>
      cb \<in> set (posted w) \<and> w' = run_callback (user os) cb w"
  shows "faults w' = faults w \<or>
    (\<exists>call w1. faults w1 = faults w \<and> faults w' = faults (snd (run_state (user os call) w1)))"
  using application.step_faults [OF assms] .

theorem async_steps_never_fault_witness:
  "faults (complete sample_os idle_user 1 0 5 sample_start) = []"
proof -
  have s: "1 \<in> set (inflight sample_start) \<and> sample_complete = complete sample_os idle_user 1 0 5 sample_start \<or>
      (User_Pool, 0) \<in> set (posted sample_start) \<and> sample_complete = run_callback idle_user (User_Pool, 0) sample_start"
    by (simp add: sample_runs sample_complete_def)
  have "faults sample_start = faults sample_w0" by (simp only: sample_runs)
  from async_steps_never_fault [OF idle_application sample_win_contract sample_acceptex_contract sample_reached(1)
      sample_owned this s]
  show ?thesis by (simp add: sample_runs sample_complete_def idle_user_def) (metis sample_runs(4))
qed

end
