(* ===== verification/Win_Lifetime.thy ===== *)
theory Win_Lifetime
  imports Async_System
begin

text \<open>
  When a \<open>WinSocket\<close> object is destroyed.  The application holds sockets by \<open>shared_ptr\<close>, and every
  \<open>IOData\<close> block holds two: \<open>socket_\<close>, filled from \<open>shared_from_this()\<close> by the operation that
  allocates the block, and \<open>accept_socket_\<close>.  A completion that ends silently deletes its block in
  \<open>socket_io_routine\<close>; if the block held the last pointer, the destructor runs there, inside the
  callback of the very thread pool object that it waits for.  The set \<open>H\<close> stands for the sockets the
  application holds.  The counting of \<open>std::shared_ptr\<close> is the standard library's: an object goes with the
  last pointer to it, which here means that neither the application nor a block on the heap has one.
\<close>

section \<open>References\<close>

text \<open>The members of a block that are shared pointers, in the order in which they are destroyed.\<close>

definition pointers :: "IOData \<Rightarrow> sock_id list" where
  "pointers d = (case iod_accept_socket d of Some a \<Rightarrow> [a] | None \<Rightarrow> []) @
     (case iod_socket d of Some s \<Rightarrow> [s] | None \<Rightarrow> [])"

definition referenced :: "'o world \<Rightarrow> sock_id \<Rightarrow> bool" where
  "referenced w s \<longleftrightarrow> (\<exists>p < next_addr w. case io_heap w p of Some d \<Rightarrow> s \<in> set (pointers d) | None \<Rightarrow> False)"

text \<open>
  Shared pointers are destroyed one after another; the one that was the last to refer to its
  object destroys it.
\<close>

fun drop_refs :: "'o os \<Rightarrow> sock_id set \<Rightarrow> sock_id list \<Rightarrow> ('o, unit) prog" where
  "drop_refs os H [] = State_Monad.return ()"
| "drop_refs os H (s # ss) = do {
     last \<leftarrow> gets (\<lambda>w. sockets w s \<noteq> None \<and> s \<notin> H \<and> s \<notin> set ss \<and> \<not> referenced w s);
     when last (win_socket_destroy os s);
     drop_refs os H ss }"

text \<open>
  A completion with the destruction of the block that it deletes.  The \<open>delete\<close> is its last statement, so
  the pointers go after everything else.
\<close>

definition complete_rc :: "'o os \<Rightarrow> 'o user \<Rightarrow> sock_id set \<Rightarrow> addr \<Rightarrow> int \<Rightarrow> int \<Rightarrow> 'o world \<Rightarrow> 'o world" where
  "complete_rc os user H p io_result n w =
     (let w' = complete os user p io_result n w
      in if io_heap w' p = None then snd (run_state (drop_refs os H (pointers (io w p))) w') else w')"

text \<open>The objects that exist are those that something refers to.\<close>

definition alive :: "sock_id set \<Rightarrow> 'o world \<Rightarrow> bool" where
  "alive H w \<longleftrightarrow> owned [] [] w \<and> (\<forall>s. sockets w s \<noteq> None \<longleftrightarrow> s \<in> H \<or> referenced w s)"

section \<open>Destruction\<close>

lemma destroy_run:
  assumes "sockets w s = Some x" and "run_state (win_socket_destroy os s) w = ((), w')"
  shows "sockets w' = (sockets w)(s := None)" "faults w' = faults w" "mem_frame w w'"
    "os_trace w' = os_trace w @ new_trace w w'" "io_closed (new_trace w w') = io_held x"
    "ws_io_handle x \<noteq> nullptr \<Longrightarrow> \<exists>r. (Io (WaitForThreadpoolIoCallbacks (ws_io_handle x) False), r) \<in> set (new_trace w w')"
  using assms
  by (auto simp: win_socket_destroy_def exec sock_Some mem_frame_def new_trace_def io_held_def split: if_splits)

lemma referencedE:
  assumes "referenced w s"
  obtains p d where "io_heap w p = Some d" and "s \<in> set (pointers d)"
  using assms by (auto simp: referenced_def split: option.splits)

lemma referenced_cong: "io_heap w' = io_heap w \<Longrightarrow> next_addr w' = next_addr w \<Longrightarrow> referenced w' s = referenced w s"
  by (simp add: referenced_def)

section \<open>The last reference\<close>

lemma drop_refs_last:
  assumes "sockets w s = Some x" and "s \<notin> H" and "\<not> referenced w s" and "ws_io_handle x \<noteq> nullptr"
    and "run_state (drop_refs os H (xs @ [s])) w = ((), w')"
  shows "sockets w' s = None \<and> os_trace w' = os_trace w @ new_trace w w' \<and>
    (\<exists>r. (Io (WaitForThreadpoolIoCallbacks (ws_io_handle x) False), r) \<in> set (new_trace w w'))"
  using assms
proof (induction xs arbitrary: w)
  case Nil
  then have "run_state (win_socket_destroy os s) w = ((), w')" by (simp add: exec split: prod.splits)
  note d = destroy_run [OF Nil(1) this]
  then show ?case using d(6) [OF Nil(4)] by simp
next
  case (Cons a xs)
  show ?case
  proof (cases "sockets w a \<noteq> None \<and> a \<notin> H \<and> a \<notin> set (xs @ [s]) \<and> \<not> referenced w a")
    case True
    then obtain y where y: "sockets w a = Some y" by auto
    obtain w1 where r1: "run_state (win_socket_destroy os a) w = ((), w1)" by (rule unit_run)
    note d = destroy_run [OF y r1]
    have "referenced w1 s = referenced w s" using d(3) by (intro referenced_cong) (simp_all add: mem_frame_def)
    moreover have "sockets w1 s = Some x" using d(1) Cons.prems(1) True by simp
    moreover have "run_state (drop_refs os H (xs @ [s])) w1 = ((), w')" using Cons.prems(5) True r1 by (simp add: exec)
    ultimately have i: "sockets w' s = None \<and> os_trace w' = os_trace w1 @ new_trace w1 w' \<and>
        (\<exists>r. (Io (WaitForThreadpoolIoCallbacks (ws_io_handle x) False), r) \<in> set (new_trace w1 w'))"
      using Cons.IH [of w1] Cons.prems(2-4) by simp
    then have "new_trace w w' = new_trace w w1 @ new_trace w1 w'" using d(4) by (intro new_trace_trans) simp_all
    then show ?thesis using i d(4) by auto
  next
    case False
    then have "run_state (drop_refs os H (xs @ [s])) w = ((), w')" using Cons.prems(5) by (auto simp: exec)
    then show ?thesis using Cons.IH [of w] Cons.prems(1-4) by simp
  qed
qed

text \<open>On a system that accepts all work the block of a completed operation is deleted there only if it ends silently.\<close>

lemma quiet_completion_block:
  assumes c: "win_contract (os :: 'o os)" "acceptex_contract os" and a: "accepting os" and o: "owned [] [] w"
    and p: "p \<in> set (inflight w)" and w': "w' = complete os user p res n w"
  shows "if silent w p then io_heap w' = (io_heap w)(p := None) \<and> next_addr w' = next_addr w else io_heap w' p \<noteq> None"
proof -
  define failing :: "'o user" where "failing = (\<lambda>_. raise_fault Null_Deref)"
  have u: "keeps_blocks failing" by (simp add: failing_def keeps_blocks_def exec heap_wf_def)
  define v where "v = w\<lparr>inflight := remove1 p (inflight w)\<rparr>"
  obtain d s where d: "io_heap v p = Some d" and k: "completing v p s"
    and sl: "silent w p \<longleftrightarrow> handler_of (iod_user_handler d) = None \<or> cores v (ws_io_core (sock v s)) = None"
    by (rule owned_take_over [OF o p v_def])
  have run: "run_state (socket_io_routine os user p res n) v = ((), w')" for user
    using w' routine_accepting [OF a] by (simp add: complete_def v_def prod_eq_iff) metis
  show ?thesis
  proof (cases "silent w p")
    case True
    then have "dropped p v w'" using routine_run [OF c u k d run] sl by simp
    then show ?thesis using True by (simp add: dropped_def v_def)
  next
    case False
    then obtain wk d' where "handed_over p wk d' v w' \<or> (\<exists>tr. called_here failing p wk d' tr v w')"
      using routine_run [OF c u k d run] sl by (metis (no_types, lifting))
    moreover have "\<not> called_here failing p wk d' tr v w'" for tr
      using quiet_completion [OF c a o p w'] by (auto simp: called_here_def failing_def v_def exec)
    ultimately show ?thesis using False by (simp add: handed_over_def)
  qed
qed

section \<open>Properties\<close>

text \<open>C16. A completion must not be the last to refer to its socket.  When the application has dropped a
  socket and an operation without a handler is its last reference, the block is deleted in
  \<open>socket_io_routine\<close>, so the destructor of the socket runs in the callback of its own thread pool
  object and calls \<open>WaitForThreadpoolIoCallbacks\<close> on it: it waits for itself.  When a handler is
  posted, on a system that accepts the work, the socket lives on until the handler has run, outside
  that callback.\<close>

theorem silent_completion_waits_for_itself:
  assumes "win_contract os" and "acceptex_contract os" and "accepting os" and "alive H w"
    and "p \<in> set (inflight w)" and "io_heap w p = Some d" and "iod_socket d = Some s" and "s \<notin> H"
    and "\<forall>q e. io_heap w q = Some e \<longrightarrow> s \<in> set (pointers e) \<longrightarrow> q = p"
    and "ws_io_handle (sock w s) \<noteq> nullptr" and "w1 = complete os user p io_result n w"
    and "w' = complete_rc os user H p io_result n w"
  shows "if silent w p then sockets w' s = None \<and>
      (\<exists>r. (Io (WaitForThreadpoolIoCallbacks (ws_io_handle (sock w s)) False), r) \<in> set (new_trace w1 w'))
    else sockets w' s = sockets w s"
proof -
  have ow: "owned [] [] w" using assms(4) by (simp add: alive_def)
  note q = quiet_completion [OF assms(1-3) ow assms(5,11)]
  note b = quiet_completion_block [OF assms(1-3) ow assms(5,11)]
  have io: "io w p = d" using assms(6) by (simp add: io_Some)
  show ?thesis
  proof (cases "silent w p")
    case False
    then show ?thesis using b q assms(12) unfolding complete_rc_def assms(11) [symmetric] by (auto simp: Let_def)
  next
    case True
    obtain x where x: "sockets w s = Some x" using owned_block_ok [OF ow assms(6)] assms(7) by (auto simp: block_ok_def)
    have "\<not> referenced w1 s" using b True assms(9) by (auto elim!: referencedE split: if_splits)
    moreover obtain xs where xs: "pointers d = xs @ [s]" using assms(7) by (simp add: pointers_def)
    moreover have "run_state (drop_refs os H (pointers d)) w1 = ((), w')"
      using b True assms(12) io unfolding complete_rc_def assms(11) [symmetric] by (simp add: Let_def prod_eq_iff)
    ultimately show ?thesis
      using drop_refs_last [of w1 s x H os xs w'] True q x assms(8,10) by (simp add: sock_Some)
  qed
qed

text \<open>The same receive without a handler.\<close>

definition sample_silent :: "unit world" where
  "sample_silent = (sample_completion (ReadHandler None))\<lparr>inflight := [1]\<rparr>"

lemma sample_accepting: "accepting sample_os"
  by (simp add: accepting_def sample_os_def)

theorem silent_completion_waits_for_itself_witness:
  "sockets (complete_rc sample_os idle_user {} 1 0 5 sample_silent) 0 = None"
proof -
  have h: "io_heap sample_silent 1 = Some (sample_block (ReadHandler None))" "inflight sample_silent = [1]"
    "ws_io_handle (sock sample_silent 0) \<noteq> nullptr" "silent sample_silent 1"
    by (simp_all add: sample_silent_def sample_completion_def sample_world_def sock_def sample_socket_def silent_def io_def)
  have b: "pointers (sample_block (ReadHandler None)) = [0]"
    by (simp add: pointers_def sample_block_def IOData_default_def)
  have o: "owned [] [] sample_silent"
    by (simp add: owned_def sample_silent_def sample_completion_def sample_world_def heap_wf_def lpfns_loaded_def posted_blocks_def
        block_ok_def acceptor_alive_def sample_block_def IOData_default_def)
  have e: "\<forall>q e. io_heap sample_silent q = Some e \<longrightarrow> 0 \<in> set (pointers e) \<longrightarrow> q = 1"
    by (simp add: sample_silent_def sample_completion_def)
  have "alive {} sample_silent"
    using o b by (auto simp: alive_def referenced_def sample_silent_def sample_completion_def sample_world_def split: option.splits)
  from silent_completion_waits_for_itself [OF sample_win_contract sample_acceptex_contract sample_accepting this _ h(1) _ _ e h(3)
      refl refl, of idle_user 0 5] h(2,4)
  show ?thesis by (simp add: sample_block_def)
qed

end
