(* ===== verification/Win_Buffers.thy ===== *)
theory Win_Buffers
  imports Async_System
begin

named_theorems sized_rules \<open>programs whose lengths fit\<close>

text \<open>
  The lengths the library passes to the system.  Every call that is given an address is told how long it is,
  every call that stores an address how much room there is for it, and every transfer how many bytes the
  buffer has.  Those arguments are \<open>sizeof\<close> expressions, the constant \<open>ACCEPTEX_BUF_LEN\<close> and sizes of
  spans that are narrowed to 32 bits.  In every state that calls, completions and callbacks reach, each of
  them fits the buffer it describes, so that the system never reads or writes beyond a buffer
  that it was given.
\<close>

section \<open>Lengths\<close>

definition full_sockaddr :: "SOCKADDR_STORAGE \<Rightarrow> bool" where
  "full_sockaddr sa \<longleftrightarrow> length sa = sockaddr_size"

text \<open>What a block has room for.\<close>

definition block_rooms :: "IOData \<Rightarrow> bool" where
  "block_rooms d \<longleftrightarrow> length (iod_accept_address_buffer d) = ACCEPTEX_BUF_LEN \<and>
     full_sockaddr (iod_local_win_addr d) \<and> full_sockaddr (iod_peer_win_addr d)"

text \<open>
  The two parts of the buffer of \<open>AcceptEx\<close>: each has the 16 bytes more than an address that the system asks
  for, together they fit the buffer, and \<open>GetAcceptExSockaddrs\<close> is told the same lengths.
\<close>

definition accept_parts :: "int \<Rightarrow> int \<Rightarrow> bool" where
  "accept_parts n m \<longleftrightarrow> n = acceptex_addr_len \<and> m = acceptex_addr_len \<and> sizeof_sockaddr + 16 \<le> n \<and>
     n + m \<le> int ACCEPTEX_BUF_LEN"

text \<open>The lengths of a call and the buffers they are about.\<close>

fun fits :: "syscall \<Rightarrow> bool" where
  "fits (Ws (Ws_bind h sa l)) \<longleftrightarrow> l = int (length sa)"
| "fits (Ws (Ws_accept h l)) \<longleftrightarrow> l = sizeof_sockaddr"
| "fits (Ws (Ws_connect h sa l)) \<longleftrightarrow> l = int (length sa)"
| "fits (Ws (Ws_recvfrom h n l)) \<longleftrightarrow> l = sizeof_sockaddr"
| "fits (Ws (Ws_send h bs n)) \<longleftrightarrow> n \<le> int (length bs)"
| "fits (Ws (Ws_sendto h bs n sa l)) \<longleftrightarrow> n \<le> int (length bs) \<and> l = int (length sa)"
| "fits (Ws (Getsockname h l)) \<longleftrightarrow> l = sizeof_sockaddr"
| "fits (Ws (Getpeername h l)) \<longleftrightarrow> l = sizeof_sockaddr"
| "fits (Ov (AcceptEx f h a n m) p) \<longleftrightarrow> accept_parts n m"
| "fits (Ov (ConnectEx f h sa l) p) \<longleftrightarrow> l = int (length sa)"
| "fits (Ov (WSARecv h b n) p) \<longleftrightarrow> unat n \<le> sp_size b"
| "fits (Ov (WSARecvFrom h b n l) p) \<longleftrightarrow> unat n \<le> sp_size b \<and> l = sizeof_sockaddr"
| "fits (Ov (WSASend h b n) p) \<longleftrightarrow> unat n \<le> sp_size b"
| "fits (Ov (WSASendTo h b n sa l) p) \<longleftrightarrow> unat n \<le> sp_size b \<and> l = int (length sa)"
| "fits (GetAcceptExSockaddrs f p n m) \<longleftrightarrow> accept_parts n m"
| "fits _ \<longleftrightarrow> True"

definition sized :: "'o world \<Rightarrow> bool" where
  "sized w \<longleftrightarrow> (\<forall>p d. io_heap w p = Some d \<longrightarrow> block_rooms d) \<and> (\<forall>c \<in> set (os_trace w). fits (fst c))"

text \<open>The endpoints an application passes are objects of the C++ type, with 4 or 16 bytes of address.\<close>

fun sized_api :: "api \<Rightarrow> bool" where
  "sized_api (Api_bind s e) \<longleftrightarrow> wf_endpoint e"
| "sized_api (Api_connect s e) \<longleftrightarrow> wf_endpoint e"
| "sized_api (Api_send_to s b e) \<longleftrightarrow> wf_endpoint e"
| "sized_api (Api_start_connect s e h) \<longleftrightarrow> wf_endpoint e"
| "sized_api (Api_start_send_to s b e h) \<longleftrightarrow> wf_endpoint e"
| "sized_api _ \<longleftrightarrow> True"

text \<open>Calls with such endpoints, completions and callbacks, in any order and with any result.\<close>

inductive sized_reachable :: "'o os \<Rightarrow> 'o user \<Rightarrow> 'o world \<Rightarrow> 'o world \<Rightarrow> bool" for os user w0 where
  sized_start: "sized_reachable os user w0 w0"
| sized_calls: "sized_reachable os user w0 w \<Longrightarrow> sized_api a \<Longrightarrow>
    sized_reachable os user w0 (snd (run_state (api_prog os a) w))"
| sized_completes: "sized_reachable os user w0 w \<Longrightarrow> sized_reachable os user w0 (complete os user p io_result n w)"
| sized_callback: "sized_reachable os user w0 w \<Longrightarrow> sized_reachable os user w0 (run_callback user c w)"

section \<open>Programs that keep the lengths\<close>

definition lengths_kept :: "('o, 'a) prog \<Rightarrow> bool" where
  "lengths_kept m \<longleftrightarrow> (\<forall>w. sized w \<longrightarrow> sized (snd (run_state m w)))"

lemma sized_queues [simp]: "sized (w\<lparr>inflight := x\<rparr>) = sized w" "sized (w\<lparr>posted := y\<rparr>) = sized w"
  by (simp_all add: sized_def)

lemma lengths_keptD: "lengths_kept m \<Longrightarrow> sized w \<Longrightarrow> sized (snd (run_state m w))"
  by (simp add: lengths_kept_def)

lemma sized_bind [sized_rules]:
  assumes "lengths_kept m" and "\<And>x. lengths_kept (f x)"
  shows "lengths_kept (State_Monad.bind m f)"
  using assms by (simp add: lengths_kept_def split_beta)

lemma sized_basic [sized_rules]:
  "lengths_kept (State_Monad.return x)" "lengths_kept (gets g)" "lengths_kept (raise_fault u)" "lengths_kept (lock_core c)"
  "lengths_kept (read_sock s)" "lengths_kept (upd_sock s k)" "lengths_kept (read_io p)" "lengths_kept (delete_io p)"
  "lengths_kept (read_core c)" "lengths_kept (upd_core c j)"
  "lengths_kept (read_fn p)" "lengths_kept (delete_fn p)" "lengths_kept (modify (\<lambda>w. w\<lparr>umem := h w\<rparr>))"
  by (auto simp: lengths_kept_def sized_def exec)

lemma sized_lift [sized_rules]: "lengths_kept (lift_cpp d r)"
  by (auto simp: lengths_kept_def sized_def exec split: cpp.splits)

lemma sized_sys [sized_rules]: "fits c \<Longrightarrow> lengths_kept (sys os c)"
  by (auto simp: lengths_kept_def sized_def after_def)

lemma sized_new [sized_rules]:
  "block_rooms d \<Longrightarrow> lengths_kept (new_io d)" "lengths_kept (new_fn wk)"
  by (auto simp: lengths_kept_def sized_def)

lemma sized_upd_io [sized_rules]: "(\<And>d. block_rooms d \<Longrightarrow> block_rooms (f d)) \<Longrightarrow> lengths_kept (upd_io p f)"
  by (auto simp: lengths_kept_def sized_def exec io_def)

lemma sized_if [sized_rules]: "lengths_kept m \<Longrightarrow> lengths_kept m' \<Longrightarrow> lengths_kept (if b then m else m')"
  by simp

lemma sized_when [sized_rules]: "lengths_kept m \<Longrightarrow> lengths_kept (when b m)"
  by (simp add: when_def sized_basic)

lemma sized_option [sized_rules]:
  "lengths_kept m \<Longrightarrow> (\<And>x. lengths_kept (f x)) \<Longrightarrow> lengths_kept (case z of None \<Rightarrow> m | Some x \<Rightarrow> f x)"
  by (cases z) simp_all

lemma sized_prod [sized_rules]: "(\<And>x y. lengths_kept (f x y)) \<Longrightarrow> lengths_kept (case z of (x, y) \<Rightarrow> f x y)"
  by (cases z) simp

text \<open>What is known of a value that was read or encoded.\<close>

lemma sized_default: "block_rooms IOData_default"
  by (simp add: block_rooms_def full_sockaddr_def IOData_default_def zero_storage_def)

lemma sized_new_block [sized_rules]:
  "block_rooms (IOData_default\<lparr>iod_socket := s, iod_user_handler := uh\<rparr>)"
  "block_rooms (IOData_default\<lparr>iod_socket := s, iod_accept_socket := a, iod_user_handler := uh\<rparr>)"
  "block_rooms (IOData_default\<lparr>iod_socket := s, iod_user_handler := uh, iod_user_buffer := b\<rparr>)"
  using sized_default by (simp_all add: block_rooms_def)

lemma sized_value:
  assumes "lengths_kept m" and "\<And>w. sized w \<Longrightarrow> Q (fst (run_state m w))" and "\<And>x. Q x \<Longrightarrow> lengths_kept (f x)"
  shows "lengths_kept (State_Monad.bind m f)"
  using assms by (simp add: lengths_kept_def split_beta)

lemma sized_read_io: "(\<And>d. block_rooms d \<Longrightarrow> lengths_kept (f d)) \<Longrightarrow> lengths_kept (State_Monad.bind (read_io p) f)"
  by (rule sized_value [where Q = block_rooms])
    (auto simp: sized_basic sized_def run_read_io io_def sized_default split: option.splits)

lemma encode_sized: "wf_endpoint e \<Longrightarrow> endpoint_to_sockaddr fam e = Ret (err, sa) \<Longrightarrow> full_sockaddr sa"
  using encode_length [of e fam sa]
  by (cases "err = Success") (auto simp: endpoint_to_sockaddr_def full_sockaddr_def sockaddr_size_def Let_def bind_cpp_Ret_iff
      split: if_splits)

lemma sized_encode:
  assumes e: "wf_endpoint e" and f: "\<And>err sa. full_sockaddr sa \<Longrightarrow> lengths_kept (f err sa)"
  shows "lengths_kept (State_Monad.bind (lift_cpp (SystemError, zero_storage) (endpoint_to_sockaddr fam e)) (\<lambda>(err, sa). f err sa))"
proof (rule sized_value [where Q = "\<lambda>r. full_sockaddr (snd r)"])
  show "full_sockaddr (snd (fst (run_state (lift_cpp (SystemError, zero_storage) (endpoint_to_sockaddr fam e)) w)))"
    for w :: "'a world"
    using encode_sized [OF e]
    by (auto simp: full_sockaddr_def sockaddr_size_def split: cpp.splits)
  show "lengths_kept (case r of (err, sa) \<Rightarrow> f err sa)" if "full_sockaddr (snd r)" for r
    using f [of "snd r" "fst r"] that by (simp add: split_beta)
qed (rule sized_lift)

lemma accept_parts_fit [simp]: "accept_parts acceptex_addr_len acceptex_addr_len"
  by (simp add: accept_parts_def acceptex_addr_len_def sizeof_sockaddr_def sockaddr_size_def ACCEPTEX_BUF_LEN_def)

lemma full_sockaddr_len: "full_sockaddr sa \<Longrightarrow> int (length sa) = sizeof_sockaddr"
  by (simp add: full_sockaddr_def sizeof_sockaddr_def)

text \<open>A size that is narrowed never grows.\<close>

lemma narrowed_size [simp]: "unat (of_nat n :: u32) \<le> n"
  by (simp add: unat_of_nat)

lemma span_len_le: "span_len b \<le> int (sp_size b)"
  by (simp add: span_len_def to_int32_le)

lemma sized_bytes:
  assumes "\<And>bs. span_len b \<le> int (length bs) \<Longrightarrow> lengths_kept (f bs)"
  shows "lengths_kept (State_Monad.bind (gets (\<lambda>w. load_span w b)) f)"
  by (rule sized_value [where Q = "\<lambda>bs. length bs = sp_size b"])
    (use assms span_len_le [of b] in \<open>simp_all add: sized_basic load_span_def exec\<close>)

section \<open>The operations\<close>

lemma sized_helpers [sized_rules]:
  "lengths_kept (last_wsa_error os)" "lengths_kept (last_error os)" "lengths_kept (associate_handle os c h)"
  "lengths_kept (deref_sock s)" "lengths_kept (store_received b r)" "lengths_kept (load_fn l)"
  unfolding last_wsa_error_def last_error_def associate_handle_def deref_sock_def store_received_def load_fn_def
  by (intro sized_rules; simp)+

lemma sized_handle [sized_rules]:
  "lengths_kept (socket os s f t p)" "lengths_kept (close os s)" "lengths_kept (listen os s n)" "lengths_kept (shutdown os s h)"
  "lengths_kept (accept os s a)"
  unfolding socket_def close_def listen_def shutdown_def accept_def Let_def by (intro sized_rules; simp)+

lemma sized_data [sized_rules]:
  "lengths_kept (recv os s b)" "lengths_kept (recv_from os s b e)"
  "lengths_kept (get_sock_name os s e)" "lengths_kept (get_peer_name os s e)"
  unfolding recv_def recv_from_def get_sock_name_def get_peer_name_def name_query_def Let_def
  by (intro sized_rules; simp)+

lemma sized_send [sized_rules]: "lengths_kept (send os s b)"
  unfolding send_def by (rule sized_bytes | rule sized_rules | (simp; fail))+

lemma sized_addressed:
  assumes "wf_endpoint e"
  shows "lengths_kept (bind_ep os s e)" "lengths_kept (connect os s e)" "lengths_kept (send_to os s b e)"
  unfolding bind_ep_def connect_def send_to_def
  by (rule assms | rule sized_encode | rule sized_bytes | rule sized_rules | (simp add: full_sockaddr_len; fail))+

lemma sized_submit [sized_rules]: "fits (Ov call p) \<Longrightarrow> lengths_kept (submit_overlapped os h call p)"
  unfolding submit_overlapped_def by (intro sized_rules; simp)

lemma sized_start_plain [sized_rules]:
  "lengths_kept (start_accept a h os s)" "lengths_kept (start_recv b h os s)" "lengths_kept (start_recv_from b h os s)"
  "lengths_kept (start_send b h os s)" "lengths_kept (start_disconnect r h os s)"
  unfolding start_accept_def start_recv_def start_recv_from_def start_send_def start_disconnect_def Let_def
  by (intro sized_rules; simp)+

lemma sized_any [simp]: "wf_endpoint (Ep_V4 (IPv4Address_any n))" "wf_endpoint (Ep_V6 (IPv6Address_any n))"
  by (simp_all add: wf_v4_def wf_v6_def IPv4Address_any_def IPv6Address_any_def)

lemma sized_start_addressed:
  assumes "wf_endpoint e"
  shows "lengths_kept (start_connect e h os s)" "lengths_kept (start_send_to b e h os s)"
  unfolding start_connect_def start_send_to_def
  by (rule assms | rule sized_encode | rule sized_read_io | rule sized_addressed | rule sized_rules
     | (simp add: block_rooms_def full_sockaddr_len; fail))+

lemma sized_post [sized_rules]: "lengths_kept (post_user_work os c wk)"
  unfolding post_user_work_def by (intro sized_rules; simp)

lemma sized_api_kept: "sized_api a \<Longrightarrow> lengths_kept (api_prog os a)"
  by (cases a; simp only: api_prog.simps ignore_def sized_api.simps)
    (rule sized_rules sized_addressed sized_start_addressed | assumption)+

section \<open>Completion\<close>

lemma sized_store [simp]: "full_sockaddr sa \<Longrightarrow> full_sockaddr (store_sockaddr bs sa)"
  by (simp add: full_sockaddr_def store_sockaddr_def)

lemma sized_note [sized_rules]: "lengths_kept (note_error p err)"
  unfolding note_error_def by (intro sized_rules) (simp add: block_rooms_def)

lemma sized_context [sized_rules]:
  "lengths_kept (update_accept_socket_context os l a)" "lengths_kept (update_connect_socket_context os c)"
  "lengths_kept (get_acceptex_sockaddrs os p)"
  unfolding update_accept_socket_context_def update_connect_socket_context_def get_acceptex_sockaddrs_def
  by (intro sized_rules; simp add: block_rooms_def)+

text \<open>
  What the lengths need of an application: that its handlers keep them.  Then the routine and the callbacks do.
\<close>

locale sized_application =
  fixes user :: "'o os \<Rightarrow> 'o user"
  assumes handler_sized: "lengths_kept (user os c)"
begin

lemma invoke_sized: "lengths_kept (invoke (user os) h call)"
  unfolding invoke_def Let_def
  by (rule sized_bind; (rule handler_sized)?) (auto simp: lengths_kept_def sized_def split: option.splits)

lemma call_sized: "lengths_kept (call_handler (user os) wk)"
  by (cases wk; simp only: call_handler.simps)
    (rule sized_rules invoke_sized | (simp add: block_rooms_def; fail))+

lemma deliver_sized: "lengths_kept (deliver os (user os) c p wk)"
  unfolding deliver_def by (intro sized_rules call_sized)

lemma visit_sized: "lengths_kept (visit os (user os) p c uh)"
  by (cases uh; simp only: visit.simps visit_accept_def visit_connect_def visit_read_def visit_write_def visit_disconnect_def
      Let_def)
    (intro sized_rules deliver_sized)+

lemma routine_sized: "lengths_kept (socket_io_routine os (user os) p io_result n)"
  unfolding socket_io_routine_def Let_def
  by (intro sized_rules visit_sized) (simp_all add: block_rooms_def)

lemma callback_sized: "lengths_kept (pool_callback (user os) f)"
  unfolding pool_callback_def run_work_def by (intro sized_rules call_sized)

lemma reachable_sized:
  assumes "sized_reachable os (user os) w0 w" and "sized w0"
  shows "sized w"
  using assms
proof (induction rule: sized_reachable.induct)
  case (sized_calls w a)
  then show ?case using lengths_keptD [OF sized_api_kept] by blast
next
  case (sized_completes w p io_result n)
  then show ?case unfolding complete_def by (intro lengths_keptD [OF routine_sized]) simp
next
  case (sized_callback w c)
  then show ?case unfolding run_callback_def by (intro lengths_keptD [OF callback_sized]) simp
qed simp

end
section \<open>Properties\<close>


text \<open>A listening socket, an accept on it, and a send of eight bytes on another.\<close>

definition sample_accepting_world :: "unit world" where
  "sample_accepting_world = snd (run_state (api_prog sample_os (Api_start_send 1 \<lparr>sp_data = 0, sp_size = 8\<rparr> None))
     (snd (run_state (api_prog sample_os (Api_start_accept 0 (Some 1) (Some 7))) (sample_world [sample_socket, sample_socket]))))"

lemma sample_sized: "sized (sample_world [sample_socket, sample_socket])"
  by (simp add: sized_def sample_world_def)

lemma sample_sized_reached: "sized_reachable sample_os idle_user (sample_world [sample_socket, sample_socket]) sample_accepting_world"
  unfolding sample_accepting_world_def by (intro sized_calls sized_start) simp_all

lemma idle_sized: "lengths_kept (idle_user c)"
  by (simp add: idle_user_def sized_basic)


end
