(* ===== verification/Echo_Common.thy ===== *)
theory Echo_Common
  imports Win_Lifetime Win_Buffers
begin

text \<open>
  What the two example programs share: \<open>stop\<close> and \<open>stop_io_context\<close> as a handler calls them (the
  flag they set; that \<open>run\<close> then wakes up is shown in \<open>Run_Stop\<close>), the static receive buffer, and
  \<open>run\<close> as \<open>main\<close> calls it: the events of the system happen, in the order of a schedule, until the
  flag is set.  For proofs about whole programs there is a small calculus of fault-free triples.
\<close>

named_theorems holds_rules

section \<open>Stopping\<close>

definition stop :: "core_id \<Rightarrow> ('o, unit) prog" where
  "stop this = upd_core this (\<lambda>k. k\<lparr>core_stop_requested := 1\<rparr>)"

definition stop_io_context :: "sock_id \<Rightarrow> ('o, unit) prog" where
  "stop_io_context this = do {
     s \<leftarrow> read_sock this;
     alive \<leftarrow> lock_core (ws_io_core s);
     when alive (stop (ws_io_core s)) }"

section \<open>The receive buffer\<close>

text \<open>The static array; addresses of the caller's memory are counted from its start.\<close>

definition get_recv_buffer :: nat where
  "get_recv_buffer = 0"

definition get_recv_span :: span where
  "get_recv_span = \<lparr>sp_data = get_recv_buffer, sp_size = 512\<rparr>"

text \<open>The bytes of a string literal, with the terminating zero, and \<open>memcpy\<close> of its first \<open>n\<close>.\<close>

definition literal :: "string \<Rightarrow> byte list" where
  "literal s = map (\<lambda>c. word_of_int (of_char c)) s @ [0]"

definition memcpy :: "nat \<Rightarrow> byte list \<Rightarrow> nat \<Rightarrow> ('o, unit) prog" where
  "memcpy dst bs n = do {
     when (length bs < n) (raise_fault Buffer_Overflow);
     modify (\<lambda>w. w\<lparr>umem := store_bytes dst (take n bs) (umem w)\<rparr>) }"

section \<open>Running\<close>

text \<open>What the system does while \<open>main\<close> is in \<open>run\<close>.\<close>

datatype event =
    Completes addr int int      \<comment> \<open>an operation in flight, with its result and number of bytes\<close>
  | Runs pool addr              \<comment> \<open>a posted callback\<close>

fun happens :: "'o os \<Rightarrow> 'o user \<Rightarrow> event \<Rightarrow> 'o world \<Rightarrow> 'o world" where
  "happens os user (Completes p io_result n) w =
     (if p \<in> set (inflight w) then complete os user p io_result n w else w)"
| "happens os user (Runs pl f) w = (if (pl, f) \<in> set (posted w) then run_callback user (pl, f) w else w)"

text \<open>The result says whether \<open>run\<close> has returned before the schedule is over.\<close>

fun run :: "'o os \<Rightarrow> 'o user \<Rightarrow> core_id \<Rightarrow> event list \<Rightarrow> ('o, bool) prog" where
  "run os user this [] = do {
     k \<leftarrow> read_core this;
     State_Monad.return (core_stop_requested k \<noteq> 0) }"
| "run os user this (e # es) = do {
     k \<leftarrow> read_core this;
     if core_stop_requested k \<noteq> 0 then State_Monad.return True
     else do {
       modify (happens os user e);
       run os user this es } }"

text \<open>
  After \<open>run\<close> has returned the threads of the pools go on: operations complete and callbacks run
  until the core is released.  The events between two calls of \<open>main\<close> are those of a list;
  those that happen while \<open>close\<close> waits for callbacks belong to the list before it.
\<close>

definition happen_all :: "'o os \<Rightarrow> 'o user \<Rightarrow> event list \<Rightarrow> ('o, unit) prog" where
  "happen_all os user es = modify (fold (happens os user) es)"

definition close_then :: "'o os \<Rightarrow> 'o user \<Rightarrow> event list \<Rightarrow> sock_id \<Rightarrow> ('o, ErrorCode) prog" where
  "close_then os user es s = do {
     err \<leftarrow> close os s;
     happen_all os user es;
     State_Monad.return err }"

section \<open>Triples\<close>

text \<open>From a state with \<open>P\<close> the program runs without a fault to a state with \<open>Q\<close>.\<close>

definition triple :: "('o world \<Rightarrow> bool) \<Rightarrow> ('o, 'a) prog \<Rightarrow> ('a \<Rightarrow> 'o world \<Rightarrow> bool) \<Rightarrow> bool" where
  "triple P m Q \<longleftrightarrow> (\<forall>w x w'. P w \<longrightarrow> run_state m w = (x, w') \<longrightarrow> faults w' = faults w \<and> Q x w')"

abbreviation holds :: "('o world \<Rightarrow> bool) \<Rightarrow> ('o, 'a) prog \<Rightarrow> bool" where
  "holds P m \<equiv> triple P m (\<lambda>_. P)"

lemma tripleI:
  assumes "\<And>w x w'. P w \<Longrightarrow> run_state m w = (x, w') \<Longrightarrow> faults w' = faults w \<and> Q x w'"
  shows "triple P m Q"
  using assms by (simp add: triple_def)

lemma tripleD:
  assumes "triple P m Q" and "P w" and "run_state m w = (x, w')"
  shows "faults w' = faults w" "Q x w'"
  using assms by (auto simp: triple_def)

lemma triple_bind:
  assumes "triple P m Q" and "\<And>x. triple (Q x) (f x) R"
  shows "triple P (State_Monad.bind m f) R"
proof (rule tripleI)
  fix w y w' assume p: "P w" and run: "run_state (State_Monad.bind m f) w = (y, w')"
  obtain x w1 where r1: "run_state m w = (x, w1)" by fastforce
  then have r2: "run_state (f x) w1 = (y, w')" using run by simp
  from tripleD [OF assms(1) p r1] tripleD [OF assms(2) _ r2] show "faults w' = faults w \<and> R y w'" by simp
qed

lemma triple_conseq:
  assumes "triple P' m Q'" and "\<And>w. P w \<Longrightarrow> P' w" and "\<And>x w. Q' x w \<Longrightarrow> Q x w"
  shows "triple P m Q"
  using assms unfolding triple_def by blast

lemma triple_if:
  assumes "b \<Longrightarrow> triple P m Q" and "\<not> b \<Longrightarrow> triple P m' Q"
  shows "triple P (if b then m else m') Q"
  using assms by simp

text \<open>The form of every step of a \<open>main\<close>: on an error it gives up.\<close>

lemma triple_check:
  assumes "triple P m (\<lambda>e w. if e = Success then Q w else R w)" and "triple R fail S" and "triple Q f S"
  shows "triple P (do { err \<leftarrow> m; if err \<noteq> Success then fail else f }) S"
proof (rule triple_bind [OF assms(1)])
  show "triple (\<lambda>w. if e = Success then Q w else R w) (if e \<noteq> Success then fail else f) S" for e
    using assms(2,3) by (cases "e = Success") simp_all
qed

lemma triple_sum:
  assumes "triple P m (\<lambda>r w. case r of Inr c \<Rightarrow> c = k \<and> Q w | Inl _ \<Rightarrow> True)" and "triple (\<lambda>_. True) fail S" and "triple Q (f k) S"
  shows "triple P (do { r \<leftarrow> m; case r of Inl _ \<Rightarrow> fail | Inr c \<Rightarrow> f c }) S"
proof (rule triple_bind [OF assms(1)])
  show "triple (\<lambda>w. case r of Inr c \<Rightarrow> c = k \<and> Q w | Inl _ \<Rightarrow> True) (case r of Inl _ \<Rightarrow> fail | Inr c \<Rightarrow> f c) S" for r
    using assms(2,3) by (cases r) (auto simp: triple_def)
qed

lemma triple_pure: "(b \<Longrightarrow> triple P m Q) \<Longrightarrow> triple (\<lambda>w. P w \<and> b) m Q"
  by (auto simp: triple_def)

lemma triple_return: "(\<And>w. P w \<Longrightarrow> Q x w) \<Longrightarrow> triple P (State_Monad.return x) Q"
  by (simp add: triple_def)

lemma holds_return [holds_rules]: "holds P (State_Monad.return x)"
  by (rule triple_return)

lemma holds_bind [holds_rules]: "holds P m \<Longrightarrow> (\<And>x. holds P (f x)) \<Longrightarrow> holds P (State_Monad.bind m f)"
  by (rule triple_bind)

lemma holds_if [holds_rules]: "holds P m \<Longrightarrow> holds P m' \<Longrightarrow> holds P (if b then m else m')"
  by simp

lemma holds_lock [holds_rules]: "holds P (lock_core c)"
  by (rule tripleI) (auto simp: exec)

section \<open>As parts of handlers\<close>

lemma client_stop [client_rules]: "client (stop c)" "client (stop_io_context s)" "client (memcpy a bs n)"
  unfolding stop_def stop_io_context_def memcpy_def by (intro client_rules)+

lemma private_stop [private_rules]:
  "private_from a (stop c)" "private_from a (stop_io_context s)" "private_from a (memcpy b bs n)"
  unfolding stop_def stop_io_context_def memcpy_def by (intro private_rules)+

lemma sized_stop [sized_rules]:
  "lengths_kept (stop c)" "lengths_kept (stop_io_context s)" "lengths_kept (memcpy b bs n)"
  unfolding stop_def stop_io_context_def memcpy_def by (intro sized_rules)+

lemma stop_io_context_run:
  assumes "sockets w s = Some x" and "cores w (ws_io_core x) \<noteq> None"
  shows "run_state (stop_io_context s) w =
    ((), w\<lparr>cores := (cores w)(ws_io_core x \<mapsto> (core w (ws_io_core x))\<lparr>core_stop_requested := 1\<rparr>)\<rparr>)"
  using assms by (auto simp: stop_io_context_def stop_def exec sock_Some)

lemma logs_faults:
  assumes "logs m" and "run_state m w = (x, w')"
  shows "set (faults w) \<subseteq> set (faults w')"
proof -
  have "logged w w'" using assms unfolding logs_def by (metis snd_conv)
  then show ?thesis by (auto simp: logged_def)
qed

lemma umem_start:
  "run_state (start_recv b h os s) w = (err, w') \<Longrightarrow> umem w' = umem w"
  "run_state (start_send b h os s) w = (err, w') \<Longrightarrow> umem w' = umem w"
  by (auto simp: start_recv_def start_send_def submit_overlapped_def exec split: if_splits)

section \<open>Setting up and shutting down\<close>

text \<open>A socket that is open on a core, for IPv4.\<close>

definition serves :: "core_id \<Rightarrow> sock_id \<Rightarrow> 'o world \<Rightarrow> bool" where
  "serves k s w \<longleftrightarrow> (\<exists>x. sockets w s = Some x \<and> created x \<and> ws_addr_family x = AF_IPv4 \<and> ws_io_core x = k)"

fun is_v4 :: "Endpoint \<Rightarrow> bool" where
  "is_v4 (Ep_V4 x) \<longleftrightarrow> True"
| "is_v4 _ \<longleftrightarrow> False"

lemma serves_kept: "sockets_kept w w' \<Longrightarrow> serves k s w \<Longrightarrow> serves k s w'"
  unfolding sockets_kept_def serves_def created_def by fastforce

lemma holds_text: "is_v4 e \<Longrightarrow> holds P (lift_cpp d (inet_ntop ntop AF_IPv4 e))"
  by (cases e) (simp_all add: inet_ntop_def ipv4_def lift_cpp_def holds_return)

text \<open>Nothing has been allocated; a core has been created; the sockets of \<open>L\<close> are open on it.\<close>

definition pristine :: "'o world \<Rightarrow> bool" where
  "pristine w \<longleftrightarrow> heap_wf w \<and> io_heap w = Map.empty \<and> fn_heap w = Map.empty \<and> inflight w = [] \<and> posted w = []"

definition base :: "core_id \<Rightarrow> sock_id list \<Rightarrow> 'o world \<Rightarrow> bool" where
  "base k L w \<longleftrightarrow> pristine w \<and> lpfns_loaded w \<and> cores w k \<noteq> None \<and> (\<forall>s \<in> set L. serves k s w)"

text \<open>The objects of \<open>L\<close> exist, and those of \<open>F\<close> have been closed.\<close>

definition closing :: "core_id \<Rightarrow> sock_id list \<Rightarrow> sock_id list \<Rightarrow> 'o world \<Rightarrow> bool" where
  "closing k L F w \<longleftrightarrow> cores w k \<noteq> None \<and> (\<forall>s \<in> set L. sockets w s \<noteq> None) \<and> (\<forall>s \<in> set F. fresh (sock w s))"

lemma base_closing: "base k L w \<Longrightarrow> closing k L [] w"
  by (auto simp: base_def closing_def serves_def)

lemma base_only_sock:
  assumes "base k L w" and "only_sock s w w'" and "s \<in> set L \<Longrightarrow> serves k s w'"
  shows "base k L w'"
proof -
  have fr: "mem_frame w w'" "sockets w' = (sockets w)(s \<mapsto> sock w' s)" using assms(2) by (simp_all add: only_sock_def)
  have "serves k t w'" if t: "t \<in> set L" for t
    using t assms(1,3) fr(2) by (cases "t = s") (auto simp: base_def serves_def)
  then show ?thesis using assms(1) fr(1) by (simp add: base_def pristine_def mem_frame_def heap_wf_def lpfns_loaded_def)
qed

lemma triple_create:
  assumes "core_contract os"
  shows "triple pristine (core_create os config junk_io junk_user k)
    (\<lambda>r w. case r of Inr c \<Rightarrow> c = k \<and> base k [] w | Inl _ \<Rightarrow> True)"
proof (rule tripleI)
  fix w r w' assume p: "pristine w" and run: "run_state (core_create os config junk_io junk_user k) w = (r, w')"
  from core_create_run [OF assms run] p
  show "faults w' = faults w \<and> (case r of Inr c \<Rightarrow> c = k \<and> base k [] w' | Inl _ \<Rightarrow> True)"
    by (auto simp: only_core_def base_def pristine_def heap_wf_def split: sum.splits)
qed

lemma triple_initialize:
  assumes "core_contract os"
  shows "triple (base k L) (initialize os k) (\<lambda>e w. e = Success \<longrightarrow> base k L w)"
proof (rule tripleI)
  fix w e w' assume p: "base k L w" and run: "run_state (initialize os k) w = (e, w')"
  obtain x where x: "cores w k = Some x" using p by (auto simp: base_def)
  note r = initialize_run [OF x assms run]
  then show "faults w' = faults w \<and> (e = Success \<longrightarrow> base k L w')"
    using p by (auto simp: only_core_def base_def pristine_def heap_wf_def serves_def)
qed

lemma triple_socket_create:
  assumes "s \<notin> set L"
  shows "triple (base k L) (socket_create (Some k) s)
    (\<lambda>r w. (base k L w \<and> sockets w s = Some (WinSocket_default k)) \<and> r = Inr s)"
proof (rule tripleI)
  fix w r w' assume p: "base k L w" and run: "run_state (socket_create (Some k) s) w = (r, w')"
  have w': "w' = w\<lparr>sockets := (sockets w)(s \<mapsto> WinSocket_default k)\<rparr>" and r: "r = Inr s"
    using run by (auto simp: socket_create_def exec sock_def WinSocket_default_def)
  have "serves k t w'" if "t \<in> set L" for t using that assms p w' by (auto simp: base_def serves_def)
  with p w' r show "faults w' = faults w \<and> (base k L w' \<and> sockets w' s = Some (WinSocket_default k)) \<and> r = Inr s"
    by (simp add: base_def pristine_def heap_wf_def lpfns_loaded_def)
qed

lemma triple_socket:
  assumes c: "win_contract os" and s: "s \<notin> set L"
  shows "triple (\<lambda>w. base k L w \<and> sockets w s = Some (WinSocket_default k)) (socket os s AF_IPv4 type proto)
    (\<lambda>e w. if e = Success then base k (s # L) w else base k L w)"
proof (rule tripleI)
  fix w e w' assume p: "base k L w \<and> sockets w s = Some (WinSocket_default k)"
    and run: "run_state (socket os s AF_IPv4 type proto) w = (e, w')"
  note r = socket_run [OF conjunct2 [OF p] win_contractD(3,5) [OF c] run]
  have b: "base k L w'" using p s by (intro base_only_sock [OF _ r(1)]) simp_all
  moreover have "e = Success \<Longrightarrow> serves k s w'"
    using r(1,4) by (auto simp: serves_def only_sock_def WinSocket_default_def)
  ultimately show "faults w' = faults w \<and> (if e = Success then base k (s # L) w' else base k L w')"
    using r(1) by (simp add: base_def only_sock_def)
qed

lemma triple_bind_ep:
  assumes c: "win_contract os" and s: "s \<in> set L" and e: "is_v4 ep" "wf_endpoint ep"
  shows "holds (base k L) (bind_ep os s ep)"
proof (rule tripleI)
  fix w r w' assume p: "base k L w" and run: "run_state (bind_ep os s ep) w = (r, w')"
  obtain x where x: "sockets w s = Some x" "created x" "ws_addr_family x = AF_IPv4" "ws_io_core x = k"
    using p s by (auto simp: base_def serves_def)
  have "matches_family (ws_addr_family x) ep" using e x by (cases ep) simp_all
  then obtain sa where sa: "endpoint_to_sockaddr (ws_addr_family x) ep = Ret (Success, sa)"
    using encode_matching e(2) by metis
  note r = bind_run [OF x(1) win_contractD(3) [OF c] sa run]
  have "sockets w' s = Some (sock w' s)" using r(1) by (simp add: only_sock_def)
  then have "serves k s w'" using r(3) x by (auto simp: serves_def created_def)
  with base_only_sock [OF p r(1)] r(1) show "faults w' = faults w \<and> base k L w'" by (simp add: only_sock_def)
qed

lemma triple_listen:
  assumes s: "s \<in> set L"
  shows "holds (base k L) (listen os s n)"
proof (rule tripleI)
  fix w r w' assume p: "base k L w" and run: "run_state (listen os s n) w = (r, w')"
  obtain x where x: "sockets w s = Some x" using p s by (auto simp: base_def serves_def)
  show "faults w' = faults w \<and> base k L w'"
    using run x p by (auto simp: listen_def exec sock_Some base_def pristine_def serves_def heap_wf_def lpfns_loaded_def
        split: if_splits)
qed

lemma triple_close:
  assumes "s \<in> set L"
  shows "triple (closing k L F) (close os s) (\<lambda>_. closing k L (s # F))"
proof (rule tripleI)
  fix w r w' assume p: "closing k L F w" and run: "run_state (close os s) w = (r, w')"
  obtain x where x: "sockets w s = Some x" using p assms by (auto simp: closing_def)
  note c = close_run [OF x run]
  have u: "sockets w' = (sockets w)(s \<mapsto> sock w' s)" "cores w' = cores w" "faults w' = faults w"
    using c(1) by (simp_all add: only_sock_def mem_frame_def)
  have "sock w' t = sock w t" if "t \<noteq> s" for t using that by (subst sock_def, subst u(1)) (simp add: sock_def)
  moreover have "sockets w' t \<noteq> None" if "sockets w t \<noteq> None" for t by (subst u(1)) (use that in simp)
  moreover have "fresh (sock w' s)" using c(2) by simp
  ultimately show "faults w' = faults w \<and> closing k L (s # F) w'"
    using p u(2,3) unfolding closing_def by auto metis
qed

lemma triple_release:
  assumes "win_contract os"
  shows "triple (closing k L F) (release os k)
    (\<lambda>e w. closing k L F w \<and> (e = Success \<longrightarrow> core_held k (core w k) = {#}))"
proof (rule tripleI)
  fix w e w' assume p: "closing k L F w" and run: "run_state (release os k) w = (e, w')"
  obtain x where x: "cores w k = Some x" using p by (auto simp: closing_def)
  note r = release_run [OF x win_contractD(3) [OF assms] run]
  have "sockets w' = sockets w" "faults w' = faults w" "cores w' k \<noteq> None" using r(1) by (auto simp: only_core_def)
  then show "faults w' = faults w \<and> closing k L F w' \<and> (e = Success \<longrightarrow> core_held k (core w' k) = {#})"
    using p r(3) by (auto simp: closing_def sock_def)
qed

end
