(* ===== verification/Event_Program.thy ===== *)
theory Event_Program
  imports Echo_Common
begin

text \<open>
  Programs that are driven by their handlers.  The locale \<open>event_program\<close> states what an
  application has to show of its handlers one at a time: called while its sockets are open, with a
  call of the program, a handler does not fault, and starts only operations of the program.  From
  that it follows that no event that happens while \<open>main\<close> is in \<open>run\<close> faults.  Both example
  programs are interpretations.
\<close>

section \<open>The state of a program\<close>

text \<open>An accept on an IPv4 socket reports IPv4 addresses.\<close>

definition acceptex_v4_contract :: "'o os \<Rightarrow> bool" where
  "acceptex_v4_contract os \<longleftrightarrow>
     (\<forall>f p m n w sa. let r = sys_ret os (GetAcceptExSockaddrs f p m n) w in out0 r \<noteq> 0 \<longrightarrow> out1 r \<noteq> 0 \<longrightarrow>
        ss_family (store_sockaddr (buf0 r) sa) = AF_INET \<and> ss_family (store_sockaddr (buf1 r) sa) = AF_INET)"

text \<open>The sockets of \<open>L\<close> are open on the core \<open>k\<close>.\<close>

definition serving :: "core_id \<Rightarrow> sock_id list \<Rightarrow> 'o world \<Rightarrow> bool" where
  "serving k L w \<longleftrightarrow> heap_wf w \<and> lpfns_loaded w \<and> cores w k \<noteq> None \<and> (\<forall>s \<in> set L. serves k s w)"

text \<open>The closure of an operation with the block \<open>d\<close>: its endpoints are IPv4 where it will be told \<open>Success\<close>.\<close>

definition work_ok :: "addr \<Rightarrow> IOData \<Rightarrow> work \<Rightarrow> bool" where
  "work_ok p d wk \<longleftrightarrow> work_for (iod_user_handler d) p wk \<and>
     (\<forall>h lo pe. wk = Accept_Work p h lo pe \<longrightarrow> iod_error_code d = Success \<longrightarrow> is_v4 lo \<and> is_v4 pe)"

text \<open>All blocks and closures but those of the callbacks that run, \<open>rs\<close> and \<open>fs\<close>, are the program's.\<close>

definition served :: "core_id \<Rightarrow> sock_id list \<Rightarrow> (IOData \<Rightarrow> bool) \<Rightarrow> addr list \<Rightarrow> addr list \<Rightarrow> 'o world \<Rightarrow> bool" where
  "served k L block rs fs w \<longleftrightarrow> serving k L w \<and>
     (\<forall>p d. p \<notin> set rs \<longrightarrow> io_heap w p = Some d \<longrightarrow> block d) \<and>
     (\<forall>f wk. f \<notin> set fs \<longrightarrow> fn_heap w f = Some wk \<longrightarrow>
        (\<exists>p d. p \<notin> set rs \<and> io_heap w p = Some d \<and> work_ok p d wk))"

definition program_inv :: "core_id \<Rightarrow> sock_id list \<Rightarrow> (IOData \<Rightarrow> bool) \<Rightarrow> 'o world \<Rightarrow> bool" where
  "program_inv k L block w \<longleftrightarrow> owned [] [] w \<and> served k L block [] [] w"

text \<open>What a handler may have done since \<open>w0\<close>: added blocks of the program.\<close>

definition grown :: "(IOData \<Rightarrow> bool) \<Rightarrow> 'o world \<Rightarrow> 'o world \<Rightarrow> bool" where
  "grown block w0 w \<longleftrightarrow> fn_heap w = fn_heap w0 \<and> next_addr w0 \<le> next_addr w \<and>
     (\<forall>p < next_addr w0. io_heap w p = io_heap w0 p) \<and>
     (\<forall>p d. next_addr w0 \<le> p \<longrightarrow> io_heap w p = Some d \<longrightarrow> block d)"

abbreviation acting :: "core_id \<Rightarrow> sock_id list \<Rightarrow> (IOData \<Rightarrow> bool) \<Rightarrow> 'o world \<Rightarrow> 'o world \<Rightarrow> bool" where
  "acting k L block w0 \<equiv> \<lambda>w. serving k L w \<and> grown block w0 w"

section \<open>The parts of a handler\<close>

lemma serving_ready: "serving k L w \<Longrightarrow> s \<in> set L \<Longrightarrow> ready w s"
  by (auto simp: serving_def serves_def ready_def sock_Some)

lemma serving_sock: "serving k L w \<Longrightarrow> s \<in> set L \<Longrightarrow> \<exists>x. sockets w s = Some x \<and> ws_addr_family x = AF_IPv4 \<and> ws_io_core x = k"
  by (auto simp: serving_def serves_def)

lemma acting_submitted:
  assumes i: "acting k L block w0 w" and s: "submitted this records w err w'"
    and b: "\<And>x d call. iod_socket d = Some this \<Longrightarrow> records x d call \<Longrightarrow> block d"
  shows "faults w' = faults w \<and> acting k L block w0 w'"
proof -
  have f: "faults w' = faults w" "\<forall>s \<in> set L. serves k s w'" "cores w' = cores w" "fn_heap w' = fn_heap w" "lpfns_loaded w'"
    using i s by (auto simp: serving_def submitted_def start_frame_def intro: serves_kept)
  moreover have "heap_wf w' \<and> grown block w0 w'"
  proof (cases "err = Success")
    case True
    then obtain d where d: "io_heap w' = (io_heap w)(next_addr w \<mapsto> d)" "next_addr w' = next_addr w + 1" "block d"
      using s b by (auto simp: submitted_def)
    then show ?thesis using i f(4) by (auto simp: serving_def grown_def heap_wf_def)
  next
    case False
    then have "io_heap w' = io_heap w" "next_addr w' = next_addr w \<or> next_addr w' = next_addr w + 1"
      using s by (simp_all add: submitted_def)
    then show ?thesis using i f(4) by (auto simp: serving_def grown_def heap_wf_def)
  qed
  ultimately show ?thesis using i by (simp add: serving_def)
qed

lemma holds_start_recv:
  assumes c: "win_contract os" and s: "s \<in> set L" and b: "\<And>x d call. iod_socket d = Some s \<Longrightarrow> recv_records u h x d call \<Longrightarrow> block d"
  shows "holds (acting k L block w0) (start_recv u h os s)"
proof (rule tripleI)
  fix w err w' assume i: "acting k L block w0 w" and run: "run_state (start_recv u h os s) w = (err, w')"
  show "faults w' = faults w \<and> acting k L block w0 w'"
    by (rule acting_submitted [OF i recv_start.submits [OF c serving_ready [OF conjunct1 [OF i] s] TrueI run] b])
qed

lemma holds_start_send:
  assumes c: "win_contract os" and s: "s \<in> set L" and b: "\<And>x d call. iod_socket d = Some s \<Longrightarrow> send_records u h x d call \<Longrightarrow> block d"
  shows "holds (acting k L block w0) (start_send u h os s)"
proof (rule tripleI)
  fix w err w' assume i: "acting k L block w0 w" and run: "run_state (start_send u h os s) w = (err, w')"
  show "faults w' = faults w \<and> acting k L block w0 w'"
    by (rule acting_submitted [OF i send_start.submits [OF c serving_ready [OF conjunct1 [OF i] s] TrueI run] b])
qed

lemma holds_start_disconnect:
  assumes c: "win_contract os" and s: "s \<in> set L" and b: "\<And>x d call. iod_socket d = Some s \<Longrightarrow> disconnect_records r h x d call \<Longrightarrow> block d"
  shows "holds (acting k L block w0) (start_disconnect r h os s)"
proof (rule tripleI)
  fix w err w' assume i: "acting k L block w0 w" and run: "run_state (start_disconnect r h os s) w = (err, w')"
  show "faults w' = faults w \<and> acting k L block w0 w'"
    by (rule acting_submitted [OF i disconnect_start.submits [OF c serving_ready [OF conjunct1 [OF i] s] TrueI run] b])
qed

lemma holds_stop:
  assumes "s \<in> set L"
  shows "holds (acting k L block w0) (stop_io_context s)"
proof (rule tripleI)
  fix w x w' assume i: "acting k L block w0 w" and run: "run_state (stop_io_context s) w = (x, w')"
  obtain y where y: "sockets w s = Some y" "ws_io_core y = k" using serving_sock [OF conjunct1 [OF i] assms] by blast
  have "w' = w\<lparr>cores := (cores w)(k \<mapsto> (core w k)\<lparr>core_stop_requested := 1\<rparr>)\<rparr>"
    using run y i stop_io_context_run [OF y(1)] by (simp add: serving_def)
  then show "faults w' = faults w \<and> acting k L block w0 w'"
    using i by (auto simp: serving_def serves_def grown_def heap_wf_def lpfns_loaded_def)
qed

lemma holds_memcpy:
  assumes "n \<le> length bs"
  shows "holds (acting k L block w0) (memcpy dst bs n)"
  using assms
  by (intro tripleI) (auto simp: memcpy_def exec serving_def serves_def grown_def heap_wf_def lpfns_loaded_def)

lemma triple_family:
  assumes "s \<in> set L"
  shows "triple (acting k L block w0) (read_sock s) (\<lambda>x w. acting k L block w0 w \<and> ws_addr_family x = AF_IPv4)"
proof (rule tripleI)
  fix w x w' assume i: "acting k L block w0 w" and run: "run_state (read_sock s) w = (x, w')"
  obtain y where "sockets w s = Some y" "ws_addr_family y = AF_IPv4" using serving_sock [OF conjunct1 [OF i] assms] by blast
  then show "faults w' = faults w \<and> acting k L block w0 w' \<and> ws_addr_family x = AF_IPv4"
    using run i by (auto simp: exec sock_Some)
qed

section \<open>Blocks and closures of a program\<close>

lemma reported_v4:
  assumes "acceptex_v4_contract os" and "reported os ep"
  shows "is_v4 ep"
proof -
  obtain f p m n w sa where r: "let r = sys_ret os (GetAcceptExSockaddrs f p m n) w in out0 r \<noteq> 0 \<and> out1 r \<noteq> 0 \<and>
      (sockaddr_to_endpoint (store_sockaddr (buf0 r) sa) Ep_Uninit = (Success, ep) \<or>
       sockaddr_to_endpoint (store_sockaddr (buf1 r) sa) Ep_Uninit = (Success, ep))"
    using assms(2) unfolding reported_def by blast
  then have "ss_family (store_sockaddr (buf0 (sys_ret os (GetAcceptExSockaddrs f p m n) w)) sa) = AF_INET"
    "ss_family (store_sockaddr (buf1 (sys_ret os (GetAcceptExSockaddrs f p m n) w)) sa) = AF_INET"
    using assms(1) unfolding acceptex_v4_contract_def Let_def by blast+
  with r show ?thesis by (auto simp: Let_def sockaddr_to_endpoint_def)
qed

lemma completed_work_ok:
  assumes "acceptex_v4_contract os" and "completed res n errs d d'"
    and "work_for (iod_user_handler d) p wk" and "told os errs wk"
  shows "work_ok p d' wk"
  using assms reported_v4 [OF assms(1)] by (auto simp: completed_def work_ok_def split: if_splits)

text \<open>A closure other than those that run has another block than those that run.\<close>

lemma closure_elsewhere:
  assumes o: "owned (p # rs) fs w" and f: "fn_heap w f = Some wk" "f \<notin> set fs" and b: "work_block wk \<noteq> 0"
  shows "work_block wk \<noteq> p"
proof -
  have "f \<in> snd ` set (posted w)" using ownedD(6) [OF o] f by auto
  then obtain c where c: "c \<in> set (posted w)" "snd c = f" by blast
  then have "work_block wk \<in> set (posted_blocks w)" using f(1) b by (auto simp: posted_blocks_def intro!: bexI [of _ c])
  then show ?thesis using ownedD(3) [OF o] by auto
qed

lemma served_other_blocks:
  assumes o: "owned (p # rs) fs w" and s: "served k L block rs fs w"
  shows "served k L block (p # rs) fs w"
proof -
  have "\<exists>q d. q \<notin> set (p # rs) \<and> io_heap w q = Some d \<and> work_ok q d wk"
    if f: "f \<notin> set fs" "fn_heap w f = Some wk" for f wk
  proof -
    obtain q d where q: "q \<notin> set rs" "io_heap w q = Some d" "work_ok q d wk" using s f unfolding served_def by blast
    have "work_block wk = q" using q(3) work_for_block unfolding work_ok_def by blast
    moreover have "q \<noteq> 0" using heap_wf_block(1) [OF ownedD(1) [OF o] q(2)] .
    ultimately show ?thesis using closure_elsewhere [OF o f(2,1)] q by auto
  qed
  with s show ?thesis by (auto simp: served_def)
qed

lemma served_frame:
  assumes "served k L block rs fs w" and "sockets w' = sockets w" "cores w' = cores w" "lpfns_loaded w'" "heap_wf w'"
    and "\<And>p. p \<notin> set rs \<Longrightarrow> io_heap w' p = io_heap w p" "\<And>f. f \<notin> set fs \<Longrightarrow> fn_heap w' f = fn_heap w f"
  shows "served k L block rs fs w'"
proof -
  have "serving k L w'" using assms by (auto simp: served_def serving_def serves_def)
  then show ?thesis using assms(1,6,7) unfolding served_def by metis
qed

text \<open>A block and a closure that are freed no longer count.\<close>

lemma served_free:
  assumes s: "served k L block (p # rs) fs w" and p: "io_heap w p = None"
  shows "served k L block rs fs w"
  unfolding served_def
proof (intro conjI allI impI)
  show "serving k L w" using s by (simp add: served_def)
  show "block d" if "q \<notin> set rs" "io_heap w q = Some d" for q d
    using that s p by (cases "q = p") (auto simp: served_def)
  show "\<exists>q d. q \<notin> set rs \<and> io_heap w q = Some d \<and> work_ok q d wk" if "f \<notin> set fs" "fn_heap w f = Some wk" for f wk
    using that s unfolding served_def by (meson list.set_intros(2))
qed

lemma served_free_fn:
  assumes s: "served k L block rs (f # fs) w" and f: "fn_heap w f = None"
  shows "served k L block rs fs w"
proof -
  have n: "g \<notin> set (f # fs)" if "g \<notin> set fs" "fn_heap w g = Some wk" for g wk using that f by auto
  show ?thesis using s n unfolding served_def by blast
qed

lemma served_delete:
  assumes s: "served k L block (p # rs) fs w" and w': "w' = w\<lparr>io_heap := (io_heap w)(p := None)\<rparr>"
  shows "served k L block rs fs w'"
proof -
  have "heap_wf w" "lpfns_loaded w" using s by (simp_all add: served_def serving_def)
  then have "heap_wf w'" "lpfns_loaded w'" unfolding w' heap_wf_def lpfns_loaded_def by simp_all
  then have "served k L block (p # rs) fs w'" by (intro served_frame [OF s]) (simp_all add: w')
  then show ?thesis by (rule served_free) (simp add: w')
qed

lemma served_delete_fn:
  assumes s: "served k L block rs (f # fs) w" and w': "w' = w\<lparr>fn_heap := (fn_heap w)(f := None)\<rparr>"
  shows "served k L block rs fs w'"
proof -
  have "heap_wf w" "lpfns_loaded w" using s by (simp_all add: served_def serving_def)
  then have "heap_wf w'" "lpfns_loaded w'" unfolding w' heap_wf_def lpfns_loaded_def by simp_all
  then have "served k L block rs (f # fs) w'" by (intro served_frame [OF s]) (simp_all add: w')
  then show ?thesis by (rule served_free_fn) (simp add: w')
qed

text \<open>A block and its closure that have been posted count again.\<close>

lemma served_post:
  assumes s: "served k L block [p] [f] w" and p: "io_heap w p = Some d" "block d"
    and f: "fn_heap w f = Some wk" "work_ok p d wk"
  shows "served k L block [] [] w"
  unfolding served_def
proof (intro conjI allI impI)
  show "serving k L w" using s by (simp add: served_def)
  show "block e" if "io_heap w q = Some e" for q e
    using that s p by (cases "q = p") (auto simp: served_def)
  show "\<exists>q e. q \<notin> set [] \<and> io_heap w q = Some e \<and> work_ok q e wk'" if g: "fn_heap w g = Some wk'" for g wk'
  proof (cases "g = f")
    case True
    then show ?thesis using f g p by auto
  next
    case False
    then show ?thesis using s g unfolding served_def by fastforce
  qed
qed

section \<open>Programs\<close>

locale event_program = application user for user :: "'o os \<Rightarrow> 'o user" +
  fixes contract :: "'o os \<Rightarrow> bool"
    and k :: core_id
    and L :: "sock_id list"
    and block :: "IOData \<Rightarrow> bool"
    and call_ok :: "invocation \<Rightarrow> bool"
  assumes block_operation: "block d \<Longrightarrow> handler_of (iod_user_handler d) \<noteq> None \<and> (\<exists>c \<in> set L. iod_socket d = Some c)"
    and block_completed: "block d \<Longrightarrow> completed res n errs d d' \<Longrightarrow> block d'"
    and work_call: "block d \<Longrightarrow> work_ok p d wk \<Longrightarrow> call_ok (call_of wk d)"
    and handler: "win_contract os \<Longrightarrow> contract os \<Longrightarrow> call_ok call \<Longrightarrow> holds (acting k L block w0) (user os call)"
begin

lemma served_handler:
  assumes c: "win_contract os" "contract os" and call: "call_ok call" and s: "served k L block rs fs w"
    and run: "run_state (user os call) w = ((), w')"
  shows "faults w' = faults w" "served k L block rs fs w'"
proof -
  have wf: "heap_wf w" using s by (simp add: served_def serving_def)
  have "acting k L block w w" using s wf by (auto simp: served_def grown_def heap_wf_def)
  note h = tripleD [OF handler [OF c call] this run]
  show "faults w' = faults w" by (rule h(1))
  have old: "io_heap w p = Some d \<Longrightarrow> io_heap w' p = Some d" for p d
    using h(2) heap_wf_block(2) [OF wf] by (auto simp: grown_def)
  show "served k L block rs fs w'"
    unfolding served_def
  proof (intro conjI allI impI)
    show "serving k L w'" using h(2) by blast
    show "block d" if "p \<notin> set rs" "io_heap w' p = Some d" for p d
      using that h(2) s by (cases "p < next_addr w") (auto simp: grown_def served_def not_less)
    show "\<exists>p d. p \<notin> set rs \<and> io_heap w' p = Some d \<and> work_ok p d wk"
      if "f \<notin> set fs" "fn_heap w' f = Some wk" for f wk
      using that h(2) s old unfolding grown_def served_def by metis
  qed
qed

lemma not_silent:
  assumes "served k L block [] [] w" and "io_heap w p = Some d" and "iod_socket d = Some c"
  shows "handler_of (iod_user_handler d) \<noteq> None" "cores w (ws_io_core (sock w c)) \<noteq> None"
proof -
  have b: "block d" and s: "serving k L w" using assms(1,2) by (auto simp: served_def)
  then have c: "c \<in> set L" and h: "handler_of (iod_user_handler d) \<noteq> None" using block_operation [OF b] assms(3) by auto
  show "handler_of (iod_user_handler d) \<noteq> None" by (rule h)
  obtain x where "sockets w c = Some x" "ws_io_core x = k" using serving_sock [OF s c] by blast
  then show "cores w (ws_io_core (sock w c)) \<noteq> None" using s by (simp add: sock_Some serving_def)
qed

lemma completes_keeps:
  assumes c: "win_contract os" "acceptex_contract os" "acceptex_v4_contract os" and x: "contract os" and i: "program_inv k L block w"
    and p: "p \<in> set (inflight w)" and w': "w' = complete os (user os) p res n w"
  shows "faults w' = faults w \<and> program_inv k L block w'"
proof -
  define v where "v = w\<lparr>inflight := remove1 p (inflight w)\<rparr>"
  have ow: "owned [] [] w" and sv: "served k L block [] [] w" using i by (simp_all add: program_inv_def)
  obtain d s where ov: "owned [p] [] v" and d: "io_heap v p = Some d" and ds: "iod_socket d = Some s" and k: "completing v p s"
    by (rule owned_take_over [OF ow p v_def])
  have run: "run_state (socket_io_routine os (user os) p res n) v = ((), w')"
    using w' by (simp add: complete_def v_def prod_eq_iff)
  have vw: "io_heap v = io_heap w" "cores v = cores w" "sockets v = sockets w" "faults v = faults w" by (simp_all add: v_def)
  have sv0: "served k L block [] [] v"
    by (rule served_frame [OF sv]) (use ownedD(1,2) [OF ov] in \<open>simp_all add: v_def\<close>)
  have blk: "block d" using sv0 d by (simp add: served_def)
  note sv1 = served_other_blocks [OF ov sv0]
  have "\<not> (handler_of (iod_user_handler d) = None \<or> cores v (ws_io_core (sock v s)) = None)"
    using not_silent [OF sv0 d ds] by simp
  with routine_run [OF c(1,2) blocks_private k d run] obtain wk d' errs
    where wk: "work_for (iod_user_handler d) p wk" and t: "told os errs wk" and cd: "completed res n errs d d'"
      and alt: "handed_over p wk d' v w' \<or> (\<exists>tr. called_here (user os) p wk d' tr v w')" by (simp only: if_False) blast
  have cs: "block d'" "work_ok p d' wk"
    using block_completed [OF blk cd] completed_work_ok [OF c(3) cd wk t] by simp_all
  have "faults w' = faults w \<and> served k L block [] [] w'"
    using alt
  proof
    assume h: "handed_over p wk d' v w'"
    have "served k L block [p] [next_addr v] w'"
      by (rule served_frame [of k L block "[p]" "[next_addr v]" v])
        (use sv1 h ownedD(1,2) [OF ov] d heap_wf_block [OF ownedD(1) [OF ov] d] in
          \<open>auto simp: served_def handed_over_def outer_frame_def heap_wf_def\<close>)
    then have "served k L block [] [] w'" using h cs by (intro served_post [of k L block p "next_addr v" w' d' wk]) (simp_all add: handed_over_def)
    then show ?thesis using h vw by (simp add: handed_over_def)
  next
    assume "\<exists>tr. called_here (user os) p wk d' tr v w'"
    then obtain w1 where w1: "faults w1 = faults v" "io_heap w1 = (io_heap v)(p \<mapsto> moved wk d')" "fn_heap w1 = fn_heap v"
        "heap_wf w1" "outer_frame v w1"
      and e: "let w2 = snd (run_state (user os (call_of wk d')) w1) in w' = w2\<lparr>io_heap := (io_heap w2)(p := None)\<rparr>"
      unfolding called_here_def by blast
    obtain w2 where r2: "run_state (user os (call_of wk d')) w1 = ((), w2)" by (rule unit_run)
    have "served k L block [p] [] w1"
      by (rule served_frame [OF sv1]) (use w1 ownedD(2) [OF ov] in \<open>auto simp: outer_frame_def\<close>)
    note h = served_handler [OF c(1) x work_call [OF cs] this r2]
    have w'2: "w' = w2\<lparr>io_heap := (io_heap w2)(p := None)\<rparr>" using e r2 by (simp add: Let_def)
    have "served k L block [] [] w'" by (rule served_delete [OF h(2) w'2])
    then show ?thesis using w'2 h(1) w1(1) vw by simp
  qed
  then show ?thesis
    using complete_owned [of os "user os", OF c(1,2) handlers [OF c(1)] blocks_private ow p w']
    by (simp add: program_inv_def)
qed

lemma calls_back_keeps:
  assumes c: "win_contract os" "acceptex_contract os" and x: "contract os" and i: "program_inv k L block w"
    and cb: "cb \<in> set (posted w)" and w': "w' = run_callback (user os) cb w"
  shows "faults w' = faults w \<and> program_inv k L block w'"
proof -
  define v where "v = w\<lparr>posted := remove1 cb (posted w)\<rparr>"
  have ow: "owned [] [] w" and sv: "served k L block [] [] w" using i by (simp_all add: program_inv_def)
  obtain wk where f: "fn_heap v (snd cb) = Some wk" and ov: "owned (closure_block (Some wk) @ []) [snd cb] v"
    by (rule owned_start_callback [OF ow cb v_def])
  have run: "run_state (pool_callback (user os) (snd cb)) v = ((), w')"
    using w' by (simp add: run_callback_def v_def prod_eq_iff)
  have sv0: "served k L block [] [] v"
    by (rule served_frame [OF sv]) (use ownedD(1,2) [OF ov] in \<open>simp_all add: v_def\<close>)
  then obtain p d where d: "io_heap v p = Some d" and wk: "work_ok p d wk" and blk: "block d"
    using f unfolding served_def by (metis empty_iff list.set(1))
  have wf: "work_for (iod_user_handler d) p wk" using wk by (simp add: work_ok_def)
  have op: "owned [p] [snd cb] v"
    using ov work_for_block [OF wf] heap_wf_block(1) [OF ownedD(1) [OF ov] d] by simp
  have "served k L block [] [snd cb] v" using sv0 by (simp add: served_def)
  note sv1 = served_other_blocks [OF op this]
  obtain w1 where w1: "w1 = v\<lparr>io_heap := (io_heap v)(p \<mapsto> moved wk d), invoked := invoked v @ [call_of wk d]\<rparr>"
    and wf1: "heap_wf w1"
    and e: "let w2 = snd (run_state (user os (call_of wk d)) w1) in
      w' = w2\<lparr>io_heap := (io_heap w2)(p := None), fn_heap := (fn_heap w2)(snd cb := None)\<rparr>"
    by (rule pool_callback_run [OF blocks_private ownedD(1) [OF op] f wf d run])
  obtain w2 where r2: "run_state (user os (call_of wk d)) w1 = ((), w2)" by (rule unit_run)
  have "lpfns_loaded w1" using ownedD(2) [OF op] w1 by (simp add: lpfns_loaded_def)
  then have "served k L block [p] [snd cb] w1" by (intro served_frame [OF sv1]) (use wf1 in \<open>simp_all add: w1\<close>)
  note h = served_handler [OF c(1) x work_call [OF blk wk] this r2]
  define w3 where "w3 = w2\<lparr>io_heap := (io_heap w2)(p := None)\<rparr>"
  have w'3: "w' = w3\<lparr>fn_heap := (fn_heap w3)(snd cb := None)\<rparr>" using e r2 by (simp add: Let_def w3_def)
  have "served k L block [] [] w'" by (rule served_delete_fn [OF served_delete [OF h(2) w3_def] w'3])
  moreover have nf: "faults w' = faults w" using w'3 h(1) w1 by (simp add: w3_def v_def)
  ultimately show ?thesis
    using callback_owned [of "user os", OF handlers [OF c(1)] blocks_private ow cb w' nf]
    by (simp add: program_inv_def)
qed

lemma happens_keeps:
  assumes "win_contract os" "acceptex_contract os" "acceptex_v4_contract os" "contract os" and "program_inv k L block w"
  shows "faults (happens os (user os) e w) = faults w \<and> program_inv k L block (happens os (user os) e w)"
  using assms completes_keeps [OF assms _ refl] calls_back_keeps [OF assms(1,2,4,5) _ refl] by (cases e) simp_all

lemma run_keeps:
  assumes c: "win_contract os" "acceptex_contract os" "acceptex_v4_contract os" "contract os"
  shows "holds (program_inv k L block) (run os (user os) k es)"
proof -
  have core: "holds (program_inv k L block) (read_core k)"
    by (rule tripleI) (auto simp: exec program_inv_def served_def serving_def)
  have ev: "holds (program_inv k L block) (modify (happens os (user os) e))" for e
    by (rule tripleI) (use happens_keeps [OF c] in auto)
  show ?thesis by (induction es) (simp_all only: run.simps, (intro holds_rules core ev | assumption)+)
qed

lemma happen_all_keeps:
  assumes c: "win_contract os" "acceptex_contract os" "acceptex_v4_contract os" "contract os"
  shows "holds (program_inv k L block) (happen_all os (user os) es)"
proof -
  have "faults (fold (happens os (user os)) es w) = faults w \<and> program_inv k L block (fold (happens os (user os)) es w)"
    if "program_inv k L block w" for w
    using that
  proof (induction es arbitrary: w)
    case (Cons e es)
    then show ?case using happens_keeps [OF c, of w e] by simp
  qed simp
  then show ?thesis by (intro tripleI) (auto simp: happen_all_def exec)
qed

end

section \<open>Completions while main shuts down\<close>

text \<open>After the first socket has been closed only completions may happen, and only if their work is accepted.\<close>

fun is_completion :: "event \<Rightarrow> bool" where
  "is_completion (Completes p io_result n) \<longleftrightarrow> True"
| "is_completion (Runs pl f) \<longleftrightarrow> False"

definition winding :: "core_id \<Rightarrow> sock_id list \<Rightarrow> sock_id list \<Rightarrow> 'o world \<Rightarrow> bool" where
  "winding k L F w \<longleftrightarrow> closing k L F w \<and> owned [] [] w"

definition late_ok :: "'o os \<Rightarrow> event list \<Rightarrow> bool" where
  "late_ok os es \<longleftrightarrow> es = [] \<or> accepting os \<and> list_all is_completion es"

lemma happens_winding:
  assumes c: "win_contract os" "acceptex_contract os" "accepting os" and i: "is_completion e" and w: "winding k L F w"
  shows "faults (happens os user e w) = faults w \<and> winding k L F (happens os user e w)"
proof (cases e)
  case (Completes p res n)
  show ?thesis
  proof (cases "p \<in> set (inflight w)")
    case True
    have o: "owned [] [] w" using w by (simp add: winding_def)
    from quiet_completion [OF c o True refl, of user res n] Completes True w show ?thesis
      by (simp add: winding_def closing_def sock_def)
  qed (use Completes w in simp)
qed (use i in simp)

lemma triple_late:
  assumes c: "win_contract os" "acceptex_contract os" and l: "late_ok os es"
  shows "holds (winding k L F) (happen_all os user es)"
proof -
  have "faults (fold (happens os user) es w) = faults w \<and> winding k L F (fold (happens os user) es w)"
    if "list_all is_completion es" "accepting os" "winding k L F w" for w
    using that
  proof (induction es arbitrary: w)
    case (Cons e es)
    then show ?case using happens_winding [OF c, of e k L F w user] by simp
  qed simp
  then show ?thesis using l by (intro tripleI) (auto simp: happen_all_def late_ok_def exec)
qed

lemma triple_close_winding:
  assumes s: "s \<in> set L"
  shows "triple (winding k L F) (close os s) (\<lambda>_. winding k L (s # F))"
proof (rule tripleI)
  fix w r w' assume w: "winding k L F w" and run: "run_state (close os s) w = (r, w')"
  then have t: "faults w' = faults w" "closing k L (s # F) w'" 
    using tripleD [OF triple_close [OF s], of k F w os r w'] by (simp_all add: winding_def)
  have "client_at (close os s) w" using client_close unfolding client_def by blast
  then have "owned [] [] w'" using w run t(1) by (auto simp: client_at_def winding_def Let_def)
  with t show "faults w' = faults w \<and> winding k L (s # F) w'" by (simp add: winding_def)
qed

lemma triple_close_then:
  assumes "win_contract os" "acceptex_contract os" "late_ok os es" and "s \<in> set L"
  shows "triple (winding k L F) (close_then os user es s) (\<lambda>_. winding k L (s # F))"
  unfolding close_then_def
  by (intro triple_bind [OF triple_close_winding [OF assms(4)]] triple_bind [OF triple_late [OF assms(1-3)]] holds_return)

section \<open>The parts of a main\<close>

lemma program_inv_winding: "program_inv k L block w \<Longrightarrow> winding k L [] w"
  by (auto simp: program_inv_def served_def serving_def serves_def closing_def winding_def)

lemma base_owned: "base k L w \<Longrightarrow> owned [] [] w"
  by (simp add: base_def pristine_def owned_def posted_blocks_def)

text \<open>The first operation that \<open>main\<close> starts.\<close>

lemma program_starts:
  assumes p: "base k L w" and s: "s \<in> set L" and m: "submitted s records w e w'"
    and b: "\<And>x d call. iod_socket d = Some s \<Longrightarrow> records x d call \<Longrightarrow> block d"
  shows "faults w' = faults w \<and> (if e = Success then program_inv k L block w' else closing k L [] w')"
proof -
  have f: "faults w' = faults w" "cores w' = cores w" "fn_heap w' = fn_heap w" "lpfns_loaded w'" "\<forall>s \<in> set L. serves k s w'"
    using m p by (auto simp: submitted_def start_frame_def base_def intro: serves_kept)
  have "program_inv k L block w'" if ok: "e = Success"
  proof -
    obtain d where d: "io_heap w' = (io_heap w)(next_addr w \<mapsto> d)" "block d"
      using m ok b by (auto simp: submitted_def)
    have "sockets w s \<noteq> None" using p s by (auto simp: base_def serves_def)
    then have o: "owned [] [] w'" using submitted_owned [OF base_owned [OF p] m] by simp
    show ?thesis
      using o ownedD(1) [OF o] f p d by (auto simp: program_inv_def served_def serving_def base_def pristine_def split: if_splits)
  qed
  moreover have "closing k L [] w'" using f p by (auto simp: closing_def serves_def base_def)
  ultimately show ?thesis using f(1) by simp
qed

text \<open>What holds when \<open>main\<close> has returned 0.\<close>

definition program_done :: "core_id \<Rightarrow> sock_id list \<Rightarrow> int option \<Rightarrow> 'o world \<Rightarrow> bool" where
  "program_done k L r w \<longleftrightarrow> (r = Some 0 \<longrightarrow> (\<forall>s \<in> set L. fresh (sock w s)) \<and> core_held k (core w k) = {#})"

lemma triple_fail:
  assumes "win_contract os"
  shows "triple (closing k L F) (do { release os k; State_Monad.return (Some (-1)) }) (program_done k M)"
  by (rule triple_bind [OF triple_release [OF assms]], rule triple_return) (simp add: program_done_def)

lemma triple_winding_fail:
  assumes "win_contract os"
  shows "triple (winding k L F) (do { release os k; State_Monad.return (Some (-1)) }) (program_done k M)"
  by (rule triple_conseq [OF triple_fail [OF assms]]) (auto simp: winding_def)

lemma triple_same: "triple P m (\<lambda>_. Q) \<Longrightarrow> triple P m (\<lambda>e w. if b e then Q w else Q w)"
  by simp

lemma triple_close_fail:
  assumes c: "win_contract os" and s: "s \<in> set L"
  shows "triple (closing k L F) (do { close os s; release os k; State_Monad.return (Some (-1)) }) (program_done k M)"
  by (rule triple_bind [OF triple_close [OF s]], rule triple_fail [OF c])

lemma triple_base_fail:
  assumes c: "win_contract os"
  shows "triple (base k L) (do { release os k; State_Monad.return (Some (-1)) }) (program_done k M)"
    and "s \<in> set L \<Longrightarrow> triple (base k L) (do { close os s; release os k; State_Monad.return (Some (-1)) }) (program_done k M)"
  by (rule triple_conseq [OF triple_fail [OF c] base_closing], assumption, assumption)
    (rule triple_conseq [OF triple_close_fail [OF c] base_closing], assumption+)

text \<open>The end: the last socket is closed and the core released.\<close>

lemma triple_finish:
  assumes c: "win_contract os" "acceptex_contract os" and l: "late_ok os es" and s: "s \<in> set L"
    and M: "set M \<subseteq> insert s (set F)"
  shows "triple (winding k L F) (do {
      err \<leftarrow> close_then os user es s;
      if err \<noteq> Success then do { release os k; State_Monad.return (Some (-1)) }
      else do {
        err \<leftarrow> release os k;
        if err \<noteq> Success then State_Monad.return (Some (-1)) else State_Monad.return (Some 0) } }) (program_done k M)"
proof (intro triple_check [OF triple_same [OF triple_close_then [OF c l s]] triple_winding_fail [OF c(1)]] triple_check)
  show "triple (winding k L (s # F)) (release os k) (\<lambda>e w. if e = Success then program_done k M (Some 0) w else True)"
    by (rule triple_conseq [OF triple_release [OF c(1), of k L "s # F"]])
      (use M in \<open>auto simp: program_done_def closing_def winding_def\<close>)
qed (auto intro: triple_return simp: program_done_def)

text \<open>The beginning, up to the creation of the first socket object.\<close>

lemma triple_begin:
  assumes c: "core_contract (os :: 'o os)"
    and f: "triple (\<lambda>w. base k [] w \<and> sockets w s = Some (WinSocket_default k)) (rest k s) (program_done k M)"
  shows "triple pristine (do {
      pending \<leftarrow> core_create os config junk_io junk_user k;
      (case pending of
         Inl _ \<Rightarrow> State_Monad.return (Some (-1))
       | Inr io_core \<Rightarrow> do {
           err \<leftarrow> initialize os io_core;
           if err \<noteq> Success then State_Monad.return (Some (-1))
           else do {
             pending \<leftarrow> socket_create (Some io_core) s;
             (case pending of
                Inl _ \<Rightarrow> do { release os io_core; State_Monad.return (Some (-1)) }
              | Inr sk \<Rightarrow> rest io_core sk) } }) }) (program_done k M)"
proof (rule triple_sum [OF triple_create [OF c]])
  have nil: "triple P (State_Monad.return (Some (-1))) (program_done k M)" for P :: "'o world \<Rightarrow> bool"
    by (rule triple_return) (simp add: program_done_def)
  show "triple (\<lambda>_ :: 'o world. True) (State_Monad.return (Some (-1))) (program_done k M)" by (rule nil)
  have i: "triple (base k []) (initialize os k) (\<lambda>e w. if e = Success then base k [] w else True)"
    by (rule triple_conseq [OF triple_initialize [OF c]]) auto
  have s: "triple (base k []) (do {
      pending \<leftarrow> socket_create (Some k) s;
      (case pending of Inl _ \<Rightarrow> do { release os k; State_Monad.return (Some (-1)) } | Inr sk \<Rightarrow> rest k sk) })
      (program_done k M)"
    by (rule triple_bind [OF triple_socket_create], simp, rule triple_pure) (simp add: f)
  show "triple (base k []) (do {
      err \<leftarrow> initialize os k;
      if err \<noteq> Success then State_Monad.return (Some (-1))
      else do {
        pending \<leftarrow> socket_create (Some k) s;
        (case pending of Inl _ \<Rightarrow> do { release os k; State_Monad.return (Some (-1)) } | Inr sk \<Rightarrow> rest k sk) } })
      (program_done k M)"
    by (rule triple_check [OF i nil s])
qed

text \<open>The state in which a handler of the socket \<open>s\<close> is called.\<close>

definition attended :: "core_id \<Rightarrow> sock_id \<Rightarrow> 'o world \<Rightarrow> bool" where
  "attended k s w \<longleftrightarrow> ready w s \<and> ws_io_core (sock w s) = k \<and> cores w k \<noteq> None"

lemma attended_stop:
  assumes "attended k s w"
  shows "run_state (stop_io_context s) w = ((), w\<lparr>cores := (cores w)(k \<mapsto> (core w k)\<lparr>core_stop_requested := 1\<rparr>)\<rparr>)"
  using assms stop_io_context_run [of w s] by (auto simp: attended_def ready_def sock_Some)

lemma attended_submitted:
  assumes "attended k s w" and "submitted s records w err w'"
  shows "attended k s w'"
proof -
  obtain x where x: "sockets w s = Some x" "created x" "ws_io_core x = k"
    using assms(1) by (auto simp: attended_def ready_def sock_Some)
  then obtain b where "sockets w' s = Some (x\<lparr>ws_is_bound := b\<rparr>)"
    using assms(2) unfolding submitted_def start_frame_def sockets_kept_def by blast
  then show ?thesis
    using assms x by (auto simp: attended_def ready_def sock_Some submitted_def start_frame_def created_def heap_wf_def
        split: if_splits)
qed

section \<open>A system for examples\<close>

text \<open>It answers every query for the addresses of a connection with port 80 of 127.0.0.1.\<close>

definition v4_sockaddr :: "byte list" where
  "v4_sockaddr = [2, 0, 0, 80, 127, 0, 0, 1]"

fun asks_address :: "syscall \<Rightarrow> bool" where
  "asks_address (GetAcceptExSockaddrs f p m n) \<longleftrightarrow> True"
| "asks_address (Ws (Getsockname h n)) \<longleftrightarrow> True"
| "asks_address (Ws (Getpeername h n)) \<longleftrightarrow> True"
| "asks_address _ \<longleftrightarrow> False"

definition loopback_os :: "unit os" where
  "loopback_os c u =
     ((if asks_address c then (fst (sample_os c u))\<lparr>buf0 := v4_sockaddr, buf1 := v4_sockaddr\<rparr> else fst (sample_os c u)), u)"

lemma loopback_ret:
  "ret (sys_ret loopback_os c w) = ret (fst (sample_os c ()))" "out0 (sys_ret loopback_os c w) = out0 (fst (sample_os c ()))"
  "queued (sys_ret loopback_os c w) = queued (fst (sample_os c ()))"
  by (simp_all add: sys_ret_def loopback_os_def)

lemma sample_fields:
  "ret (sys_ret sample_os c w) = ret (fst (sample_os c ()))" "out0 (sys_ret sample_os c w) = out0 (fst (sample_os c ()))"
  "queued (sys_ret sample_os c w) = queued (fst (sample_os c ()))"
  by (simp_all add: sys_ret_def)

lemma le16_2: "uint (le16 2 0) = 2"
  by code_simp

lemma v4_sockaddr_family: "ss_family (store_sockaddr v4_sockaddr sa) = AF_INET"
  by (simp add: v4_sockaddr_def store_sockaddr_def sockaddr_size_def ss_family_def AF_INET_def read_u16_def le16_2)

lemma loopback_contracts:
  "core_contract loopback_os" "win_contract loopback_os" "acceptex_contract loopback_os" "acceptex_v4_contract loopback_os"
proof -
  show "core_contract loopback_os"
    using sample_core_contract
    unfolding core_contract_def tp_contract_def wsa_contract_def opt_contract_def ioctl_contract_def loopback_ret sample_fields .
  show "win_contract loopback_os"
    using sample_win_contract
    unfolding win_contract_def overlapped_contract_def submit_contract_def wsa_contract_def opt_contract_def tpio_contract_def
      Let_def loopback_ret sample_fields .
  show "acceptex_contract loopback_os"
    by (simp add: acceptex_contract_def sys_ret_def loopback_os_def v4_sockaddr_def sockaddr_size_def)
  show "acceptex_v4_contract loopback_os"
    by (simp add: acceptex_v4_contract_def sys_ret_def loopback_os_def v4_sockaddr_family)
qed

lemma loopback_accepting: "accepting loopback_os"
  by (simp add: accepting_def sys_ret_def loopback_os_def sample_os_def)

lemma bare_pristine: "pristine bare_world"
  by (simp add: pristine_def bare_world_def sample_world_def heap_wf_def)

end
