(* ===== verification/Echo_Server.thy ===== *)
theory Echo_Server
  imports Event_Program
begin

text \<open>
  The asynchronous echo server, \<open>async_echo_server.cpp\<close>: its handlers as programs over the library,
  its \<open>main\<close>, and the proof that a run of it, from \<open>create\<close> to \<open>release\<close>, does nothing undefined as
  long as no posted handler runs after the first socket has been closed.  What it prints is not modelled, but the
  conversions it makes for printing are, since they can be undefined.  Destructors of the local
  objects of \<open>main\<close> are not part of the model.
\<close>

section \<open>Handlers\<close>

text \<open>The functions that are passed as handlers, by number.\<close>

definition server_accept_id :: nat where "server_accept_id = 0"
definition server_send_id :: nat where "server_send_id = 1"
definition server_recv_id :: nat where "server_recv_id = 2"

definition on_accept_complete :: "ntop_fn \<Rightarrow> 'o os \<Rightarrow> sock_id option \<Rightarrow> sock_id option \<Rightarrow> Endpoint \<Rightarrow> Endpoint \<Rightarrow>
    ErrorCode \<Rightarrow> ('o, unit) prog" where
  "on_accept_complete ntop os caller accepted_socket local_endpoint peer_endpoint error = do {
     c \<leftarrow> deref_sock caller;
     if error \<noteq> Success then stop_io_context c
     else do {
       s \<leftarrow> read_sock c;
       lift_cpp [] (inet_ntop ntop (ws_addr_family s) local_endpoint);
       accepted \<leftarrow> deref_sock accepted_socket;
       a \<leftarrow> read_sock accepted;
       lift_cpp [] (inet_ntop ntop (ws_addr_family a) peer_endpoint);
       err \<leftarrow> start_recv get_recv_span (Some server_recv_id) os accepted;
       if err \<noteq> Success then stop_io_context c else State_Monad.return () } }"

definition on_send_complete :: "sock_id option \<Rightarrow> ErrorCode \<Rightarrow> int \<Rightarrow> ('o, unit) prog" where
  "on_send_complete caller error bytes_transferred =
     (if error \<noteq> Success then do {
        c \<leftarrow> deref_sock caller;
        stop_io_context c }
      else State_Monad.return ())"

definition on_recv_complete :: "'o os \<Rightarrow> sock_id option \<Rightarrow> ErrorCode \<Rightarrow> int \<Rightarrow> ('o, unit) prog" where
  "on_recv_complete os caller error bytes_transferred = do {
     c \<leftarrow> deref_sock caller;
     if error \<noteq> Success then stop_io_context c
     else if bytes_transferred < 0 then stop_io_context c
     else if bytes_transferred = 0 then stop_io_context c
     else do {
       memcpy (sp_data get_recv_span) (literal ''server test'') 12;
       err \<leftarrow> start_send get_recv_span (Some server_send_id) os c;
       if err \<noteq> Success then stop_io_context c
       else do {
         err \<leftarrow> start_recv get_recv_span (Some server_recv_id) os c;
         if err \<noteq> Success then stop_io_context c else State_Monad.return () } } }"

text \<open>The handlers as the library calls them.\<close>

fun server_user :: "ntop_fn \<Rightarrow> 'o os \<Rightarrow> 'o user" where
  "server_user ntop os (Accept_Call n c a l p e) = on_accept_complete ntop os c a l p e"
| "server_user ntop os (Write_Call n c e b) = on_send_complete c e b"
| "server_user ntop os (Read_Call n c e b) = on_recv_complete os c e b"
| "server_user ntop os _ = State_Monad.return ()"

section \<open>main\<close>

definition server_config :: IOCoreConfig where
  "server_config = \<lparr>io_threadpool_min_threads = 2, io_threadpool_max_threads = 2,
     user_threadpool_min_threads = 2, user_threadpool_max_threads = 2\<rparr>"

definition listener_ep :: Endpoint where
  "listener_ep = Ep_V4 \<lparr>v4_bytes = [127, 0, 0, 1], v4_port = 63000\<rparr>"

text \<open>The end of \<open>main\<close>, after \<open>run\<close> has returned; \<open>late\<close> are the events that happen meanwhile.\<close>

definition server_shutdown :: "'o os \<Rightarrow> 'o user \<Rightarrow> core_id \<Rightarrow> sock_id \<Rightarrow> sock_id \<Rightarrow> (nat \<Rightarrow> event list) \<Rightarrow>
    ('o, int option) prog" where
  "server_shutdown os user io_core sk accept_sk late = do {
     happen_all os user (late 0);
     err \<leftarrow> close_then os user (late 1) accept_sk;
     if err \<noteq> Success then do { release os io_core; State_Monad.return (Some (-1)) }
     else do {
       err \<leftarrow> close_then os user (late 2) sk;
       if err \<noteq> Success then do { release os io_core; State_Monad.return (Some (-1)) }
       else do {
         err \<leftarrow> release os io_core;
         if err \<noteq> Success then State_Monad.return (Some (-1)) else State_Monad.return (Some 0) } } }"

text \<open>
  From the second object on: the accepting socket, \<open>start_accept\<close> and \<open>run\<close>.  Should the object
  not be created, the message reads the error of the first one, which holds a value.
\<close>

definition server_accept :: "ntop_fn \<Rightarrow> 'o os \<Rightarrow> core_id \<Rightarrow> sock_id \<Rightarrow> sock_id \<Rightarrow> event list \<Rightarrow>
    (nat \<Rightarrow> event list) \<Rightarrow> ('o, int option) prog" where
  "server_accept ntop os io_core sk new_accept schedule late = do {
     pending \<leftarrow> socket_create (Some io_core) new_accept;
     (case pending of
        Inl _ \<Rightarrow> do {
          raise_fault Bad_Expected_Access;
          close os sk; release os io_core; State_Monad.return (Some (-1)) }
      | Inr accept_sk \<Rightarrow> do {
          err \<leftarrow> socket os accept_sk AF_IPv4 ST_Stream Pr_Tcp;
          if err \<noteq> Success then do { close os sk; release os io_core; State_Monad.return (Some (-1)) }
          else do {
            err \<leftarrow> start_accept (Some accept_sk) (Some server_accept_id) os sk;
            if err \<noteq> Success then do {
              close os sk; close os accept_sk; release os io_core; State_Monad.return (Some (-1)) }
            else do {
              returned \<leftarrow> run os (server_user ntop os) io_core schedule;
              if returned then server_shutdown os (server_user ntop os) io_core sk accept_sk late
              else State_Monad.return None } } }) }"

text \<open>The listening socket, from \<open>socket\<close> to \<open>listen\<close>.\<close>

definition server_listen :: "ntop_fn \<Rightarrow> 'o os \<Rightarrow> core_id \<Rightarrow> sock_id \<Rightarrow> sock_id \<Rightarrow> event list \<Rightarrow>
    (nat \<Rightarrow> event list) \<Rightarrow> ('o, int option) prog" where
  "server_listen ntop os io_core sk new_accept schedule late = do {
     err \<leftarrow> socket os sk AF_IPv4 ST_Stream Pr_Tcp;
     if err \<noteq> Success then do { release os io_core; State_Monad.return (Some (-1)) }
     else do {
       err \<leftarrow> bind_ep os sk listener_ep;
       if err \<noteq> Success then do { release os io_core; State_Monad.return (Some (-1)) }
       else do {
         lift_cpp [] (inet_ntop ntop AF_IPv4 listener_ep);
         err \<leftarrow> listen os sk 5;
         if err \<noteq> Success then do { close os sk; release os io_core; State_Monad.return (Some (-1)) }
         else server_accept ntop os io_core sk new_accept schedule late } } }"

text \<open>The result is the exit code, \<open>None\<close> when the schedule ends while \<open>main\<close> is still in \<open>run\<close>.\<close>

definition server_main :: "ntop_fn \<Rightarrow> 'o os \<Rightarrow> threadpool \<Rightarrow> threadpool \<Rightarrow> core_id \<Rightarrow> sock_id \<Rightarrow> sock_id \<Rightarrow> event list \<Rightarrow>
    (nat \<Rightarrow> event list) \<Rightarrow> ('o, int option) prog" where
  "server_main ntop os junk_io junk_user new_core new_sock new_accept schedule late = do {
     pending \<leftarrow> core_create os server_config junk_io junk_user new_core;
     (case pending of
        Inl _ \<Rightarrow> State_Monad.return (Some (-1))
      | Inr io_core \<Rightarrow> do {
          err \<leftarrow> initialize os io_core;
          if err \<noteq> Success then State_Monad.return (Some (-1))
          else do {
            pending \<leftarrow> socket_create (Some io_core) new_sock;
            (case pending of
               Inl _ \<Rightarrow> do { release os io_core; State_Monad.return (Some (-1)) }
             | Inr sk \<Rightarrow> server_listen ntop os io_core sk new_accept schedule late) } }) }"

section \<open>The server as a program\<close>

text \<open>The operations the server starts, on the listening socket \<open>l\<close> and the accepted socket \<open>a\<close>.\<close>

definition server_block :: "sock_id \<Rightarrow> sock_id \<Rightarrow> IOData \<Rightarrow> bool" where
  "server_block l a d \<longleftrightarrow>
     iod_user_handler d = AcceptHandler (Some server_accept_id) \<and> iod_socket d = Some l \<and> iod_accept_socket d = Some a \<or>
     (iod_user_handler d = ReadHandler (Some server_recv_id) \<or> iod_user_handler d = WriteHandler (Some server_send_id)) \<and>
     (iod_socket d = Some l \<or> iod_socket d = Some a)"

text \<open>The calls that the library makes to its handlers.\<close>

fun server_call :: "sock_id \<Rightarrow> sock_id \<Rightarrow> invocation \<Rightarrow> bool" where
  "server_call l a (Accept_Call n c acc lo pe e) \<longleftrightarrow>
     c = Some l \<and> (e = Success \<longrightarrow> acc = Some a \<and> is_v4 lo \<and> is_v4 pe)"
| "server_call l a (Read_Call n c e b) \<longleftrightarrow> c = Some l \<or> c = Some a"
| "server_call l a (Write_Call n c e b) \<longleftrightarrow> c = Some l \<or> c = Some a"
| "server_call l a _ \<longleftrightarrow> True"

lemma server_client:
  assumes "win_contract os"
  shows "client (server_user ntop os call)"
  by (cases call; simp only: server_user.simps on_accept_complete_def on_send_complete_def on_recv_complete_def)
    (intro client_rules client_start [OF win_contractD(1) [OF assms]])+

lemma server_private: "private_from p (server_user ntop os call)"
  by (cases call; simp only: server_user.simps on_accept_complete_def on_send_complete_def on_recv_complete_def)
    (intro private_rules)+

lemma server_starts:
  assumes "win_contract os" and "s = l \<or> s = a"
  shows "holds (acting k [l, a] (server_block l a) w0) (start_recv u (Some server_recv_id) os s)"
    and "holds (acting k [l, a] (server_block l a) w0) (start_send u (Some server_send_id) os s)"
  using assms(2)
  by (auto intro!: holds_start_recv [OF assms(1)] holds_start_send [OF assms(1)]
      simp: server_block_def recv_records_def send_records_def)

lemma server_handler:
  assumes c: "win_contract os" and call: "server_call l a call"
  shows "holds (acting k [l, a] (server_block l a) w0) (server_user ntop os call)"
proof (cases call)
  case (Accept_Call n caller acc lo pe e)
  have l: "caller = Some l" using call Accept_Call by simp
  show ?thesis
  proof (cases "e = Success")
    case False
    then show ?thesis using Accept_Call l holds_stop [of l "[l, a]"] by (simp add: on_accept_complete_def deref_sock_def)
  next
    case True
    then have a: "acc = Some a" "is_v4 lo" "is_v4 pe" using call Accept_Call by simp_all
    have e: "server_user ntop os call = do {
        s \<leftarrow> read_sock l;
        lift_cpp [] (inet_ntop ntop (ws_addr_family s) lo);
        x \<leftarrow> read_sock a;
        lift_cpp [] (inet_ntop ntop (ws_addr_family x) pe);
        err \<leftarrow> start_recv get_recv_span (Some server_recv_id) os a;
        if err \<noteq> Success then stop_io_context l else State_Monad.return () }"
      using Accept_Call True l a by (simp add: on_accept_complete_def deref_sock_def)
    show ?thesis
      unfolding e
      by (intro triple_bind [OF triple_family] triple_pure holds_rules server_starts [OF c] holds_stop)
        (use holds_text a in auto)
  qed
next
  case (Read_Call n caller e b)
  then obtain s where s: "caller = Some s" "s = l \<or> s = a" using call by auto
  show ?thesis
    unfolding Read_Call server_user.simps on_recv_complete_def s deref_sock_def
    by (simp add: literal_def) (intro conjI impI holds_rules holds_stop holds_memcpy server_starts [OF c] s; use s in auto)
next
  case (Write_Call n caller e b)
  then obtain s where s: "caller = Some s" "s = l \<or> s = a" using call by auto
  then show ?thesis
    unfolding Write_Call server_user.simps on_send_complete_def s deref_sock_def
    by (simp add: holds_return holds_stop)
qed (simp_all add: holds_return)

interpretation server: event_program "server_user ntop" "\<lambda>_. True" k "[l, a]" "server_block l a" "server_call l a" for ntop k l a
proof (unfold_locales, goal_cases)
  case (1 os call)
  then show ?case by (rule server_client)
next
  case (2 os)
  show ?case by (rule private_keeps_blocks [OF server_private])
next
  case (3 d)
  then show ?case by (auto simp: server_block_def)
next
  case (4 d res n errs d')
  then show ?case by (auto simp: server_block_def completed_def)
next
  case (5 d p wk)
  then show ?case by (auto simp: server_block_def work_ok_def)
next
  case (6 os call w0)
  then show ?case by (intro server_handler)
qed

interpretation server_sized: sized_application "server_user ntop" for ntop
proof
  show "lengths_kept (server_user ntop os call)" for os call
    by (cases call; simp only: server_user.simps on_accept_complete_def on_send_complete_def on_recv_complete_def)
      (intro sized_rules)+
qed

section \<open>The whole program\<close>

abbreviation server_inv :: "core_id \<Rightarrow> sock_id \<Rightarrow> sock_id \<Rightarrow> 'o world \<Rightarrow> bool" where
  "server_inv k l a \<equiv> program_inv k [l, a] (server_block l a)"

lemma triple_start_accept:
  assumes c: "win_contract os"
  shows "triple (base k [l, a]) (start_accept (Some a) (Some server_accept_id) os l)
    (\<lambda>e w. if e = Success then server_inv k l a w else closing k [l, a] [] w)"
proof (rule tripleI)
  fix w e w' assume p: "base k [l, a] w" and run: "run_state (start_accept (Some a) (Some server_accept_id) os l) w = (e, w')"
  have "ready w l" "acceptor_ok (Some a) os l w"
    using p by (auto simp: base_def pristine_def ready_def serves_def sock_Some acceptor_ok_def)
  from program_starts [OF p _ accept_start.submits [OF c this run]]
  show "faults w' = faults w \<and> (if e = Success then server_inv k l a w' else closing k [l, a] [] w')"
    by (simp add: accept_records_def server_block_def)
qed

lemma triple_shutdown:
  assumes c: "win_contract os" "acceptex_contract os" "acceptex_v4_contract os" and l: "\<forall>i > 0. late_ok os (late i)"
  shows "triple (server_inv k l a) (server_shutdown os (server_user ntop os) k l a late) (program_done k [l, a])"
proof -
  have e: "late_ok os (late 1)" "late_ok os (late 2)" using l by simp_all
  have h: "triple (server_inv k l a) (happen_all os (server_user ntop os) (late 0)) (\<lambda>_. winding k [l, a] [])"
    by (rule triple_conseq [OF server.happen_all_keeps [OF c TrueI]]) (auto intro: program_inv_winding)
  show ?thesis
    unfolding server_shutdown_def
    by (intro triple_bind [OF h] triple_check [OF triple_same [OF triple_close_then [OF c(1,2) e(1)]] triple_winding_fail [OF c(1)]]
        triple_finish [OF c(1,2) e(2)]) auto
qed

lemma triple_serve:
  assumes c: "win_contract os" "acceptex_contract os" "acceptex_v4_contract os" and l: "\<forall>i > 0. late_ok os (late i)"
  shows "triple (server_inv k l a) (do {
      returned \<leftarrow> run os (server_user ntop os) k schedule;
      if returned then server_shutdown os (server_user ntop os) k l a late else State_Monad.return None }) (program_done k [l, a])"
  by (rule triple_bind [OF server.run_keeps [OF c TrueI]], rule triple_if [OF triple_shutdown [OF c l]], rule triple_return)
    (simp add: program_done_def)

lemma triple_accept:
  assumes c: "win_contract os" "acceptex_contract os" "acceptex_v4_contract os" and la: "\<forall>i > 0. late_ok os (late i)" and a: "a \<noteq> l"
  shows "triple (base k [l]) (server_accept ntop os k l a schedule late) (program_done k [l, a])"
  unfolding server_accept_def
proof (rule triple_bind [OF triple_socket_create], use a in simp, rule triple_pure, simp)
  have cl2: "triple (closing k [l, a] []) (do { close os l; close os a; release os k; State_Monad.return (Some (-1)) })
      (program_done k [l, a])"
    by (rule triple_bind [OF triple_close triple_close_fail [OF c(1)]]) simp_all
  have so: "triple (\<lambda>w. base k [l] w \<and> sockets w a = Some (WinSocket_default k)) (socket os a AF_IPv4 ST_Stream Pr_Tcp)
      (\<lambda>e w. if e = Success then base k [l, a] w else base k [l] w)"
    by (rule triple_conseq [OF triple_socket [OF c(1), of a "[l]"]]) (use a in \<open>auto simp: base_def split: if_splits\<close>)
  show "triple (\<lambda>w. base k [l] w \<and> sockets w a = Some (WinSocket_default k)) (do {
          err \<leftarrow> socket os a AF_IPv4 ST_Stream Pr_Tcp;
          if err \<noteq> Success then do { close os l; release os k; State_Monad.return (Some (-1)) }
          else do {
            err \<leftarrow> start_accept (Some a) (Some server_accept_id) os l;
            if err \<noteq> Success then do {
              close os l; close os a; release os k; State_Monad.return (Some (-1)) }
            else do {
              returned \<leftarrow> run os (server_user ntop os) k schedule;
              if returned then server_shutdown os (server_user ntop os) k l a late else State_Monad.return None } } }) (program_done k [l, a])"
    by (intro triple_check [OF so triple_base_fail(2) [OF c(1)]] triple_check [OF triple_start_accept [OF c(1)] cl2]
        triple_serve [OF c la]) simp
qed

lemma listener_ep_ok: "is_v4 listener_ep" "wf_endpoint listener_ep"
  by (simp_all add: listener_ep_def wf_v4_def)

lemma triple_server_listen:
  assumes c: "win_contract os" "acceptex_contract os" "acceptex_v4_contract os" and la: "\<forall>i > 0. late_ok os (late i)" and a: "a \<noteq> l"
  shows "triple (\<lambda>w. base k [] w \<and> sockets w l = Some (WinSocket_default k))
    (server_listen ntop os k l a schedule late) (program_done k [l, a])"
  unfolding server_listen_def
  by (intro triple_check [OF triple_socket [OF c(1)] triple_base_fail(1) [OF c(1)]]
      triple_check [OF triple_same [OF triple_bind_ep [OF c(1)]] triple_base_fail(1) [OF c(1)]]
      triple_bind [OF holds_text] triple_check [OF triple_same [OF triple_listen] triple_base_fail(2) [OF c(1)]]
      triple_accept [OF c la a])
    (simp_all add: listener_ep_ok)

lemma server_main_triple:
  assumes c: "core_contract os" "win_contract os" "acceptex_contract os" "acceptex_v4_contract os"
    and la: "\<forall>i > 0. late_ok os (late i)" and a: "a \<noteq> l"
  shows "triple pristine (server_main ntop os junk_io junk_user k l a schedule late) (program_done k [l, a])"
  unfolding server_main_def by (rule triple_begin [OF c(1)], rule triple_server_listen [OF c(2-4) la a])

text \<open>The overlapped calls of a run, with the answer whether the system has taken the operation over.\<close>

fun ov_answer :: "syscall \<times> sysret \<Rightarrow> (ov_call \<times> bool) list" where
  "ov_answer (Ov call p, r) = [(call, queued r)]"
| "ov_answer _ = []"

definition ov_answers :: "(syscall \<times> sysret) list \<Rightarrow> (ov_call \<times> bool) list" where
  "ov_answers tr = concat (map ov_answer tr)"

text \<open>The core has been asked to stop, and nothing else of the cores has changed.\<close>

definition stopped :: "core_id \<Rightarrow> 'o world \<Rightarrow> 'o world \<Rightarrow> bool" where
  "stopped k w w' \<longleftrightarrow> cores w' = (cores w)(k \<mapsto> (core w k)\<lparr>core_stop_requested := 1\<rparr>)"

text \<open>A start on an open socket makes its overlapped call, and succeeds exactly when the system takes the operation over.\<close>

lemma submit_answer:
  assumes c: "overlapped_contract os" and h: "h \<noteq> nullptr" and p: "io_heap w p = Some d" "p \<noteq> 0"
    and run: "run_state (submit_overlapped os h call p) w = (err, w')"
  shows "\<exists>tr. os_trace w' = os_trace w @ tr \<and> ov_answers tr = [(call, err = Success)]"
proof -
  let ?w = "after os (Io (StartThreadpoolIo h)) w"
  note e = overlapped_contractD [OF c, of call p ?w]
  show ?thesis using run e h p by (auto simp: submit_overlapped_def exec ov_answers_def split: if_splits)
qed

lemma start_answers:
  assumes c: "win_contract os" and r: "ready w s"
  shows "run_state (start_send b h os s) w = (err, w') \<Longrightarrow>
      \<exists>tr. os_trace w' = os_trace w @ tr \<and> ov_answers tr = [(WSASend (ws_socket (sock w s)) b (of_nat (sp_size b)), err = Success)]"
    and "run_state (start_recv b h os s) w = (err, w') \<Longrightarrow>
      \<exists>tr. os_trace w' = os_trace w @ tr \<and> ov_answers tr = [(WSARecv (ws_socket (sock w s)) b (of_nat (sp_size b)), err = Success)]"
proof -
  obtain x where x: "sockets w s = Some x" "ws_io_handle x \<noteq> nullptr" "0 < next_addr w"
    using r by (auto simp: ready_def sock_Some created_def heap_wf_def)
  let ?w = "\<lambda>d. w\<lparr>io_heap := (io_heap w)(next_addr w \<mapsto> d), next_addr := next_addr w + 1\<rparr>"
  have a: "\<exists>tr. os_trace w' = os_trace w @ tr \<and> ov_answers tr = [(call, err = Success)]"
    if "run_state (submit_overlapped os (ws_io_handle x) call (next_addr w)) (?w d) = (err, w')" for d call
    using submit_answer [OF win_contractD(1) [OF c] x(2) _ _ that] x(3) by auto
  show "\<exists>tr. os_trace w' = os_trace w @ tr \<and> ov_answers tr = [(WSASend (ws_socket (sock w s)) b (of_nat (sp_size b)), err = Success)]"
    if "run_state (start_send b h os s) w = (err, w')"
    by (rule a) (use that x in \<open>simp add: start_send_def exec sock_Some\<close>)
  show "\<exists>tr. os_trace w' = os_trace w @ tr \<and> ov_answers tr = [(WSARecv (ws_socket (sock w s)) b (of_nat (sp_size b)), err = Success)]"
    if "run_state (start_recv b h os s) w = (err, w')"
    by (rule a) (use that x in \<open>simp add: start_recv_def exec sock_Some\<close>)
qed

lemma ov_answers_new:
  assumes "os_trace w1 = os_trace w @ tr1" "os_trace w2 = os_trace w1 @ tr2"
  shows "ov_answers (new_trace w w2) = ov_answers tr1 @ ov_answers tr2"
  using assms by (simp add: new_trace_def ov_answers_def)

abbreviation reply_call :: "sock_id \<Rightarrow> 'o world \<Rightarrow> ov_call" where
  "reply_call s w \<equiv> WSASend (ws_socket (sock w s)) get_recv_span 512"

abbreviation next_call :: "sock_id \<Rightarrow> 'o world \<Rightarrow> ov_call" where
  "next_call s w \<equiv> WSARecv (ws_socket (sock w s)) get_recv_span 512"

text \<open>The send and the receive after it, from the state \<open>w0\<close> in which the reply is in the buffer.\<close>

lemma echo_starts:
  assumes c: "win_contract os" and at0: "attended k s w0"
    and r1: "run_state (start_send get_recv_span (Some server_send_id) os s) w0 = (e1, w1)"
    and r2: "run_state (start_recv get_recv_span (Some server_recv_id) os s) w1 = (e2, w2)"
  shows "submitted s (send_records get_recv_span (Some server_send_id)) w0 e1 w1"
    "submitted s (recv_records get_recv_span (Some server_recv_id)) w1 e2 w2" "attended k s w1" "attended k s w2"
    "umem w1 = umem w0" "umem w2 = umem w0" "cores w1 = cores w0" "cores w2 = cores w0" "faults w1 = faults w0" "faults w2 = faults w0"
    "ov_answers (new_trace w0 w1) = [(reply_call s w0, e1 = Success)]"
    "ov_answers (new_trace w0 w2) = [(reply_call s w0, e1 = Success), (next_call s w0, e2 = Success)]"
proof -
  have rd: "ready w0 s" using at0 by (simp add: attended_def)
  show s1: "submitted s (send_records get_recv_span (Some server_send_id)) w0 e1 w1" by (rule send_start.submits [OF c rd TrueI r1])
  show at1: "attended k s w1" by (rule attended_submitted [OF at0 s1])
  then have rd1: "ready w1 s" by (simp add: attended_def)
  show s2: "submitted s (recv_records get_recv_span (Some server_recv_id)) w1 e2 w2" by (rule recv_start.submits [OF c rd1 TrueI r2])
  show "attended k s w2" by (rule attended_submitted [OF at1 s2])
  show "umem w1 = umem w0" "umem w2 = umem w0" using umem_start(2) [OF r1] umem_start(1) [OF r2] by simp_all
  show "cores w1 = cores w0" "cores w2 = cores w0" "faults w1 = faults w0" "faults w2 = faults w0"
    using s1 s2 by (simp_all add: submitted_def start_frame_def)
  obtain x where x: "sockets w0 s = Some x" "created x" using rd by (auto simp: ready_def sock_Some)
  moreover have "sockets_kept w0 w1" using s1 by (simp add: submitted_def start_frame_def)
  ultimately obtain b where x1: "sockets w1 s = Some (x\<lparr>ws_is_bound := b\<rparr>)" unfolding sockets_kept_def by blast
  have so: "ws_socket (sock w1 s) = ws_socket (sock w0 s)" using x x1 by (simp add: sock_Some)
  obtain tr1 where t1: "os_trace w1 = os_trace w0 @ tr1" "ov_answers tr1 = [(reply_call s w0, e1 = Success)]"
    using start_answers(1) [OF c rd r1] by (auto simp: get_recv_span_def)
  obtain tr2 where t2: "os_trace w2 = os_trace w1 @ tr2" "ov_answers tr2 = [(next_call s w0, e2 = Success)]"
    using start_answers(2) [OF c rd1 r2] so by (auto simp: get_recv_span_def)
  show "ov_answers (new_trace w0 w1) = [(reply_call s w0, e1 = Success)]"
    using ov_answers_new [of w1 w0 tr1 w1 "[]"] t1 by (simp add: ov_answers_def)
  show "ov_answers (new_trace w0 w2) = [(reply_call s w0, e1 = Success), (next_call s w0, e2 = Success)]"
    using ov_answers_new [OF t1(1) t2(1)] t1(2) t2(2) by simp
qed

lemma echo_blocks:
  assumes s1: "submitted s (send_records get_recv_span (Some server_send_id)) w0 Success w1"
    and s2: "submitted s (recv_records get_recv_span (Some server_recv_id)) w1 Success w2"
  shows "\<exists>d e. inflight w2 = inflight w0 @ [next_addr w0, next_addr w0 + 1] \<and>
    io_heap w2 = (io_heap w0)(next_addr w0 \<mapsto> d, next_addr w0 + 1 \<mapsto> e) \<and>
    iod_socket d = Some s \<and> iod_user_handler d = WriteHandler (Some server_send_id) \<and> iod_user_buffer d = get_recv_span \<and>
    iod_socket e = Some s \<and> iod_user_handler e = ReadHandler (Some server_recv_id) \<and> iod_user_buffer e = get_recv_span"
proof -
  obtain d where d: "io_heap w1 = (io_heap w0)(next_addr w0 \<mapsto> d)" "inflight w1 = inflight w0 @ [next_addr w0]"
      "next_addr w1 = next_addr w0 + 1" "iod_socket d = Some s" "iod_user_handler d = WriteHandler (Some server_send_id)"
      "iod_user_buffer d = get_recv_span"
    using s1 by (auto simp: submitted_def send_records_def)
  obtain e where e: "io_heap w2 = (io_heap w1)(next_addr w1 \<mapsto> e)" "inflight w2 = inflight w1 @ [next_addr w1]"
      "iod_socket e = Some s" "iod_user_handler e = ReadHandler (Some server_recv_id)" "iod_user_buffer e = get_recv_span"
    using s2 by (auto simp: submitted_def recv_records_def)
  show ?thesis by (rule exI [of _ d], rule exI [of _ e]) (use d e in simp)
qed

lemma server_echo:
  assumes c: "win_contract os" and at: "attended k s w" and n: "0 < n"
    and run: "run_state (on_recv_complete os (Some s) Success n) w = ((), w')"
  shows "faults w' = faults w \<and> load_span w' \<lparr>sp_data = get_recv_buffer, sp_size = 12\<rparr> = literal ''server test'' \<and>
    (ov_answers (new_trace w w') = [(reply_call s w, False)] \<and> stopped k w w' \<and> inflight w' = inflight w \<and> io_heap w' = io_heap w \<or>
     ov_answers (new_trace w w') = [(reply_call s w, True), (next_call s w, False)] \<and> stopped k w w' \<and>
       inflight w' = inflight w @ [next_addr w] \<or>
     ov_answers (new_trace w w') = [(reply_call s w, True), (next_call s w, True)] \<and> cores w' = cores w \<and>
     (\<exists>d e. inflight w' = inflight w @ [next_addr w, next_addr w + 1] \<and>
        io_heap w' = (io_heap w)(next_addr w \<mapsto> d, next_addr w + 1 \<mapsto> e) \<and>
        iod_socket d = Some s \<and> iod_user_handler d = WriteHandler (Some server_send_id) \<and> iod_user_buffer d = get_recv_span \<and>
        iod_socket e = Some s \<and> iod_user_handler e = ReadHandler (Some server_recv_id) \<and> iod_user_buffer e = get_recv_span))"
proof -
  define w0 where "w0 = w\<lparr>umem := store_bytes get_recv_buffer (literal ''server test'') (umem w)\<rparr>"
  have at0: "attended k s w0"
    using at by (simp add: attended_def w0_def ready_def heap_wf_def lpfns_loaded_def sock_def)
  have m: "load_span w0 \<lparr>sp_data = get_recv_buffer, sp_size = 12\<rparr> = literal ''server test''"
    by (simp add: w0_def load_span_def store_bytes_def literal_def upt_rec get_recv_buffer_def)
  have w0: "faults w0 = faults w" "cores w0 = cores w" "inflight w0 = inflight w" "io_heap w0 = io_heap w"
    "next_addr w0 = next_addr w" "sock w0 s = sock w s" "core w0 k = core w k" and nt: "new_trace w v = new_trace w0 v" for v
    by (simp_all add: w0_def sock_def core_def new_trace_def)
  obtain e1 w1 where r1: "run_state (start_send get_recv_span (Some server_send_id) os s) w0 = (e1, w1)" by fastforce
  obtain e2 w2 where r2: "run_state (start_recv get_recv_span (Some server_recv_id) os s) w1 = (e2, w2)" by fastforce
  note st = echo_starts [OF c at0 r1 r2]
  have r: "run_state (on_recv_complete os (Some s) Success n) w =
      run_state (if e1 \<noteq> Success then stop_io_context s else
        do { err \<leftarrow> start_recv get_recv_span (Some server_recv_id) os s;
             if err \<noteq> Success then stop_io_context s else State_Monad.return () }) w1"
    using n r1 by (simp add: on_recv_complete_def deref_sock_def memcpy_def literal_def w0_def get_recv_span_def exec)
  have nc: "new_trace w0 (v\<lparr>cores := x\<rparr>) = new_trace w0 v" for v x by (simp add: new_trace_def)
  consider "e1 \<noteq> Success" | "e1 = Success" "e2 \<noteq> Success" | "e1 = Success" "e2 = Success" by blast
  then show ?thesis
  proof cases
    case 1
    then have "w' = w1\<lparr>cores := (cores w1)(k \<mapsto> (core w1 k)\<lparr>core_stop_requested := 1\<rparr>)\<rparr>"
      using run r attended_stop [OF st(3)] by simp
    then show ?thesis using st(1,5,7,9,11) m w0 1 by (simp add: load_span_def core_def stopped_def nt nc submitted_def)
  next
    case 2
    then have "w' = w2\<lparr>cores := (cores w2)(k \<mapsto> (core w2 k)\<lparr>core_stop_requested := 1\<rparr>)\<rparr>"
      using run r r2 attended_stop [OF st(4)] by simp
    then show ?thesis using st(1,2,6,8,10,12) m w0 2 by (simp add: load_span_def core_def stopped_def nt nc submitted_def)
  next
    case 3
    then have "w' = w2" using run r r2 by simp
    then show ?thesis using st(6,8,10,12) m w0 3 echo_blocks [OF st(1,2) [unfolded 3]] by (simp add: load_span_def nt)
  qed
qed

lemma echo_after_close:
  assumes s: "sockets w s = Some y" "fresh y" and n: "0 < n"
    and run: "run_state (on_recv_complete os (Some s) Success n) w = ((), w')"
  shows "Null_Threadpool_Io \<in> set (faults w')"
proof -
  define w0 where "w0 = w\<lparr>umem := store_bytes get_recv_buffer (literal ''server test'') (umem w)\<rparr>"
  obtain e1 w1 where r1: "run_state (start_send get_recv_span (Some server_send_id) os s) w0 = (e1, w1)" by fastforce
  have f: "Null_Threadpool_Io \<in> set (faults w1)"
    by (rule start_without_handle_faults [where op = "start_send get_recv_span (Some server_send_id)"
            and buffer = get_recv_span and handler = "Some server_send_id", OF _ s(2) _ r1])
      (use s in \<open>simp_all add: w0_def\<close>)
  have "run_state (if e1 \<noteq> Success then stop_io_context s else
        do { err \<leftarrow> start_recv get_recv_span (Some server_recv_id) os s;
             if err \<noteq> Success then stop_io_context s else State_Monad.return () }) w1 = ((), w')"
    using run n r1 by (simp add: on_recv_complete_def deref_sock_def memcpy_def literal_def w0_def get_recv_span_def exec)
  from logs_faults [OF _ this] f show ?thesis
    by (auto intro!: logs_rules logs_client [OF client_stop(2)] logs_client [OF client_basic(1)])
qed

section \<open>Properties\<close>

text \<open>C3. The echo server does nothing undefined until it closes its first socket, nor afterwards as long as only
  completions happen.  On any system that keeps its documented contracts, for every outcome of every call and for
  every schedule of completions and callbacks from \<open>run\<close> until \<open>main\<close> closes the first socket, a run of \<open>main\<close>
  from a fresh process adds no fault: no null pointer or freed block is used, no operation is started on a
  socket without a handle, no inactive member of an endpoint is read, in \<open>main\<close> or in a handler.  The
  scope of the hypothesis \<open>late_ok\<close> is part of the claim: once the first socket has been closed no posted handler may
  run, and operations may complete only on a system that accepts all work that is posted.  When \<open>main\<close>
  returns 0, both sockets have been closed and the core holds nothing.\<close>

theorem server_main_safe:
  assumes "core_contract os" and "win_contract os" and "acceptex_contract os" and "acceptex_v4_contract os"
    and "\<forall>i > 0. late_ok os (late i)" and "new_accept \<noteq> new_sock" and "pristine w"
    and "run_state (server_main ntop os junk_io junk_user new_core new_sock new_accept schedule late) w = (r, w')"
  shows "faults w' = faults w \<and>
    (r = Some 0 \<longrightarrow> fresh (sock w' new_sock) \<and> fresh (sock w' new_accept) \<and> core_held new_core (core w' new_core) = {#})"
  using tripleD [OF server_main_triple [OF assms(1-6)] assms(7,8)] by (simp add: program_done_def)

text \<open>A connection that sends once; the reply fails, and the next receive is aborted while \<open>main\<close> closes.\<close>

definition server_schedule :: "event list" where
  "server_schedule = [Completes 1 0 0, Runs User_Pool 2, Completes 3 0 5, Runs User_Pool 4, Completes 5 64 0, Runs User_Pool 7]"

definition server_late :: "nat \<Rightarrow> event list" where
  "server_late i = (if i = 1 then [Completes 6 995 0] else [])"

definition sample_server_run :: "int option \<times> unit world" where
  "sample_server_run = run_state (server_main ntop_loopback loopback_os (pool_of Io_Pool sample_core)
     (pool_of User_Pool sample_core) 0 0 1 server_schedule server_late) bare_world"

theorem server_main_safe_witness:
  "faults (snd sample_server_run) = []"
proof -
  have late: "\<forall>i > 0. late_ok loopback_os (server_late i)"
    by (simp add: late_ok_def server_late_def loopback_accepting)
  have "run_state (server_main ntop_loopback loopback_os (pool_of Io_Pool sample_core) (pool_of User_Pool sample_core) 0 0 1
      server_schedule server_late) bare_world = (fst sample_server_run, snd sample_server_run)"
    by (simp add: sample_server_run_def)
  from server_main_safe [OF loopback_contracts late _ bare_pristine this] show ?thesis
    by (simp add: bare_world_def sample_world_def)
qed

text \<open>C15. That restriction is needed: after the close it is too late for a callback.  \<open>close\<close> waits for the completions of a socket but
  not for the handlers that are already posted to the user pool: when the receive handler runs
  after its socket has been closed, with bytes received, it starts a send on an object without a
  thread pool handle.\<close>

theorem server_late_callback_faults:
  assumes "heap_wf w" and "sockets w s = Some x" and "fn_heap w f = Some (Read_Work p (Some server_recv_id))"
    and "io_heap w p = Some d" and "iod_socket d = Some s" and "iod_error_code d = Success" and "0 < iod_bytes_transferred d"
    and "run_state (close os s) w = (err, w1)"
  shows "Null_Threadpool_Io \<in> set (faults (run_callback (server_user ntop os) (User_Pool, f) w1))"
proof -
  note cl = close_run [OF assms(2,8)]
  define v where "v = w1\<lparr>posted := remove1 (User_Pool, f) (posted w1)\<rparr>"
  have m: "mem_frame w w1" "sockets w1 s = Some (WinSocket_default (ws_io_core x))"
    using cl(1,2) unfolding only_sock_def by (simp, metis fun_upd_same)
  have v: "heap_wf v" "fn_heap v f = Some (Read_Work p (Some server_recv_id))" "io_heap v p = Some d"
    "sockets v s = Some (WinSocket_default (ws_io_core x))"
    using m assms(1,3,4) by (auto simp: v_def mem_frame_def heap_wf_def)
  obtain w' where run: "run_state (pool_callback (server_user ntop os) f) v = ((), w')" by (rule unit_run)
  have wk: "work_for (ReadHandler (Some server_recv_id)) p (Read_Work p (Some server_recv_id))" by simp
  obtain wa where wa: "wa = v\<lparr>io_heap := (io_heap v)(p \<mapsto> d),
      invoked := invoked v @ [Read_Call server_recv_id (Some s) Success (iod_bytes_transferred d)]\<rparr>"
    and e: "let w2 = snd (run_state (on_recv_complete os (Some s) Success (iod_bytes_transferred d)) wa) in
      w' = w2\<lparr>io_heap := (io_heap w2)(p := None), fn_heap := (fn_heap w2)(f := None)\<rparr>"
    by (rule pool_callback_run [OF private_keeps_blocks [OF server_private] v(1,2) wk v(3) run]) (use assms(5,6) in simp)
  obtain w2 where r2: "run_state (on_recv_complete os (Some s) Success (iod_bytes_transferred d)) wa = ((), w2)" by (rule unit_run)
  have "Null_Threadpool_Io \<in> set (faults w2)"
    by (rule echo_after_close [OF _ fresh_default assms(7) r2]) (use v wa in simp)
  then have "Null_Threadpool_Io \<in> set (faults w')" using e r2 by (simp add: Let_def)
  then show ?thesis using run by (simp add: run_callback_def v_def)
qed

text \<open>A receive of five bytes whose handler is posted.\<close>

definition late_world :: "unit world" where
  "late_world = (sample_world [sample_socket])\<lparr>
     io_heap := [1 \<mapsto> (sample_block (ReadHandler (Some server_recv_id)))\<lparr>iod_bytes_transferred := 5\<rparr>],
     fn_heap := [2 \<mapsto> Read_Work 1 (Some server_recv_id)], next_addr := 3, posted := [(User_Pool, 2)]\<rparr>"

theorem server_late_callback_faults_witness:
  "Null_Threadpool_Io \<in> set (faults (run_callback (server_user ntop_loopback sample_os) (User_Pool, 2)
     (snd (run_state (close sample_os 0) late_world))))"
  by (rule server_late_callback_faults [of late_world 0 sample_socket 2 1
        "(sample_block (ReadHandler (Some server_recv_id)))\<lparr>iod_bytes_transferred := 5\<rparr>" sample_os
        "fst (run_state (close sample_os 0) late_world)"])
    (simp_all add: late_world_def sample_world_def heap_wf_def sample_block_def IOData_default_def)

text \<open>C12. The server's receive handler on every outcome.  On an error, or when no byte was received, it
  only asks the core to stop.  Otherwise the buffer starts with the text \<open>server test\<close>, and a send of the 512
  bytes of the buffer has been requested on the caller's handle.  If the system has refused it, the core has been asked
  to stop and nothing is in flight that was not before.  If it has taken it over, the next receive has been requested after it: when that is
  refused the core has been asked to stop; when both are taken over the core goes on, and the send and the
  receive are in flight, each in a block of its own with the caller and its handler.  Both use the same static buffer,
  so the send reads a buffer that the next receive may already be writing.\<close>

theorem server_recv_outcome:
  assumes "win_contract os" and "attended k s w"
    and "run_state (on_recv_complete os (Some s) error n) w = ((), w')"
  shows "if error \<noteq> Success \<or> n \<le> 0 then w' = w\<lparr>cores := (cores w)(k \<mapsto> (core w k)\<lparr>core_stop_requested := 1\<rparr>)\<rparr>
    else faults w' = faults w \<and> load_span w' \<lparr>sp_data = get_recv_buffer, sp_size = 12\<rparr> = literal ''server test'' \<and>
      (ov_answers (new_trace w w') = [(reply_call s w, False)] \<and> stopped k w w' \<and> inflight w' = inflight w \<and> io_heap w' = io_heap w \<or>
       ov_answers (new_trace w w') = [(reply_call s w, True), (next_call s w, False)] \<and> stopped k w w' \<and>
         inflight w' = inflight w @ [next_addr w] \<or>
       ov_answers (new_trace w w') = [(reply_call s w, True), (next_call s w, True)] \<and> cores w' = cores w \<and>
       (\<exists>d e. inflight w' = inflight w @ [next_addr w, next_addr w + 1] \<and>
          io_heap w' = (io_heap w)(next_addr w \<mapsto> d, next_addr w + 1 \<mapsto> e) \<and>
          iod_socket d = Some s \<and> iod_user_handler d = WriteHandler (Some server_send_id) \<and> iod_user_buffer d = get_recv_span \<and>
          iod_socket e = Some s \<and> iod_user_handler e = ReadHandler (Some server_recv_id) \<and> iod_user_buffer e = get_recv_span))"
proof (cases "error \<noteq> Success \<or> n \<le> 0")
  case True
  then have "run_state (on_recv_complete os (Some s) error n) w = run_state (stop_io_context s) w"
    by (auto simp: on_recv_complete_def deref_sock_def)
  with assms(3) attended_stop [OF assms(2)] True show ?thesis by simp
next
  case False
  then have "error = Success" "0 < n" by simp_all
  with server_echo [OF assms(1,2)] assms(3) False show ?thesis by simp
qed

lemma sample_attended: "attended 0 0 (sample_world [sample_socket])"
  using sample_ready by (simp add: attended_def sample_world_def sample_socket_def sock_def)

text \<open>Both operations are taken over.\<close>

lemma sample_reply_accepted:
  "ov_answers (new_trace (sample_world [sample_socket])
     (snd (run_state (on_recv_complete sample_os (Some 0) Success 5) (sample_world [sample_socket])))) =
   [(WSASend 100 get_recv_span 512, True), (WSARecv 100 get_recv_span 512, True)]"
  by code_simp

theorem server_recv_outcome_witness:
  "inflight (snd (run_state (on_recv_complete sample_os (Some 0) Success 5) (sample_world [sample_socket]))) = [1, 2]"
proof -
  obtain w' where run: "run_state (on_recv_complete sample_os (Some 0) Success 5) (sample_world [sample_socket]) = ((), w')"
    by (rule unit_run)
  have w: "inflight (sample_world [sample_socket]) = []" "next_addr (sample_world [sample_socket]) = 1"
    by (simp_all add: sample_world_def)
  from server_recv_outcome [OF sample_win_contract sample_attended run] sample_reply_accepted show ?thesis
    unfolding run snd_conv w by (auto simp: numeral_2_eq_2)
qed

end
