(* ===== verification/Same_Answers.thy ===== *)
theory Same_Answers
  imports Event_Program
begin

named_theorems agree_rules \<open>programs that agree on two systems\<close>

text \<open>
  Two systems that a run cannot tell apart.  Let \<open>A\<close> say which answers \<open>os\<close> gives and \<open>G\<close> which are good, and let \<open>os'\<close> answer as
  \<open>os\<close> does wherever the answer of \<open>os\<close> is good.  A run on \<open>os\<close> all of whose answers were good is then
  the run on \<open>os'\<close>, call by call.  So a property of all runs on systems whose answers are always good
  holds of every single run on any system in which the answers happened to be good: a hypothesis about a
  system becomes a hypothesis about a trace.  The locale \<open>same_answers\<close> is the interface; its lemmas go through
  the operations of the library one by one.
\<close>

section \<open>Agreement\<close>

type_synonym good_answer = "syscall \<Rightarrow> sysret \<Rightarrow> bool"

definition good :: "good_answer \<Rightarrow> (syscall \<times> sysret) list \<Rightarrow> bool" where
  "good G tr \<longleftrightarrow> (\<forall>(c, r) \<in> set tr. G c r)"

definition agree :: "good_answer \<Rightarrow> good_answer \<Rightarrow> ('o, 'a) prog \<Rightarrow> ('o, 'a) prog \<Rightarrow> bool" where
  "agree A G m m' \<longleftrightarrow>
     (\<forall>w. \<exists>tr. os_trace (snd (run_state m w)) = os_trace w @ tr \<and> good A tr \<and>
        (good G tr \<longrightarrow> run_state m' w = run_state m w))"

lemma agreeD:
  assumes "agree A G m m'" and "run_state m w = (x, w')"
  obtains tr where "os_trace w' = os_trace w @ tr" and "good A tr" and "good G tr \<Longrightarrow> run_state m' w = (x, w')"
  using assms unfolding agree_def by (metis snd_conv)

lemma agree_bind [agree_rules]:
  assumes m: "agree A G m m'" and f: "\<And>x. agree A G (f x) (f' x)"
  shows "agree A G (State_Monad.bind m f) (State_Monad.bind m' f')"
  unfolding agree_def
proof
  fix w
  obtain x w1 where r1: "run_state m w = (x, w1)" by fastforce
  obtain y w2 where r2: "run_state (f x) w1 = (y, w2)" by fastforce
  obtain tr1 where t1: "os_trace w1 = os_trace w @ tr1" "good A tr1" "good G tr1 \<Longrightarrow> run_state m' w = (x, w1)"
    using agreeD [OF m r1] by blast
  obtain tr2 where t2: "os_trace w2 = os_trace w1 @ tr2" "good A tr2" "good G tr2 \<Longrightarrow> run_state (f' x) w1 = (y, w2)"
    using agreeD [OF f r2] by blast
  show "\<exists>tr. os_trace (snd (run_state (State_Monad.bind m f) w)) = os_trace w @ tr \<and> good A tr \<and>
      (good G tr \<longrightarrow> run_state (State_Monad.bind m' f') w = run_state (State_Monad.bind m f) w)"
    by (rule exI [of _ "tr1 @ tr2"]) (use r1 r2 t1 t2 in \<open>auto simp: good_def\<close>)
qed

text \<open>A program that makes no call of the system.\<close>

lemma agree_silent: "(\<And>w. os_trace (snd (run_state m w)) = os_trace w) \<Longrightarrow> agree A G m m"
  unfolding agree_def by (auto simp: good_def intro: exI [of _ "[]"])

lemma agree_basic [agree_rules]:
  "agree A G (State_Monad.return x) (State_Monad.return x)" "agree A G (gets g) (gets g)" "agree A G (raise_fault u) (raise_fault u)"
  "agree A G (lock_core c) (lock_core c)" "agree A G (read_sock s) (read_sock s)" "agree A G (upd_sock s k) (upd_sock s k)"
  "agree A G (read_core c) (read_core c)" "agree A G (upd_core c j) (upd_core c j)" "agree A G (lift_cpp d r) (lift_cpp d r)"
  "agree A G (new_io b) (new_io b)" "agree A G (read_io p) (read_io p)" "agree A G (upd_io p i) (upd_io p i)"
  "agree A G (delete_io p) (delete_io p)" "agree A G (new_fn wk) (new_fn wk)" "agree A G (read_fn p) (read_fn p)"
  "agree A G (delete_fn p) (delete_fn p)" "agree A G (set_rollback c pl rb) (set_rollback c pl rb)"
  by (rule agree_silent; auto simp: exec set_rollback_def split: cpp.splits)+

lemma agree_updates [agree_rules]:
  "agree A G (modify (\<lambda>w. w\<lparr>umem := h w\<rparr>)) (modify (\<lambda>w. w\<lparr>umem := h w\<rparr>))"
  "agree A G (modify (\<lambda>w. w\<lparr>cores := g w\<rparr>)) (modify (\<lambda>w. w\<lparr>cores := g w\<rparr>))"
  "agree A G (modify (\<lambda>w. w\<lparr>sockets := k w\<rparr>)) (modify (\<lambda>w. w\<lparr>sockets := k w\<rparr>))"
  "agree A G (modify (\<lambda>w. w\<lparr>invoked := i w\<rparr>)) (modify (\<lambda>w. w\<lparr>invoked := i w\<rparr>))"
  by (rule agree_silent; simp)+

lemma agree_if [agree_rules]: "agree A G m n \<Longrightarrow> agree A G m' n' \<Longrightarrow> agree A G (if b then m else m') (if b then n else n')"
  by simp

lemma agree_when [agree_rules]: "agree A G m n \<Longrightarrow> agree A G (when b m) (when b n)"
  by (simp add: when_def agree_basic)

lemma agree_prod [agree_rules]: "(\<And>x y. agree A G (f x y) (g x y)) \<Longrightarrow>
    agree A G (case z of (x, y) \<Rightarrow> f x y) (case z of (x, y) \<Rightarrow> g x y)"
  by (cases z) simp

lemma agree_option [agree_rules]: "agree A G m n \<Longrightarrow> (\<And>x. agree A G (f x) (g x)) \<Longrightarrow>
    agree A G (case z of None \<Rightarrow> m | Some x \<Rightarrow> f x) (case z of None \<Rightarrow> n | Some x \<Rightarrow> g x)"
  by (cases z) simp_all

lemma agree_sum [agree_rules]: "(\<And>x. agree A G (e x) (d x)) \<Longrightarrow> (\<And>x. agree A G (f x) (g x)) \<Longrightarrow>
    agree A G (case z of Inl x \<Rightarrow> e x | Inr x \<Rightarrow> f x) (case z of Inl x \<Rightarrow> d x | Inr x \<Rightarrow> g x)"
  by (cases z) simp_all

lemma agree_rollback [agree_rules]: "agree A G m0 n0 \<Longrightarrow> agree A G m1 n1 \<Longrightarrow> agree A G m2 n2 \<Longrightarrow> agree A G m3 n3 \<Longrightarrow>
    agree A G (case z of Rb_None \<Rightarrow> m0 | InitEnviron \<Rightarrow> m1 | CreateThreadpool \<Rightarrow> m2 | CreateCleanupGroup \<Rightarrow> m3)
      (case z of Rb_None \<Rightarrow> n0 | InitEnviron \<Rightarrow> n1 | CreateThreadpool \<Rightarrow> n2 | CreateCleanupGroup \<Rightarrow> n3)"
  by (cases z) simp_all

lemma agree_or_return [agree_rules]: "agree A G m n \<Longrightarrow> agree A G m' n' \<Longrightarrow> agree A G (or_return m m') (or_return n n')"
  unfolding or_return_def by (intro agree_rules)

lemma agree_parts [agree_rules]:
  "agree A G (deref_sock s) (deref_sock s)" "agree A G (store_received b r) (store_received b r)" "agree A G (load_fn l) (load_fn l)"
  "agree A G (note_error p err) (note_error p err)" "agree A G (stop c) (stop c)"
  "agree A G (stop_io_context x) (stop_io_context x)" "agree A G (memcpy n bs m) (memcpy n bs m)"
  "agree A G (socket_create k j) (socket_create k j)"
  unfolding deref_sock_def store_received_def load_fn_def note_error_def stop_def stop_io_context_def memcpy_def socket_create_def
  by (intro agree_rules)+

text \<open>Handlers that agree are called alike.\<close>

lemma agree_invoke:
  assumes "\<And>c. agree A G (user c) (user' c)"
  shows "agree A G (invoke user h call) (invoke user' h call)"
  unfolding invoke_def Let_def by (intro agree_rules assms)

lemma agree_call_handler:
  assumes u: "\<And>c. agree A G (user c) (user' c)"
  shows "agree A G (call_handler user wk) (call_handler user' wk)"
  by (cases wk; simp only: call_handler.simps) (intro agree_rules agree_invoke u)+

lemma agree_callback:
  assumes u: "\<And>c. agree A G (user c) (user' c)"
  shows "agree A G (pool_callback user f) (pool_callback user' f)"
  unfolding pool_callback_def run_work_def by (intro agree_rules agree_call_handler u)

section \<open>The library on two systems\<close>

locale same_answers =
  fixes A G :: good_answer and os os' :: "'o os"
  assumes occurs: "A c (fst (os c s))" and same: "G c (fst (os c s)) \<Longrightarrow> os' c s = os c s"
begin

lemma agree_sys [agree_rules]: "agree A G (sys os c) (sys os' c)"
  unfolding agree_def
  by (intro allI exI [of _ "[(c, sys_ret os c w)]" for w])
    (use same occurs in \<open>auto simp: good_def sys_ret_def after_def\<close>)

lemma agree_errors [agree_rules]:
  "agree A G (last_wsa_error os) (last_wsa_error os')" "agree A G (last_error os) (last_error os')"
  "agree A G (associate_handle os c h) (associate_handle os' c h)"
  unfolding last_wsa_error_def last_error_def associate_handle_def by (intro agree_rules)+

lemma agree_handle [agree_rules]:
  "agree A G (socket os s f t p) (socket os' s f t p)" "agree A G (close os s) (close os' s)"
  "agree A G (bind_ep os s e) (bind_ep os' s e)"
  "agree A G (get_sock_name os s e) (get_sock_name os' s e)" "agree A G (get_peer_name os s e) (get_peer_name os' s e)"
  unfolding socket_def close_def bind_ep_def get_sock_name_def get_peer_name_def name_query_def by (intro agree_rules)+

lemma agree_submit [agree_rules]: "agree A G (submit_overlapped os h call p) (submit_overlapped os' h call p)"
  unfolding submit_overlapped_def by (intro agree_rules)

lemma agree_start [agree_rules]:
  "agree A G (start_connect e h os s) (start_connect e h os' s)" "agree A G (start_recv b h os s) (start_recv b h os' s)"
  "agree A G (start_send b h os s) (start_send b h os' s)" "agree A G (start_disconnect r h os s) (start_disconnect r h os' s)"
  unfolding start_connect_def start_recv_def start_send_def start_disconnect_def Let_def by (intro agree_rules)+

lemma agree_post [agree_rules]: "agree A G (post_user_work os c wk) (post_user_work os' c wk)"
  unfolding post_user_work_def by (intro agree_rules)

lemma agree_context [agree_rules]:
  "agree A G (update_accept_socket_context os l a) (update_accept_socket_context os' l a)"
  "agree A G (update_connect_socket_context os c) (update_connect_socket_context os' c)"
  "agree A G (get_acceptex_sockaddrs os p) (get_acceptex_sockaddrs os' p)"
  unfolding update_accept_socket_context_def update_connect_socket_context_def get_acceptex_sockaddrs_def
  by (intro agree_rules)+

lemma agree_deliver:
  assumes u: "\<And>c. agree A G (user c) (user' c)"
  shows "agree A G (deliver os user c p wk) (deliver os' user' c p wk)"
  unfolding deliver_def by (intro agree_rules agree_call_handler u)

lemma agree_visit:
  assumes u: "\<And>c. agree A G (user c) (user' c)"
  shows "agree A G (visit os user p c uh) (visit os' user' p c uh)"
  by (cases uh; simp only: visit.simps visit_accept_def visit_connect_def visit_read_def visit_write_def visit_disconnect_def Let_def)
    (intro agree_rules agree_deliver u)+

lemma agree_routine:
  assumes u: "\<And>c. agree A G (user c) (user' c)"
  shows "agree A G (socket_io_routine os user p io_result n) (socket_io_routine os' user' p io_result n)"
  unfolding socket_io_routine_def Let_def by (intro agree_rules agree_visit u)

text \<open>Events.\<close>

lemma agree_happens:
  assumes u: "\<And>c. agree A G (user c) (user' c)"
  shows "agree A G (modify (happens os user e)) (modify (happens os' user' e))"
proof -
  have "\<exists>tr. os_trace (happens os user e w) = os_trace w @ tr \<and> good A tr \<and> (good G tr \<longrightarrow> happens os' user' e w = happens os user e w)" for w
  proof (cases e)
    case (Completes p r n)
    let ?v = "w\<lparr>inflight := remove1 p (inflight w)\<rparr>"
    obtain w1 where r1: "run_state (socket_io_routine os user p r n) ?v = ((), w1)" by (rule unit_run)
    obtain tr where "os_trace w1 = os_trace ?v @ tr" "good A tr" "good G tr \<Longrightarrow> run_state (socket_io_routine os' user' p r n) ?v = ((), w1)"
      using agreeD [OF agree_routine [OF u] r1] by blast
    then show ?thesis using Completes r1 by (auto simp: complete_def good_def)
  next
    case (Runs pl f)
    let ?v = "w\<lparr>posted := remove1 (pl, f) (posted w)\<rparr>"
    obtain w1 where r1: "run_state (pool_callback user f) ?v = ((), w1)" by (rule unit_run)
    obtain tr where "os_trace w1 = os_trace ?v @ tr" "good A tr" "good G tr \<Longrightarrow> run_state (pool_callback user' f) ?v = ((), w1)"
      using agreeD [OF agree_callback [OF u] r1] by blast
    then show ?thesis using Runs r1 by (auto simp: run_callback_def good_def)
  qed
  then show ?thesis by (simp add: agree_def)
qed

lemma agree_run:
  assumes u: "\<And>c. agree A G (user c) (user' c)"
  shows "agree A G (run os user k es) (run os' user' k es)"
  by (induction es) (simp_all only: run.simps, (intro agree_rules agree_happens u | assumption)+)

lemma agree_happen_all:
  assumes u: "\<And>c. agree A G (user c) (user' c)"
  shows "agree A G (happen_all os user es) (happen_all os' user' es)"
proof (induction es)
  case Nil
  show ?case by (simp add: happen_all_def) (rule agree_silent, simp)
next
  case (Cons e es)
  have s: "happen_all os user (e # es) = do { modify (happens os user e); happen_all os user es }" for os user
    by (simp add: happen_all_def modify_def State_Monad.bind_def)
  show ?case unfolding s by (intro agree_rules agree_happens u Cons)
qed

lemma agree_close_then:
  assumes u: "\<And>c. agree A G (user c) (user' c)"
  shows "agree A G (close_then os user es s) (close_then os' user' es s)"
  unfolding close_then_def by (intro agree_rules agree_happen_all u)

text \<open>The core.\<close>

lemma agree_threadpool [agree_rules]:
  "agree A G (initialize_threadpool os c pl n m) (initialize_threadpool os' c pl n m)"
  "agree A G (release_threadpool os c t pl g tp) (release_threadpool os' c t pl g tp)"
  unfolding initialize_threadpool_def release_threadpool_def release_group_def release_pool_def release_environ_def Let_def
  by (intro agree_rules)+

lemma agree_load [agree_rules]:
  assumes "\<And>x w. os_trace (store x w) = os_trace w"
  shows "agree A G (load_extension os h fn lpfn store) (load_extension os' h fn lpfn store)"
  unfolding load_extension_def by (intro agree_rules agree_silent) (simp add: assms)

lemma agree_core [agree_rules]:
  "agree A G (initialize os c) (initialize os' c)" "agree A G (release os c) (release os' c)"
  unfolding initialize_def release_def get_extended_socket_functions_def Let_def
  by (intro agree_rules; simp)+

lemma agree_create [agree_rules]:
  "agree A G (core_create os config junk_io junk_user k) (core_create os' config junk_io junk_user k)"
  unfolding core_create_def by (intro agree_rules)

end

end
