(* ===== verification/Echo_Client.thy ===== *)
theory Echo_Client
  imports Same_Answers
begin

text \<open>
  The asynchronous echo client, \<open>async_echo_client.cpp\<close>: its handlers, its \<open>main\<close>, and what its
  handlers do on every outcome.  Unlike the server, the client ignores the results of
  \<open>get_sock_name\<close> and \<open>get_peer_name\<close> and prints the endpoints they were to fill in; the properties
  say when that is undefined and that nothing else is.
\<close>

section \<open>Handlers\<close>

text \<open>The functions that are passed as handlers, by number.\<close>

definition client_connect_id :: nat where "client_connect_id = 0"
definition client_send_id :: nat where "client_send_id = 1"
definition client_recv_id :: nat where "client_recv_id = 2"
definition client_disconnect_id :: nat where "client_disconnect_id = 3"

text \<open>Both endpoints of the connection, as printed by two of the handlers.\<close>

definition print_endpoints :: "ntop_fn \<Rightarrow> 'o os \<Rightarrow> sock_id \<Rightarrow> ('o, unit) prog" where
  "print_endpoints ntop os c = do {
     (err, local_endpoint) \<leftarrow> get_sock_name os c Ep_Uninit;
     (err, peer_endpoint) \<leftarrow> get_peer_name os c Ep_Uninit;
     s \<leftarrow> read_sock c;
     lift_cpp [] (inet_ntop ntop (ws_addr_family s) local_endpoint);
     lift_cpp [] (inet_ntop ntop (ws_addr_family s) peer_endpoint);
     State_Monad.return () }"

definition on_connect_complete :: "ntop_fn \<Rightarrow> 'o os \<Rightarrow> sock_id option \<Rightarrow> ErrorCode \<Rightarrow> ('o, unit) prog" where
  "on_connect_complete ntop os caller error = do {
     c \<leftarrow> deref_sock caller;
     if error \<noteq> Success then stop_io_context c
     else do {
       print_endpoints ntop os c;
       memcpy (sp_data get_recv_span) (literal ''client test'') 12;
       err \<leftarrow> start_send get_recv_span (Some client_send_id) os c;
       if err \<noteq> Success then stop_io_context c
       else do {
         err \<leftarrow> start_recv get_recv_span (Some client_recv_id) os c;
         if err \<noteq> Success then stop_io_context c else State_Monad.return () } } }"

definition client_on_send_complete :: "sock_id option \<Rightarrow> ErrorCode \<Rightarrow> int \<Rightarrow> ('o, unit) prog" where
  "client_on_send_complete caller error bytes_transferred =
     (if error \<noteq> Success then do {
        c \<leftarrow> deref_sock caller;
        stop_io_context c }
      else State_Monad.return ())"

definition client_on_recv_complete :: "'o os \<Rightarrow> sock_id option \<Rightarrow> ErrorCode \<Rightarrow> int \<Rightarrow> ('o, unit) prog" where
  "client_on_recv_complete os caller error bytes_transferred = do {
     c \<leftarrow> deref_sock caller;
     if error \<noteq> Success then stop_io_context c
     else if bytes_transferred < 0 then stop_io_context c
     else if bytes_transferred = 0 then stop_io_context c
     else do {
       err \<leftarrow> start_disconnect False (Some client_disconnect_id) os c;
       if err \<noteq> Success then stop_io_context c
       else do {
         err \<leftarrow> start_recv get_recv_span (Some client_recv_id) os c;
         if err \<noteq> Success then stop_io_context c else State_Monad.return () } } }"

definition on_disconnect_complete :: "ntop_fn \<Rightarrow> 'o os \<Rightarrow> sock_id option \<Rightarrow> ErrorCode \<Rightarrow> ('o, unit) prog" where
  "on_disconnect_complete ntop os caller error = do {
     c \<leftarrow> deref_sock caller;
     if error \<noteq> Success then stop_io_context c else print_endpoints ntop os c }"

text \<open>The handlers as the library calls them.\<close>

fun client_user :: "ntop_fn \<Rightarrow> 'o os \<Rightarrow> 'o user" where
  "client_user ntop os (Connect_Call n c e) = on_connect_complete ntop os c e"
| "client_user ntop os (Write_Call n c e b) = client_on_send_complete c e b"
| "client_user ntop os (Read_Call n c e b) = client_on_recv_complete os c e b"
| "client_user ntop os (Disconnect_Call n c e) = on_disconnect_complete ntop os c e"
| "client_user ntop os _ = State_Monad.return ()"

section \<open>main\<close>

definition client_config :: IOCoreConfig where
  "client_config = \<lparr>io_threadpool_min_threads = 2, io_threadpool_max_threads = 2,
     user_threadpool_min_threads = 2, user_threadpool_max_threads = 2\<rparr>"

definition target_ep :: Endpoint where
  "target_ep = Ep_V4 \<lparr>v4_bytes = [127, 0, 0, 1], v4_port = 63000\<rparr>"

text \<open>The end of \<open>main\<close>, after \<open>run\<close> has returned; \<open>late\<close> are the events that happen meanwhile.\<close>

definition client_shutdown :: "'o os \<Rightarrow> 'o user \<Rightarrow> core_id \<Rightarrow> sock_id \<Rightarrow> (nat \<Rightarrow> event list) \<Rightarrow> ('o, int option) prog" where
  "client_shutdown os user io_core sk late = do {
     happen_all os user (late 0);
     err \<leftarrow> close_then os user (late 1) sk;
     if err \<noteq> Success then do { release os io_core; State_Monad.return (Some (-1)) }
     else do {
       err \<leftarrow> release os io_core;
       if err \<noteq> Success then State_Monad.return (Some (-1)) else State_Monad.return (Some 0) } }"

text \<open>From \<open>socket\<close> to \<open>run\<close>.\<close>

definition client_connect :: "ntop_fn \<Rightarrow> 'o os \<Rightarrow> core_id \<Rightarrow> sock_id \<Rightarrow> event list \<Rightarrow>
    (nat \<Rightarrow> event list) \<Rightarrow> ('o, int option) prog" where
  "client_connect ntop os io_core sk schedule late = do {
     err \<leftarrow> socket os sk AF_IPv4 ST_Stream Pr_Tcp;
     if err \<noteq> Success then do { release os io_core; State_Monad.return (Some (-1)) }
     else do {
       lift_cpp [] (inet_ntop ntop AF_IPv4 target_ep);
       err \<leftarrow> start_connect target_ep (Some client_connect_id) os sk;
       if err \<noteq> Success then do { close os sk; release os io_core; State_Monad.return (Some (-1)) }
       else do {
         returned \<leftarrow> run os (client_user ntop os) io_core schedule;
         if returned then client_shutdown os (client_user ntop os) io_core sk late else State_Monad.return None } } }"

definition client_main :: "ntop_fn \<Rightarrow> 'o os \<Rightarrow> threadpool \<Rightarrow> threadpool \<Rightarrow> core_id \<Rightarrow> sock_id \<Rightarrow> event list \<Rightarrow>
    (nat \<Rightarrow> event list) \<Rightarrow> ('o, int option) prog" where
  "client_main ntop os junk_io junk_user new_core new_sock schedule late = do {
     pending \<leftarrow> core_create os client_config junk_io junk_user new_core;
     (case pending of
        Inl _ \<Rightarrow> State_Monad.return (Some (-1))
      | Inr io_core \<Rightarrow> do {
          err \<leftarrow> initialize os io_core;
          if err \<noteq> Success then State_Monad.return (Some (-1))
          else do {
            pending \<leftarrow> socket_create (Some io_core) new_sock;
            (case pending of
               Inl _ \<Rightarrow> do { release os io_core; State_Monad.return (Some (-1)) }
             | Inr sk \<Rightarrow> client_connect ntop os io_core sk schedule late) } }) }"

section \<open>The client as a program\<close>

text \<open>
  What the client relies on without checking: whenever it asks for a name of the connection the system knows
  it, and it is an IPv4 address.
\<close>

definition name_known :: "'o os \<Rightarrow> ws_call \<Rightarrow> 'o world \<Rightarrow> bool" where
  "name_known os q w \<longleftrightarrow> ret (sys_ret os (Ws q) w) \<noteq> SOCKET_ERROR \<and>
     ss_family (store_sockaddr (buf0 (sys_ret os (Ws q) w)) zero_storage) = AF_INET"

fun name_answered :: "syscall \<Rightarrow> sysret \<Rightarrow> bool" where
  "name_answered (Ws (Getsockname h n)) r \<longleftrightarrow> ret r \<noteq> SOCKET_ERROR \<and> ss_family (store_sockaddr (buf0 r) zero_storage) = AF_INET"
| "name_answered (Ws (Getpeername h n)) r \<longleftrightarrow> ret r \<noteq> SOCKET_ERROR \<and> ss_family (store_sockaddr (buf0 r) zero_storage) = AF_INET"
| "name_answered c r \<longleftrightarrow> True"

text \<open>
  The runs in which that has been so are also runs of a system on which it is always so: the one that
  answers instead, whenever the given one has no such answer, with port 80 of 127.0.0.1.
\<close>

definition names_contract :: "'o os \<Rightarrow> bool" where
  "names_contract os \<longleftrightarrow> (\<forall>h n w. name_known os (Getsockname h n) w \<and> name_known os (Getpeername h n) w)"

definition answering :: "'o os \<Rightarrow> 'o os" where
  "answering os c s = (if name_answered c (fst (os c s)) then os c s
     else ((fst (os c s))\<lparr>ret := 0, buf0 := v4_sockaddr\<rparr>, snd (os c s)))"

text \<open>The operations the client starts, and the calls the library makes to its handlers.\<close>

definition client_block :: "sock_id \<Rightarrow> IOData \<Rightarrow> bool" where
  "client_block s d \<longleftrightarrow> iod_socket d = Some s \<and>
     iod_user_handler d \<in> {ConnectHandler (Some client_connect_id), ReadHandler (Some client_recv_id),
       WriteHandler (Some client_send_id), DisconnectHandler (Some client_disconnect_id)}"

fun client_call :: "sock_id \<Rightarrow> invocation \<Rightarrow> bool" where
  "client_call s (Connect_Call n c e) \<longleftrightarrow> c = Some s"
| "client_call s (Read_Call n c e b) \<longleftrightarrow> c = Some s"
| "client_call s (Write_Call n c e b) \<longleftrightarrow> c = Some s"
| "client_call s (Disconnect_Call n c e) \<longleftrightarrow> c = Some s"
| "client_call s _ \<longleftrightarrow> True"

lemmas client_handler_defs = on_connect_complete_def client_on_send_complete_def client_on_recv_complete_def
  on_disconnect_complete_def

lemma client_client:
  assumes "win_contract os"
  shows "client (client_user ntop os call)"
  by (cases call; simp only: client_user.simps client_handler_defs print_endpoints_def)
    (intro client_rules client_start [OF win_contractD(1) [OF assms]])+

lemma client_private: "private_from p (client_user ntop os call)"
  by (cases call; simp only: client_user.simps client_handler_defs print_endpoints_def) (intro private_rules)+

text \<open>The result of a query is IPv4 exactly when the system knows an IPv4 name.\<close>

lemma query_v4:
  assumes "sockets w s = Some x" and "run_state (name_query os q s Ep_Uninit) w = ((err, ep), w')"
  shows "is_v4 ep \<longleftrightarrow> name_known os (q (ws_socket x) sizeof_sockaddr) w" "faults w' = faults w" "sockets w' = sockets w"
    and "os_state w' = (if ret (sys_ret os (Ws (q (ws_socket x) sizeof_sockaddr)) w) = SOCKET_ERROR
      then os_state (after os WSAGetLastError (after os (Ws (q (ws_socket x) sizeof_sockaddr)) w)) else os_state (after os (Ws (q (ws_socket x) sizeof_sockaddr)) w))"
  using assms
  by (auto simp: name_query_def exec sock_Some name_known_def sockaddr_to_endpoint_def Let_def split: if_splits)

lemma triple_query:
  assumes c: "\<And>h n w. name_known os (q h n) w" and s: "s \<in> set L"
  shows "triple (acting k L block w0) (name_query os q s Ep_Uninit) (\<lambda>r w. acting k L block w0 w \<and> is_v4 (snd r))"
proof (rule tripleI)
  fix w r w' assume i: "acting k L block w0 w" and run: "run_state (name_query os q s Ep_Uninit) w = (r, w')"
  obtain x where x: "sockets w s = Some x" using serving_sock [OF conjunct1 [OF i] s] by blast
  obtain err ep where r: "r = (err, ep)" by fastforce
  have "acting k L block w0 w'"
    using run i x c [of "ws_socket x" sizeof_sockaddr w]
    by (auto simp: name_query_def exec sock_Some name_known_def serving_def serves_def grown_def heap_wf_def lpfns_loaded_def)
  then show "faults w' = faults w \<and> acting k L block w0 w' \<and> is_v4 (snd r)"
    using query_v4 [OF x run [unfolded r]] c r by simp
qed

lemma holds_texts:
  assumes s: "s \<in> set L" and e: "is_v4 e" "is_v4 e'"
  shows "holds (acting k L block w0) (do {
      x \<leftarrow> read_sock s;
      lift_cpp [] (inet_ntop ntop (ws_addr_family x) e);
      lift_cpp [] (inet_ntop ntop (ws_addr_family x) e');
      State_Monad.return () })"
  by (intro triple_bind [OF triple_family [OF s]] triple_pure holds_rules) (use holds_text e in auto)

lemma holds_print:
  assumes c: "names_contract os" and s: "s \<in> set L"
  shows "holds (acting k L block w0) (print_endpoints ntop os s)"
proof -
  have q: "name_known os (Getsockname h n) w" "name_known os (Getpeername h n) w" for h n w
    using c by (simp_all add: names_contract_def)
  note t1 = triple_query [where q = Getsockname, OF q(1) s] and t2 = triple_query [where q = Getpeername, OF q(2) s]
  show ?thesis
    unfolding print_endpoints_def get_sock_name_def get_peer_name_def split_beta
    by (intro triple_bind [OF t1] triple_bind [OF t2] triple_pure holds_texts [OF s])
qed

lemma client_starts:
  assumes "win_contract os"
  shows "holds (acting k [s] (client_block s) w0) (start_recv u (Some client_recv_id) os s)"
    and "holds (acting k [s] (client_block s) w0) (start_send u (Some client_send_id) os s)"
    and "holds (acting k [s] (client_block s) w0) (start_disconnect r (Some client_disconnect_id) os s)"
  by (auto intro!: holds_start_recv [OF assms] holds_start_send [OF assms] holds_start_disconnect [OF assms]
      simp: client_block_def recv_records_def send_records_def disconnect_records_def)

lemma client_handler:
  assumes c: "win_contract os" "names_contract os" and call: "client_call s call"
  shows "holds (acting k [s] (client_block s) w0) (client_user ntop os call)"
proof -
  have s: "s \<in> set [s]" by simp
  have l: "(12 :: nat) \<le> length (literal ''client test'')" by (simp add: literal_def)
  note parts = holds_rules holds_stop [OF s] holds_memcpy [OF l] client_starts [OF c(1)] holds_print [OF c(2) s]
  show ?thesis
    using call
    by (cases call; simp only: client_user.simps client_call.simps client_handler_defs deref_sock_def option.case
        State_Monad.bind_left_identity) (intro parts)+
qed

interpretation client: event_program "client_user ntop" names_contract k "[s]" "client_block s" "client_call s" for ntop k s
proof (unfold_locales, goal_cases)
  case (1 os call)
  then show ?case by (rule client_client)
next
  case (2 os)
  show ?case by (rule private_keeps_blocks [OF client_private])
next
  case (3 d)
  then show ?case by (auto simp: client_block_def)
next
  case (4 d res n errs d')
  then show ?case by (auto simp: client_block_def completed_def)
next
  case (5 d p wk)
  then show ?case by (auto simp: client_block_def work_ok_def)
next
  case (6 os call w0)
  then show ?case by (intro client_handler)
qed

interpretation client_sized: sized_application "client_user ntop" for ntop
proof
  show "lengths_kept (client_user ntop os call)" for os call
    by (cases call; simp only: client_user.simps on_connect_complete_def client_on_send_complete_def
        client_on_recv_complete_def on_disconnect_complete_def print_endpoints_def)
      (intro sized_rules)+
qed

section \<open>The whole program\<close>

lemma target_ep_ok: "is_v4 target_ep" "wf_endpoint target_ep" "matches_family AF_IPv4 target_ep"
  by (simp_all add: target_ep_def wf_v4_def)

text \<open>When the implicit bind fails \<open>start_connect\<close> gives up: its block is lost, but nothing is undefined.\<close>

lemma start_connect_gives_up:
  assumes c: "win_contract os" and p: "base k [s] w" and n: "\<not> connect_ok target_ep os s w"
    and run: "run_state (start_connect target_ep h os s) w = (e, w')"
  shows "e \<noteq> Success \<and> faults w' = faults w \<and> closing k [s] [] w'"
proof -
  obtain x where x: "sockets w s = Some x" "ws_addr_family x = AF_IPv4" using p by (auto simp: base_def serves_def)
  obtain sa any_sa where "endpoint_to_sockaddr AF_IPv4 target_ep = Ret (Success, sa)"
    and any: "endpoint_to_sockaddr AF_IPv4 (any_endpoint AF_IPv4) = Ret (Success, any_sa)"
    and "AF_IPv4 = AF_IPv4 \<and> ss_family sa = AF_INET \<or> AF_IPv4 = AF_IPv6 \<and> ss_family sa = AF_INET6"
    by (rule encode_family [OF target_ep_ok(3,2)])
  then have sa: "endpoint_to_sockaddr AF_IPv4 target_ep = Ret (Success, sa)" "ss_family sa = AF_INET" by simp_all
  let ?b = "Ws_bind (ws_socket x) any_sa sizeof_sockaddr"
  have nb: "\<not> ws_is_bound x" and "fst (run_state (bind_ep os s (any_endpoint AF_IPv4)) w) \<noteq> Success"
    using n x target_ep_ok by (auto simp: connect_ok_def dst_ok_def sock_Some)
  then have r: "ret (sys_ret os (Ws ?b) w) \<noteq> 0"
    using bind_run(2) [OF x(1) win_contractD(3) [OF c]] any x(2) by (metis eq_fst_iff)
  let ?w0 = "w\<lparr>next_addr := next_addr w + 1, io_heap := (io_heap w)(next_addr w \<mapsto>
      IOData_default\<lparr>iod_socket := Some s, iod_user_handler := ConnectHandler h, iod_peer_win_addr := sa\<rparr>)\<rparr>"
  have err: "ret (sys_ret os WSAGetLastError (after os (Ws ?b) ?w0)) \<noteq> 0"
    using r by (intro wsa_contractD [OF win_contractD(3) [OF c]]) (simp add: wsa_fails_def)
  have "e \<noteq> Success \<and> faults w' = faults w \<and> sockets w' = sockets w \<and> cores w' = cores w"
    using run r err nb x sa any by (auto simp: start_connect_def exec sock_Some bind_ep_def io_def any_endpoint_def)
  then show ?thesis using p by (auto simp: closing_def base_def serves_def)
qed

lemma triple_start_connect:
  assumes c: "win_contract os"
  shows "triple (base k [s]) (start_connect target_ep (Some client_connect_id) os s)
    (\<lambda>e w. if e = Success then program_inv k [s] (client_block s) w else closing k [s] [] w)"
proof (rule tripleI)
  fix w e w' assume p: "base k [s] w" and run: "run_state (start_connect target_ep (Some client_connect_id) os s) w = (e, w')"
  show "faults w' = faults w \<and> (if e = Success then program_inv k [s] (client_block s) w' else closing k [s] [] w')"
  proof (cases "connect_ok target_ep os s w")
    case True
    have "ready w s" using p by (auto simp: base_def pristine_def ready_def serves_def sock_Some)
    from program_starts [OF p _ connect_start.submits [OF c this True run]] show ?thesis
      by (simp add: connect_records_def client_block_def)
  next
    case False
    from start_connect_gives_up [OF c p this run] show ?thesis by simp
  qed
qed

lemma triple_client_connect:
  assumes c: "win_contract os" "acceptex_contract os" "acceptex_v4_contract os" "names_contract os"
    and l: "\<forall>i > 0. late_ok os (late i)"
  shows "triple (\<lambda>w. base k [] w \<and> sockets w s = Some (WinSocket_default k))
    (client_connect ntop os k s schedule late) (program_done k [s])"
proof -
  let ?I = "program_inv k [s] (client_block s)"
  have late: "late_ok os (late 1)" using l by simp
  have h: "triple ?I (happen_all os (client_user ntop os) (late 0)) (\<lambda>_. winding k [s] [])"
    by (rule triple_conseq [OF client.happen_all_keeps [OF c]]) (auto intro: program_inv_winding)
  have sh: "triple ?I (client_shutdown os (client_user ntop os) k s late) (program_done k [s])"
    unfolding client_shutdown_def by (intro triple_bind [OF h] triple_finish [OF c(1,2) late]) auto
  have ru: "triple ?I (do {
      returned \<leftarrow> run os (client_user ntop os) k schedule;
      if returned then client_shutdown os (client_user ntop os) k s late else State_Monad.return None }) (program_done k [s])"
    by (rule triple_bind [OF client.run_keeps [OF c]], rule triple_if [OF sh])
      (rule triple_return, simp add: program_done_def)
  show ?thesis
    unfolding client_connect_def
    by (intro triple_check [OF triple_socket [OF c(1)] triple_base_fail(1) [OF c(1)]] triple_bind [OF holds_text]
        triple_check [OF triple_start_connect [OF c(1)] triple_close_fail [OF c(1)]] ru)
      (simp_all add: target_ep_ok)
qed

lemma client_main_triple:
  assumes c: "core_contract os" "win_contract os" "acceptex_contract os" "acceptex_v4_contract os" "names_contract os"
    and l: "\<forall>i > 0. late_ok os (late i)"
  shows "triple pristine (client_main ntop os junk_io junk_user k s schedule late) (program_done k [s])"
  unfolding client_main_def by (rule triple_begin [OF c(1)], rule triple_client_connect [OF c(2-5) l])

section \<open>Runs in which the names were known\<close>

context same_answers
begin

lemma agree_print [agree_rules]: "agree A G (print_endpoints ntop os c) (print_endpoints ntop os' c)"
  unfolding print_endpoints_def by (intro agree_rules)

lemma agree_client_user: "agree A G (client_user ntop os call) (client_user ntop os' call)"
  by (cases call; simp only: client_user.simps client_handler_defs) (intro agree_rules)+

lemma agree_client_connect [agree_rules]:
  "agree A G (client_connect ntop os k s schedule late) (client_connect ntop os' k s schedule late)"
  unfolding client_connect_def client_shutdown_def
  by (intro agree_rules agree_run agree_happen_all agree_close_then agree_client_user)

lemma agree_client_main:
  "agree A G (client_main ntop os junk_io junk_user k s schedule late) (client_main ntop os' junk_io junk_user k s schedule late)"
  unfolding client_main_def by (intro agree_rules)

end

interpretation names: same_answers "\<lambda>_ _. True" name_answered os "answering os" for os :: "'o os"
  by unfold_locales (simp_all add: answering_def)

text \<open>The other system keeps the contracts of the given one.\<close>

lemma answering_calls:
  "sys_ret (answering os) WSAGetLastError w = sys_ret os WSAGetLastError w" "sys_ret (answering os) GetLastError w = sys_ret os GetLastError w"
  "sys_ret (answering os) (Opt q) w = sys_ret os (Opt q) w" "sys_ret (answering os) (Ov call p) w = sys_ret os (Ov call p) w"
  "sys_ret (answering os) (GetAcceptExSockaddrs f p l m) w = sys_ret os (GetAcceptExSockaddrs f p l m) w"
  "sys_ret (answering os) (Io i) w = sys_ret os (Io i) w" "sys_ret (answering os) (Tp t) w = sys_ret os (Tp t) w"
  "sys_ret (answering os) (TrySubmitThreadpoolCallback a pl k) w = sys_ret os (TrySubmitThreadpoolCallback a pl k) w"
  by (simp_all add: sys_ret_def answering_def)

lemma answering_after: "sys_ret os d (after (answering os) c w) = sys_ret os d (after os c w)"
  by (simp add: sys_ret_def after_def answering_def)

lemma answering_fails: "wsa_fails c (ret (sys_ret (answering os) (Ws c) w)) \<Longrightarrow> wsa_fails c (ret (sys_ret os (Ws c) w))"
  by (cases c) (auto simp: answering_def sys_ret_def wsa_fails_def SOCKET_ERROR_def split: if_splits)

lemma answering_names: "names_contract (answering os)"
  by (simp add: names_contract_def name_known_def answering_def sys_ret_def v4_sockaddr_family SOCKET_ERROR_def)

lemma answering_wsa: "wsa_contract os \<Longrightarrow> wsa_contract (answering os)"
  unfolding wsa_contract_def answering_calls answering_after using answering_fails by blast

lemma answering_contracts:
  "core_contract os \<Longrightarrow> core_contract (answering os)" "win_contract os \<Longrightarrow> win_contract (answering os)"
  "acceptex_contract os \<Longrightarrow> acceptex_contract (answering os)" "acceptex_v4_contract os \<Longrightarrow> acceptex_v4_contract (answering os)"
  "late_ok os es \<Longrightarrow> late_ok (answering os) es"
  using answering_wsa [of os]
  by (simp_all add: core_contract_def tp_contract_def opt_contract_def ioctl_contract_def win_contract_def overlapped_contract_def
      submit_contract_def tpio_contract_def acceptex_contract_def acceptex_v4_contract_def late_ok_def accepting_def
      answering_calls answering_after)

section \<open>Properties\<close>

text \<open>C13. The echo client does nothing undefined in any run in which the names it prints were known.  On any system
  that keeps its documented contracts, for every outcome of every call and for every schedule of
  completions and callbacks from \<open>run\<close> until \<open>main\<close> closes the socket, a run of \<open>main\<close> from a fresh process adds no
  fault, provided that each time the client asked in this run for a name of its socket the system
  answered with an IPv4 address; nothing is assumed of the answers that were not asked for.  The
  scope of \<open>late_ok\<close> is part of the claim: once the socket has been closed no posted handler may run, and operations
  may complete only on a system that accepts all work that is posted.  When \<open>main\<close> returns 0 the socket has been
  closed and the core holds nothing.\<close>

theorem client_main_safe:
  assumes "core_contract os" and "win_contract os" and "acceptex_contract os" and "acceptex_v4_contract os"
    and "\<forall>i > 0. late_ok os (late i)" and "pristine w"
    and "run_state (client_main ntop os junk_io junk_user new_core new_sock schedule late) w = (r, w')"
    and "\<forall>(call, a) \<in> set (new_trace w w'). name_answered call a"
  shows "faults w' = faults w \<and> (r = Some 0 \<longrightarrow> fresh (sock w' new_sock) \<and> core_held new_core (core w' new_core) = {#})"
proof -
  obtain tr where tr: "os_trace w' = os_trace w @ tr"
    and a: "good name_answered tr \<Longrightarrow> run_state (client_main ntop (answering os) junk_io junk_user new_core new_sock schedule late) w = (r, w')"
    using agreeD [OF names.agree_client_main assms(7)] by blast
  have "good name_answered tr" using assms(8) tr by (simp add: good_def new_trace_def)
  note run = a [OF this]
  have "\<forall>i > 0. late_ok (answering os) (late i)" using assms(5) answering_contracts(5) by blast
  from tripleD [OF client_main_triple [OF answering_contracts(1) [OF assms(1)] answering_contracts(2) [OF assms(2)]
      answering_contracts(3) [OF assms(3)] answering_contracts(4) [OF assms(4)] answering_names this] assms(6) run]
  show ?thesis by (simp add: program_done_def)
qed

text \<open>
  The client connects, sends, receives and disconnects; it stops when the last receive ends, and
  the disconnect completes while \<open>main\<close> closes the socket.
\<close>

definition client_schedule :: "event list" where
  "client_schedule = [Completes 1 0 0, Runs User_Pool 2, Completes 3 0 512, Completes 4 0 512, Runs User_Pool 5,
     Runs User_Pool 6, Completes 8 0 0, Runs User_Pool 9]"

definition client_late :: "nat \<Rightarrow> event list" where
  "client_late i = (if i = 1 then [Completes 7 0 0] else [])"

definition sample_client_run :: "int option \<times> unit world" where
  "sample_client_run = run_state (client_main ntop_loopback loopback_os (pool_of Io_Pool sample_core)
     (pool_of User_Pool sample_core) 0 0 client_schedule client_late) bare_world"

text \<open>This system always knows the names.\<close>

interpretation loopback_names: same_answers name_answered name_answered loopback_os loopback_os
proof
  show "name_answered c (fst (loopback_os c s))" for c s
    by (cases "(c, fst (loopback_os c s))" rule: name_answered.cases)
      (auto simp: loopback_os_def v4_sockaddr_family sample_os_def SOCKET_ERROR_def answer_def)
qed simp

lemma sample_client_answers: "\<forall>(call, a) \<in> set (new_trace bare_world (snd sample_client_run)). name_answered call a"
proof -
  obtain x w' where run: "sample_client_run = (x, w')" by fastforce
  then obtain tr where "os_trace w' = os_trace bare_world @ tr" "good name_answered tr"
    using agreeD [OF loopback_names.agree_client_main run [unfolded sample_client_run_def]] by blast
  then show ?thesis unfolding run snd_conv by (simp add: good_def new_trace_def)
qed

theorem client_main_safe_witness:
  "faults (snd sample_client_run) = []"
proof -
  have late: "\<forall>i > 0. late_ok loopback_os (client_late i)"
    by (simp add: late_ok_def client_late_def loopback_accepting)
  have run: "run_state (client_main ntop_loopback loopback_os (pool_of Io_Pool sample_core) (pool_of User_Pool sample_core) 0 0
      client_schedule client_late) bare_world = (fst sample_client_run, snd sample_client_run)"
    by (simp add: sample_client_run_def)
  from client_main_safe [OF loopback_contracts late bare_pristine run sample_client_answers] show ?thesis
    by (simp add: bare_world_def sample_world_def)
qed

text \<open>C14. That the names were known is needed.  The client's disconnect handler ignores what
  \<open>get_sock_name\<close> and \<open>get_peer_name\<close> return: on an IPv4 socket it is free of undefined behaviour
  exactly when the system knows both names, which it does not have to do for the peer of a socket
  that has just been disconnected; otherwise the handler reads a member of an endpoint that was
  never set.\<close>

theorem client_prints_undefined_iff:
  assumes "sockets w s = Some x" and "ws_addr_family x = AF_IPv4"
    and "run_state (on_disconnect_complete ntop os (Some s) Success) w = ((), w')"
  shows "faults w' = faults w \<longleftrightarrow> name_known os (Getsockname (ws_socket x) sizeof_sockaddr) w \<and>
    name_known os (Getpeername (ws_socket x) sizeof_sockaddr) (snd (run_state (get_sock_name os s Ep_Uninit) w))"
proof -
  obtain e1 p1 w1 where r1: "run_state (name_query os Getsockname s Ep_Uninit) w = ((e1, p1), w1)" by (metis prod.exhaust)
  note q1 = query_v4 [OF assms(1) r1]
  have x1: "sockets w1 s = Some x" using assms(1) q1(3) by simp
  obtain e2 p2 w2 where r2: "run_state (name_query os Getpeername s Ep_Uninit) w1 = ((e2, p2), w2)" by (metis prod.exhaust)
  note q2 = query_v4 [OF x1 r2]
  have x2: "sockets w2 s = Some x" using x1 q2(3) by simp
  have "faults w' = faults w2 \<longleftrightarrow> is_v4 p1 \<and> is_v4 p2"
    using assms(2,3) r1 r2 x2
    by (cases p1; cases p2) (auto simp: on_disconnect_complete_def print_endpoints_def get_sock_name_def get_peer_name_def
        deref_sock_def inet_ntop_def ipv4_def sock_Some run_read_sock)
  then show ?thesis using q1(1,2) q2(1,2) r1 by (simp add: get_sock_name_def)
qed

text \<open>A system on which the socket has a name of its own but no peer any more.\<close>

definition peerless_os :: "unit os" where
  "peerless_os c u = (case c of Ws (Getpeername h n) \<Rightarrow> (answer SOCKET_ERROR False, u) | _ \<Rightarrow> loopback_os c u)"

theorem client_prints_undefined_iff_witness:
  "faults (snd (run_state (on_disconnect_complete ntop_loopback peerless_os (Some 0) Success) (sample_world [sample_socket]))) \<noteq> []"
proof -
  let ?w = "sample_world [sample_socket]"
  have s: "sockets ?w 0 = Some sample_socket" "ws_addr_family sample_socket = AF_IPv4" "faults ?w = []"
    by (simp_all add: sample_world_def sample_socket_def)
  obtain w' where run: "run_state (on_disconnect_complete ntop_loopback peerless_os (Some 0) Success) ?w = ((), w')"
    by (rule unit_run)
  have "\<not> name_known peerless_os (Getpeername h n) u" for h n u
    by (simp add: name_known_def sys_ret_def peerless_os_def answer_def)
  with client_prints_undefined_iff [OF s(1,2) run] run s(3) show ?thesis by simp
qed

end
