(* ===== verification/Spec2Isabelle.thy ===== *)
theory Spec2Isabelle
  imports Run_Stop Win_Disconnect Echo_Server Echo_Client
begin

text \<open>
  \<^bold>\<open>Firelink: a verification development.\<close>

  Firelink is an asynchronous network library for Windows, written in C++.  An application creates an
  I/O core (two Windows thread pools), creates sockets on it, and uses them synchronously or by
  starting overlapped operations whose handlers the library calls on the pools.  The platform-independent
  part is \<open>src/src/{endpoint,socket,io_core}.cpp\<close> with the headers of \<open>src/include/firelink\<close>; the
  implementation is \<open>src/src/platform/windows/{win_socket,win_io_core}.cpp\<close>; two example programs are
  under \<open>src/examples\<close>.

  \<^bold>\<open>How the code is modelled.\<close>  Functions of the library are programs in the state monad over a record
  \<open>world\<close>: the socket and core objects, the heap of \<open>IOData\<close> blocks and of posted closures, the static
  extension function pointers, the caller's memory, and ghost fields: the trace of system calls, the
  operations in flight, the posted callbacks, the handlers called, and the faults.  A fault stands for
  undefined behaviour (use after free, double free, null dereference, reading the inactive member of a
  union, calling through a null pointer).  Code that does not terminate a run by undefined behaviour goes
  on, so that theorems state that \<open>faults\<close> has not grown.  The operating system is a parameter \<open>os\<close>, a
  function that answers each system call in a state of its own; \<open>::inet_ntop\<close> and \<open>::inet_pton\<close> are
  parameters too, and so is, in the library, the body of a handler.  Nothing is assumed of the system in
  the definitions.  What its documentation promises are the hypotheses \<open>overlapped_contract\<close>,
  \<open>submit_contract\<close>, \<open>wsa_contract\<close>, \<open>opt_contract\<close>, \<open>tpio_contract\<close> (together \<open>win_contract\<close>),
  \<open>tp_contract\<close>, \<open>ioctl_contract\<close> (\<open>core_contract\<close>), \<open>acceptex_contract\<close>, \<open>acceptex_v4_contract\<close>,
  \<open>recv_contract\<close> and \<open>clock_contract\<close>; \<open>sample_os\<close> and \<open>loopback_os\<close> are systems that satisfy them and on which the
  witnesses run.

  \<^bold>\<open>Theories.\<close>

  \<^item> \<open>Cpp_Prelude\<close>: results of C++ functions (value, exception, undefined), conversions between integer
    widths, decimal text, the functions of \<open>std::string\<close> that the code uses, shared lemmas.

  \<^item> \<open>Fl_Types\<close> (\<open>types.hpp\<close>, \<open>options.hpp\<close>, \<open>error_codes.hpp\<close>): the enumerations with their values.

  \<^item> \<open>Fl_Endpoint\<close> (\<open>endpoint.hpp\<close>, \<open>endpoint.cpp\<close>): addresses, the untagged union \<open>Endpoint\<close>, its text
    form.  Printing and parsing are inverse; parsing writes its output only on success; where parsing is
    undefined and what it does to a port out of range.

  \<^item> \<open>Win_Sockaddr\<close> (\<open>win_socket.cpp\<close>, conversions): the bytes of \<open>SOCKADDR_STORAGE\<close>; encoding and
    decoding are inverse, and decoding agrees with a plain reading of the bytes.

  \<^item> \<open>Win_Platform\<close>: the world, the system calls with their arguments, the lengths of addresses and buffers
    among them, and the contracts of the system.

  \<^item> \<open>Win_Socket\<close> (\<open>socket.cpp\<close>, \<open>win_socket.cpp\<close>): objects and synchronous operations; every native
    handle and thread pool object that is acquired is held or given back; \<open>bind\<close>, \<open>connect\<close> and \<open>recv\<close> are
    stated call by call.

  \<^item> \<open>Win_Async\<close>: the seven \<open>start_\<close> operations.  The locale \<open>start_op\<close> is their contract, with one
    interpretation each: a block handed to the system and announced once, or everything taken back; an accept
    is requested with an open handle, a connection on a socket that is bound.  The paths on which
    \<open>start_connect\<close> and \<open>start_send_to\<close> lose their block are stated too.

  \<^item> \<open>Win_IOCore\<close> (\<open>io_core.cpp\<close>, \<open>win_io_core.cpp\<close>): creation, initialisation, release with its
    rollback levels, posting work (locale \<open>work_queue\<close>, two interpretations).

  \<^item> \<open>Win_Completion\<close>: \<open>socket_io_routine\<close>, which completes every operation, and the callback that runs
    posted work; the locale \<open>completion_branch\<close> is the contract of its five branches: the system calls they
    make (\<open>accept_steps\<close>, \<open>connect_steps\<close>), the errors these come to, and how the handler is delivered.

  \<^item> \<open>Run_Stop\<close>: \<open>run\<close>, \<open>stop\<close> and \<open>stop_io_context\<close> as interleaved threads over the stop flag, the lock
    and the condition variable: mutual exclusion, no lost wake-up, and that \<open>run\<close> returns after \<open>stop\<close>.

  \<^item> \<open>Win_Disconnect\<close>: the graceful \<open>disconnect\<close>, a loop with a timeout on unsigned 64-bit ticks, as a
    partial function (not returning is \<open>None\<close>); it returns on a clock that advances.

  \<^item> \<open>Async_System\<close>: the asynchronous operations as a transition system in which the application calls
    the library, and the system completes operations and runs callbacks, in any order, with handlers that
    start further operations.  Every block and closure has one owner in every state reached without a
    fault, but for the blocks that calls of the application have lost (\<open>lost_by\<close>), which the relation
    \<open>async_reachable\<close> carries along; nothing is freed twice or used after it was freed, and every accepted operation is
    accounted for.  The locale \<open>application\<close> is what the library asks of handlers: to leave the
    library's blocks alone and to make only calls that lose none.

  \<^item> \<open>Win_Lifetime\<close>: the shared pointers to sockets that blocks hold, and the destruction of a socket by
    the completion that deletes the block with the last of them: the destructor then waits for its own
    callback.

  \<^item> \<open>Win_Buffers\<close>: every length that is handed to the system fits the buffer it is about, in every call of
    every reachable state (locale \<open>sized_application\<close>).

  \<^item> \<open>Echo_Common\<close>, \<open>Event_Program\<close>: what the examples share, a calculus of fault-free triples, and the
    locale \<open>event_program\<close>, which reduces the safety of a program to that of its handlers.

  \<^item> \<open>Same_Answers\<close>: two systems that a run cannot tell apart (locale \<open>same_answers\<close>), by which a hypothesis
    about a system becomes one about the trace of a run.

  \<^item> \<open>Echo_Server\<close>, \<open>Echo_Client\<close> (\<open>examples\<close>): handlers and \<open>main\<close> of both programs, interpretations of
    \<open>event_program\<close>, \<open>sized_application\<close> and, for the client, \<open>same_answers\<close>.  Under every schedule of \<open>run\<close> and up to the first
    \<open>close\<close> the server does nothing undefined, and the client does only where the system did not know a name
    of its socket that it asked for.  After the first \<open>close\<close> the schedules of these theorems (\<open>late_ok\<close>) have
    completions only, on a system that accepts the handlers posted for them: a receive handler that runs later than
    the \<open>close\<close> of its socket does fault, which is stated as a property of its own.

  \<^bold>\<open>Steps and bounds.\<close>  In \<open>Async_System\<close> and the examples a step is a whole call, completion or callback:
  handlers on different pool threads are interleaved at that grain, which suffices for the ownership of
  blocks because a block is reached by one thread at a time.  In \<open>Run_Stop\<close> a step is one access to shared
  state.  No fuel is used: all definitions are total but \<open>disconnect_loop\<close>, and the schedule of events
  that the \<open>main\<close> of an example takes is a list of any length, with result \<open>None\<close> when it ends first.

  \<^bold>\<open>Not modelled.\<close>  Console output; the destructors of the local variables of \<open>main\<close> in the examples; the
  lifetime of cores and the reference counts of \<open>std::shared_ptr\<close> (the standard library's: \<open>Win_Lifetime\<close> destroys
  a socket when nothing refers to it); events during \<open>release\<close>, which waits for the pools; the bytes that a
  completed overlapped receive stores in the buffer; the late write of \<open>WSARecvFrom\<close> through the pointer
  to the local variable \<open>remote_addr_len\<close> of \<open>start_recv_from\<close>, which is dead by then, and the address it stores
  (only the length that is passed is in the model, the dangling write is no fault of it); the read beyond a
  \<open>std::string_view\<close> that no zero byte follows, in \<open>str_to_addr4\<close> and \<open>str_to_addr6\<close>, whose
  arguments are taken to be terminated; the time that waiting calls take; two threads inside library calls on the same
  object at the same time; the Linux backend, which is empty; the export macros and the build scripts.
\<close>

end
